theory Spec2Isabelle
  imports Complex_Main "HOL-Library.AList"
begin

section \<open>JavaScript numbers\<close>

text \<open>
  The TypeScript type \<open>number\<close> is modelled by \<open>jsnum\<close>: a finite value, the two
  infinities, or NaN.  Finite values are reals and finite arithmetic is exact: rounding,
  overflow, underflow and the sign of zero are left out of the model (a zero divisor is
  read as \<open>+0\<close>).  Everything that the source decides by \<open>Number.isFinite\<close>,
  by a comparison that is false on NaN, or by \<open>Math.min\<close> is kept.
\<close>

datatype jsnum = Fin real | PInf | NInf | NaN

fun isFinite :: "jsnum \<Rightarrow> bool" where
  "isFinite (Fin _) = True"
| "isFinite _ = False"

fun isNaN :: "jsnum \<Rightarrow> bool" where
  "isNaN NaN = True"
| "isNaN _ = False"

fun js_neg :: "jsnum \<Rightarrow> jsnum" where
  "js_neg (Fin a) = Fin (- a)"
| "js_neg PInf = NInf"
| "js_neg NInf = PInf"
| "js_neg NaN = NaN"

fun js_add :: "jsnum \<Rightarrow> jsnum \<Rightarrow> jsnum" where
  "js_add NaN _ = NaN"
| "js_add _ NaN = NaN"
| "js_add (Fin a) (Fin b) = Fin (a + b)"
| "js_add PInf NInf = NaN"
| "js_add NInf PInf = NaN"
| "js_add PInf _ = PInf"
| "js_add _ PInf = PInf"
| "js_add NInf _ = NInf"
| "js_add _ NInf = NInf"

definition js_sub :: "jsnum \<Rightarrow> jsnum \<Rightarrow> jsnum" where
  "js_sub a b = js_add a (js_neg b)"

fun js_mul :: "jsnum \<Rightarrow> jsnum \<Rightarrow> jsnum" where
  "js_mul NaN _ = NaN"
| "js_mul _ NaN = NaN"
| "js_mul (Fin a) (Fin b) = Fin (a * b)"
| "js_mul PInf (Fin b) = (if b = 0 then NaN else if 0 < b then PInf else NInf)"
| "js_mul NInf (Fin b) = (if b = 0 then NaN else if 0 < b then NInf else PInf)"
| "js_mul (Fin a) PInf = (if a = 0 then NaN else if 0 < a then PInf else NInf)"
| "js_mul (Fin a) NInf = (if a = 0 then NaN else if 0 < a then NInf else PInf)"
| "js_mul PInf PInf = PInf"
| "js_mul PInf NInf = NInf"
| "js_mul NInf PInf = NInf"
| "js_mul NInf NInf = PInf"

fun js_div :: "jsnum \<Rightarrow> jsnum \<Rightarrow> jsnum" where
  "js_div NaN _ = NaN"
| "js_div _ NaN = NaN"
| "js_div (Fin a) (Fin b) =
     (if b = 0 then (if a = 0 then NaN else if 0 < a then PInf else NInf) else Fin (a / b))"
| "js_div (Fin a) PInf = Fin 0"
| "js_div (Fin a) NInf = Fin 0"
| "js_div PInf (Fin b) = (if 0 \<le> b then PInf else NInf)"
| "js_div NInf (Fin b) = (if 0 \<le> b then NInf else PInf)"
| "js_div PInf PInf = NaN"
| "js_div PInf NInf = NaN"
| "js_div NInf PInf = NaN"
| "js_div NInf NInf = NaN"

fun js_lt :: "jsnum \<Rightarrow> jsnum \<Rightarrow> bool" where
  "js_lt NaN _ = False"
| "js_lt _ NaN = False"
| "js_lt (Fin a) (Fin b) = (a < b)"
| "js_lt (Fin a) PInf = True"
| "js_lt (Fin a) NInf = False"
| "js_lt PInf _ = False"
| "js_lt NInf (Fin b) = True"
| "js_lt NInf PInf = True"
| "js_lt NInf NInf = False"

fun js_le :: "jsnum \<Rightarrow> jsnum \<Rightarrow> bool" where
  "js_le NaN _ = False"
| "js_le _ NaN = False"
| "js_le (Fin a) (Fin b) = (a \<le> b)"
| "js_le (Fin a) PInf = True"
| "js_le (Fin a) NInf = False"
| "js_le PInf PInf = True"
| "js_le PInf _ = False"
| "js_le NInf _ = True"

definition js_gt :: "jsnum \<Rightarrow> jsnum \<Rightarrow> bool" where
  "js_gt a b = js_lt b a"

definition js_ge :: "jsnum \<Rightarrow> jsnum \<Rightarrow> bool" where
  "js_ge a b = js_le b a"

text \<open>\<open>Math.min\<close> of two arguments: NaN as soon as one argument is NaN.\<close>

definition js_min :: "jsnum \<Rightarrow> jsnum \<Rightarrow> jsnum" where
  "js_min a b = (if isNaN a \<or> isNaN b then NaN else if js_lt b a then b else a)"

definition js_max :: "jsnum \<Rightarrow> jsnum \<Rightarrow> jsnum" where
  "js_max a b = (if isNaN a \<or> isNaN b then NaN else if js_lt a b then b else a)"

text \<open>\<open>Math.min(...xs)\<close> and \<open>Math.max(...xs)\<close>; on no argument they are
  \<open>Infinity\<close> and \<open>-Infinity\<close>.\<close>

definition Math_min :: "jsnum list \<Rightarrow> jsnum" where
  "Math_min xs = foldl js_min PInf xs"

definition Math_max :: "jsnum list \<Rightarrow> jsnum" where
  "Math_max xs = foldl js_max NInf xs"

text \<open>
  \<open>Number(x.toFixed(d))\<close>: the magnitude is rounded to \<open>d\<close> decimals, a tie going
  to the larger magnitude; from \<open>1e21\<close> on \<open>toFixed\<close> prints the number itself.
\<close>

fun toFixedNumber :: "nat \<Rightarrow> jsnum \<Rightarrow> jsnum" where
  "toFixedNumber d (Fin x) =
     (if 10 ^ 21 \<le> \<bar>x\<bar> then Fin x
      else Fin (sgn x * of_int \<lfloor>\<bar>x\<bar> * 10 ^ d + 1 / 2\<rfloor> / 10 ^ d))"
| "toFixedNumber d v = v"

section \<open>Strings\<close>

text \<open>\<open>toUpperCase\<close> on the ASCII letters; other characters are left as they are.\<close>

definition toUpperChar :: "char \<Rightarrow> char" where
  "toUpperChar c =
     (let n = (of_char c :: nat) in if 97 \<le> n \<and> n \<le> 122 then char_of (n - 32) else c)"

definition toUpperCase :: "string \<Rightarrow> string" where
  "toUpperCase s = map toUpperChar s"

definition endsWith :: "string \<Rightarrow> string \<Rightarrow> bool" where
  "endsWith s suf \<longleftrightarrow> length suf \<le> length s \<and> drop (length s - length suf) s = suf"

definition baseFromSymbolUsdt :: "string \<Rightarrow> string" where
  "baseFromSymbolUsdt smb =
     (if endsWith smb ''USDT'' then take (length smb - length ''USDT'') smb else smb)"

section \<open>Order books and the fill simulation\<close>

type_synonym OrderBookLevel = "jsnum \<times> jsnum"

record OrderBook =
  bids :: "OrderBookLevel list"
  asks :: "OrderBookLevel list"

record Fill =
  executablePrice :: jsnum
  baseAmount :: jsnum

text \<open>The guard at the head of both loops: a level that is skipped (\<open>continue\<close>).\<close>

definition skipLevel :: "jsnum \<Rightarrow> jsnum \<Rightarrow> bool" where
  "skipLevel price amountBase \<longleftrightarrow>
     \<not> isFinite price \<or> \<not> isFinite amountBase \<or> js_le price (Fin 0) \<or> js_le amountBase (Fin 0)"

text \<open>
  The loop of \<open>vwapBuyForQuoteAmount\<close> over \<open>book.asks\<close>; the state is
  \<open>(remainingQuote, baseBought, quoteSpent)\<close>, and \<open>break\<close> returns the state.
\<close>

fun buyLoop :: "OrderBookLevel list \<Rightarrow> jsnum \<times> jsnum \<times> jsnum \<Rightarrow> jsnum \<times> jsnum \<times> jsnum" where
  "buyLoop [] st = st"
| "buyLoop ((price, amountBase) # rest) (remainingQuote, baseBought, quoteSpent) =
     (if skipLevel price amountBase then buyLoop rest (remainingQuote, baseBought, quoteSpent)
      else
        let levelQuote = js_mul price amountBase;
            takeQuote = js_min remainingQuote levelQuote;
            takeBase = js_div takeQuote price;
            baseBought' = js_add baseBought takeBase;
            quoteSpent' = js_add quoteSpent takeQuote;
            remainingQuote' = js_sub remainingQuote takeQuote
        in if js_le remainingQuote' (Fin (1 / 10 ^ 9))
           then (remainingQuote', baseBought', quoteSpent')
           else buyLoop rest (remainingQuote', baseBought', quoteSpent'))"

definition vwapBuyForQuoteAmount :: "OrderBook \<Rightarrow> jsnum \<Rightarrow> Fill option" where
  "vwapBuyForQuoteAmount book quoteAmount =
     (case buyLoop (asks book) (quoteAmount, Fin 0, Fin 0) of
        (remainingQuote, baseBought, quoteSpent) \<Rightarrow>
          if js_le baseBought (Fin 0) \<or> js_gt remainingQuote (Fin (1 / 10 ^ 6)) then None
          else Some \<lparr>executablePrice = js_div quoteSpent baseBought, baseAmount = baseBought\<rparr>)"

text \<open>
  The loop of \<open>vwapSellForBaseAmount\<close> over \<open>book.bids\<close>; the state is
  \<open>(remainingBase, baseSold, quoteReceived)\<close>.
\<close>

fun sellLoop :: "OrderBookLevel list \<Rightarrow> jsnum \<times> jsnum \<times> jsnum \<Rightarrow> jsnum \<times> jsnum \<times> jsnum" where
  "sellLoop [] st = st"
| "sellLoop ((price, amountBase) # rest) (remainingBase, baseSold, quoteReceived) =
     (if skipLevel price amountBase then sellLoop rest (remainingBase, baseSold, quoteReceived)
      else
        let takeBase = js_min remainingBase amountBase;
            baseSold' = js_add baseSold takeBase;
            quoteReceived' = js_add quoteReceived (js_mul takeBase price);
            remainingBase' = js_sub remainingBase takeBase
        in if js_le remainingBase' (Fin (1 / 10 ^ 12))
           then (remainingBase', baseSold', quoteReceived')
           else sellLoop rest (remainingBase', baseSold', quoteReceived'))"

definition vwapSellForBaseAmount :: "OrderBook \<Rightarrow> jsnum \<Rightarrow> Fill option" where
  "vwapSellForBaseAmount book baseAmt =
     (case sellLoop (bids book) (baseAmt, Fin 0, Fin 0) of
        (remainingBase, baseSold, quoteReceived) \<Rightarrow>
          if js_le baseSold (Fin 0) \<or> js_gt remainingBase (Fin (1 / 10 ^ 9)) then None
          else Some \<lparr>executablePrice = js_div quoteReceived baseSold, baseAmount = baseSold\<rparr>)"


section \<open>Configuration\<close>

text \<open>
  The environment: for each variable, \<open>None\<close> when it is not set and otherwise the value
  of \<open>Number(raw)\<close>.
\<close>

record Env =
  env_MIN_DIFF_PERCENT :: "jsnum option"
  env_MIN_24H_VOLUME :: "jsnum option"
  env_MAX_SLIPPAGE_PERCENT :: "jsnum option"
  env_MIN_REAL_PROFIT_USD :: "jsnum option"
  env_DEFAULT_TRADE_AMOUNT :: "jsnum option"

definition readNumberEnv :: "jsnum option \<Rightarrow> real \<Rightarrow> jsnum" where
  "readNumberEnv raw fallback =
     (let parsed = (case raw of None \<Rightarrow> NaN | Some v \<Rightarrow> v)
      in if isFinite parsed then parsed else Fin fallback)"

definition MIN_24H_VOLUME :: "Env \<Rightarrow> jsnum" where
  "MIN_24H_VOLUME env = readNumberEnv (env_MIN_24H_VOLUME env) 50000"

definition MAX_SLIPPAGE_PERCENT :: "Env \<Rightarrow> jsnum" where
  "MAX_SLIPPAGE_PERCENT env = readNumberEnv (env_MAX_SLIPPAGE_PERCENT env) (8 / 10)"

definition MIN_REAL_PROFIT_USD :: "Env \<Rightarrow> jsnum" where
  "MIN_REAL_PROFIT_USD env = readNumberEnv (env_MIN_REAL_PROFIT_USD env) 5"

definition DEFAULT_TRADE_AMOUNT :: "Env \<Rightarrow> jsnum" where
  "DEFAULT_TRADE_AMOUNT env = readNumberEnv (env_DEFAULT_TRADE_AMOUNT env) 100"

definition DEFAULT_MIN_DIFF_PERCENT :: "Env \<Rightarrow> jsnum" where
  "DEFAULT_MIN_DIFF_PERCENT env =
     (let envMinDiff = (case env_MIN_DIFF_PERCENT env of None \<Rightarrow> Fin (1 / 2) | Some v \<Rightarrow> v)
      in if isNaN envMinDiff then Fin (1 / 2) else envMinDiff)"

text \<open>The environment in which no variable is set: every constant has its default.\<close>

definition defaultEnv :: Env where
  "defaultEnv = \<lparr>env_MIN_DIFF_PERCENT = None, env_MIN_24H_VOLUME = None,
     env_MAX_SLIPPAGE_PERCENT = None, env_MIN_REAL_PROFIT_USD = None,
     env_DEFAULT_TRADE_AMOUNT = None\<rparr>"

section \<open>The data model of \<open>types/exchange.ts\<close>\<close>

record Pair =
  base :: string
  quote :: string
  pairSymbol :: string

record ExchangeFees =
  takerFeePercent :: jsnum
  transferFeePercent :: "jsnum option"

record Ticker24h =
  lastPrice :: "jsnum option"
  quoteVolume24h :: "jsnum option"

record CurrencyNetworkInfo =
  network :: string
  depositEnabled :: "bool option"
  withdrawEnabled :: "bool option"

record CurrencyInfo =
  code :: string
  networks :: "CurrencyNetworkInfo list option"

type_synonym Currencies = "string \<rightharpoonup> CurrencyInfo"

text \<open>
  A call to a venue either resolves with a value or rejects.  The outcome of each call
  during one scan is part of the venue's record; an optional capability that the venue
  does not have is \<open>None\<close>.  A \<open>Record<string, number>\<close> of prices is the list of its
  entries in the order of \<open>Object.entries\<close>.
\<close>

datatype error = RequestFailed

record ExchangeConfig =
  name :: string
  fees :: ExchangeFees
  getPairs :: "error + Pair list"
  getPrices :: "string list \<Rightarrow> error + (string \<times> jsnum) list"
  getTickers24h :: "(string list \<Rightarrow> error + (string \<rightharpoonup> Ticker24h)) option"
  getOrderBook :: "(string \<Rightarrow> error + OrderBook option) option"
  getCurrencies :: "(error + Currencies option) option"

record OpportunityLeg =
  exchange :: string
  price :: jsnum
  effectivePrice :: jsnum
  feePercentApplied :: jsnum

type_synonym PriceByExchange = "(string \<times> jsnum) list"

type_synonym PricesBySymbol = "(string \<times> PriceByExchange) list"

record OpportunityLegValidation =
  bestPrice :: "jsnum option"
  valExecutablePrice :: "jsnum option"
  slippagePercent :: "jsnum option"
  volume24hQuote :: "jsnum option"

datatype transfer_status = Ok | Unknown | Blocked | Unavailable

text \<open>The reason strings, one constructor for each template and its interpolated values.\<close>

datatype transfer_reason =
    FetchCurrenciesNotAvailable string
  | CurrencyNetworksMissing
  | NoCommonNetwork

record TransferValidation =
  tStatus :: transfer_status
  tNetwork :: "string option"
  tReason :: "transfer_reason option"

datatype reject_reason =
    BuyVolumeUnknown string
  | SellVolumeUnknown string
  | BuyVolumeLow jsnum
  | SellVolumeLow jsnum
  | OrderBookUnsupported string
  | BuyBookUnavailable string
  | SellBookUnavailable string
  | BestAskMissing string
  | BestBidMissing string
  | InsufficientBuyDepth jsnum string
  | InsufficientSellDepth string
  | BuySlippageHigh jsnum
  | SellSlippageHigh jsnum
  | TransferCheck transfer_status "transfer_reason option"
  | RealProfitLow jsnum

datatype validation_status = Validated | Rejected

record OpportunityValidation =
  status :: validation_status
  reasons :: "reject_reason list option"
  valBuy :: "OpportunityLegValidation option"
  valSell :: "OpportunityLegValidation option"
  transfer :: "TransferValidation option"

record ArbitrageOpportunity =
  symbol :: string
  minPrice :: jsnum
  maxPrice :: jsnum
  diff :: jsnum
  netDiff :: jsnum
  buy :: OpportunityLeg
  sell :: OpportunityLeg
  exchanges :: PriceByExchange
  tradeAmountUsd :: "jsnum option"
  realProfitUsd :: "jsnum option"
  validation :: "OpportunityValidation option"

section \<open>JavaScript containers\<close>

text \<open>
  A \<open>Map\<close> (and an object with string keys that are not array indices) is the list of
  its entries in insertion order: writing an existing key keeps its position.
\<close>

definition fromEntries :: "('k \<times> 'v) list \<Rightarrow> ('k \<times> 'v) list" where
  "fromEntries es = foldl (\<lambda>m (k, v). AList.update k v m) [] es"

definition mapKeys :: "('k \<times> 'v) list \<Rightarrow> 'k list" where
  "mapKeys m = map fst m"

definition mapHas :: "('k \<times> 'v) list \<Rightarrow> 'k \<Rightarrow> bool" where
  "mapHas m k \<longleftrightarrow> k \<in> fst ` set m"

text \<open>\<open>Promise.all\<close>: rejects as soon as one of the promises rejects.\<close>

fun promiseAll :: "(error + 'a) list \<Rightarrow> error + 'a list" where
  "promiseAll [] = Inr []"
| "promiseAll (Inl e # rest) = Inl e"
| "promiseAll (Inr v # rest) = (case promiseAll rest of Inl e \<Rightarrow> Inl e | Inr vs \<Rightarrow> Inr (v # vs))"

section \<open>The Pair Registry and the Price Aggregator\<close>

text \<open>\<open>new Map(exchanges.map((exchange) => [exchange.name, exchange]))\<close>: of two venues
  with one name the later one is kept.\<close>

definition exchangeLookup :: "ExchangeConfig list \<Rightarrow> string \<Rightarrow> ExchangeConfig option" where
  "exchangeLookup exs = map_of (rev (map (\<lambda>e. (name e, e)) exs))"

definition pushExchange :: "(string \<times> string list) list \<Rightarrow> string \<Rightarrow> string \<Rightarrow> (string \<times> string list) list" where
  "pushExchange m smb ex =
     (case map_of m smb of
        None \<Rightarrow> AList.update smb [ex] m
      | Some l \<Rightarrow> AList.update smb (l @ [ex]) m)"

definition collectPairs :: "ExchangeConfig list \<Rightarrow> error + (string \<times> string list) list" where
  "collectPairs exs =
     (case promiseAll (map getPairs exs) of
        Inl e \<Rightarrow> Inl e
      | Inr pairLists \<Rightarrow>
          Inr (foldl (\<lambda>m (ex, pairs). foldl (\<lambda>m' pair. pushExchange m' (pairSymbol pair) ex) m pairs)
                 [] (zip (map name exs) pairLists)))"

definition symbolsForExchange :: "(string \<times> string list) list \<Rightarrow> ExchangeConfig \<Rightarrow> string list" where
  "symbolsForExchange pairMap ex =
     map fst (filter (\<lambda>(smb, exchangesWithPair). name ex \<in> set exchangesWithPair) pairMap)"

text \<open>\<open>prices[symbol] ??= {}; prices[symbol][exchange.name] = price\<close>\<close>

definition setPrice :: "PricesBySymbol \<Rightarrow> string \<Rightarrow> string \<Rightarrow> jsnum \<Rightarrow> PricesBySymbol" where
  "setPrice prices smb ex p =
     (case map_of prices smb of
        None \<Rightarrow> AList.update smb [(ex, p)] prices
      | Some byExchange \<Rightarrow> AList.update smb (AList.update ex p byExchange) prices)"

text \<open>
  The callbacks of \<open>collectPrices\<close> write into one object; they are run here in the order
  of \<open>exchanges\<close>, and a rejected \<open>getPrices\<close> rejects the \<open>Promise.all\<close>.
\<close>

fun collectPricesLoop :: "ExchangeConfig list \<Rightarrow> (string \<times> string list) list \<Rightarrow> PricesBySymbol
    \<Rightarrow> error + PricesBySymbol" where
  "collectPricesLoop [] pairMap prices = Inr prices"
| "collectPricesLoop (ex # rest) pairMap prices =
     (let symbols = symbolsForExchange pairMap ex
      in if symbols = [] then collectPricesLoop rest pairMap prices
         else case getPrices ex symbols of
                Inl e \<Rightarrow> Inl e
              | Inr exchangePrices \<Rightarrow>
                  collectPricesLoop rest pairMap
                    (foldl (\<lambda>acc (smb, p). setPrice acc smb (name ex) p) prices exchangePrices))"

definition collectPrices :: "ExchangeConfig list \<Rightarrow> (string \<times> string list) list \<Rightarrow> error + PricesBySymbol" where
  "collectPrices exs pairMap = collectPricesLoop exs pairMap []"

section \<open>The Spread Detector\<close>

datatype side = BuySide | SellSide

definition buildLeg :: "ExchangeFees option \<Rightarrow> string \<Rightarrow> jsnum \<Rightarrow> side \<Rightarrow> OpportunityLeg" where
  "buildLeg fs ex p sd =
     (let totalFeePercent =
            js_add (case fs of None \<Rightarrow> Fin 0 | Some f \<Rightarrow> takerFeePercent f)
                   (case fs of None \<Rightarrow> Fin 0
                    | Some f \<Rightarrow> (case transferFeePercent f of None \<Rightarrow> Fin 0 | Some t \<Rightarrow> t));
          multiplier = (if sd = BuySide then js_add (Fin 1) (js_div totalFeePercent (Fin 100))
                        else js_sub (Fin 1) (js_div totalFeePercent (Fin 100)));
          effective = js_mul p multiplier
      in \<lparr>exchange = ex, price = p, effectivePrice = effective, feePercentApplied = totalFeePercent\<rparr>)"

text \<open>The two callbacks of \<open>reduce\<close>.\<close>

definition pickBuy :: "OpportunityLeg \<Rightarrow> OpportunityLeg \<Rightarrow> OpportunityLeg" where
  "pickBuy best nxt = (if js_lt (effectivePrice nxt) (effectivePrice best) then nxt else best)"

definition pickSell :: "OpportunityLeg \<Rightarrow> OpportunityLeg \<Rightarrow> OpportunityLeg" where
  "pickSell best nxt = (if js_gt (effectivePrice nxt) (effectivePrice best) then nxt else best)"

text \<open>\<open>reduce\<close> without an initial value starts from the first element; it is applied
  to arrays of at least two elements only.\<close>

fun reduce :: "('a \<Rightarrow> 'a \<Rightarrow> 'a) \<Rightarrow> 'a \<Rightarrow> 'a list \<Rightarrow> 'a" where
  "reduce f x xs = foldl f x xs"

definition feesOf :: "ExchangeConfig list \<Rightarrow> string \<Rightarrow> ExchangeFees option" where
  "feesOf exs ex = map_option fees (exchangeLookup exs ex)"

definition netDiffOf :: "OpportunityLeg \<Rightarrow> OpportunityLeg \<Rightarrow> jsnum" where
  "netDiffOf bestBuy bestSell =
     js_mul (js_div (js_sub (effectivePrice bestSell) (effectivePrice bestBuy)) (effectivePrice bestBuy))
            (Fin 100)"

text \<open>The body of the \<open>map\<close> callback of \<open>findArbitrage\<close>; \<open>None\<close> is its \<open>null\<close>.\<close>

definition candidateFor :: "ExchangeConfig list \<Rightarrow> jsnum \<Rightarrow> string \<times> PriceByExchange
    \<Rightarrow> ArbitrageOpportunity option" where
  "candidateFor exs minDiffPercent entry =
     (case entry of (smb, exchangePrices) \<Rightarrow>
        (case exchangePrices of
           e1 # e2 # es \<Rightarrow>
             (let rawPrices = map snd exchangePrices;
                  mn = Math_min rawPrices;
                  mx = Math_max rawPrices;
                  grossDiff = js_mul (js_div (js_sub mx mn) mn) (Fin 100);
                  buyLeg = (\<lambda>(ex, p). buildLeg (feesOf exs ex) ex p BuySide);
                  sellLeg = (\<lambda>(ex, p). buildLeg (feesOf exs ex) ex p SellSide);
                  bestBuy = reduce pickBuy (buyLeg e1) (map buyLeg (e2 # es));
                  bestSell = reduce pickSell (sellLeg e1) (map sellLeg (e2 # es));
                  nd = netDiffOf bestBuy bestSell
              in if js_lt nd minDiffPercent then None
                 else Some \<lparr>symbol = smb, minPrice = mn, maxPrice = mx,
                        diff = toFixedNumber 2 grossDiff, netDiff = toFixedNumber 2 nd,
                        buy = bestBuy, sell = bestSell, exchanges = exchangePrices,
                        tradeAmountUsd = None, realProfitUsd = None, validation = None\<rparr>)
         | _ \<Rightarrow> None))"

definition findArbitrage :: "ExchangeConfig list \<Rightarrow> PricesBySymbol \<Rightarrow> jsnum \<Rightarrow> ArbitrageOpportunity list" where
  "findArbitrage exs prices minDiffPercent = List.map_filter (candidateFor exs minDiffPercent) prices"

section \<open>Transferability\<close>

definition networksOf :: "CurrencyInfo option \<Rightarrow> CurrencyNetworkInfo list" where
  "networksOf info =
     (case info of None \<Rightarrow> []
      | Some i \<Rightarrow> (case networks i of None \<Rightarrow> [] | Some ns \<Rightarrow> ns))"

definition validateTransferabilityFromCache ::
    "Currencies option \<Rightarrow> Currencies option \<Rightarrow> ExchangeConfig \<Rightarrow> ExchangeConfig \<Rightarrow> string
     \<Rightarrow> TransferValidation" where
  "validateTransferabilityFromCache buyCurrencies sellCurrencies buyEx sellEx currency =
     (case buyCurrencies of
        None \<Rightarrow> \<lparr>tStatus = Unavailable, tNetwork = None,
                 tReason = Some (FetchCurrenciesNotAvailable (name buyEx))\<rparr>
      | Some bc \<Rightarrow>
     (case sellCurrencies of
        None \<Rightarrow> \<lparr>tStatus = Unavailable, tNetwork = None,
                 tReason = Some (FetchCurrenciesNotAvailable (name sellEx))\<rparr>
      | Some sc \<Rightarrow>
          (let buyInfo = bc (toUpperCase currency);
               sellInfo = sc (toUpperCase currency)
           in if networksOf buyInfo = [] \<or> networksOf sellInfo = []
              then \<lparr>tStatus = Unknown, tNetwork = None, tReason = Some CurrencyNetworksMissing\<rparr>
              else
                let buyWithdraw = fromEntries (map (\<lambda>n. (toUpperCase (network n), n))
                      (filter (\<lambda>n. withdrawEnabled n = Some True) (networksOf buyInfo)));
                    sellDeposit = fromEntries (map (\<lambda>n. (toUpperCase (network n), n))
                      (filter (\<lambda>n. depositEnabled n = Some True) (networksOf sellInfo)))
                in case find (mapHas sellDeposit) (mapKeys buyWithdraw) of
                     Some net \<Rightarrow> \<lparr>tStatus = Ok, tNetwork = Some net, tReason = None\<rparr>
                   | None \<Rightarrow> \<lparr>tStatus = Blocked, tNetwork = None, tReason = Some NoCommonNetwork\<rparr>)))"

section \<open>The Execution Validator\<close>

definition buySlippagePercent :: "jsnum \<Rightarrow> jsnum \<Rightarrow> jsnum" where
  "buySlippagePercent executable best = js_mul (js_div (js_sub executable best) best) (Fin 100)"

definition sellSlippagePercent :: "jsnum \<Rightarrow> jsnum \<Rightarrow> jsnum" where
  "sellSlippagePercent best executable = js_mul (js_div (js_sub best executable) best) (Fin 100)"

definition buildLegValidation :: "OpportunityLegValidation \<Rightarrow> OpportunityLegValidation option" where
  "buildLegValidation inp =
     (if bestPrice inp = None \<and> valExecutablePrice inp = None \<and> slippagePercent inp = None
         \<and> volume24hQuote inp = None
      then None else Some inp)"

definition buildLegValidationOptional ::
    "OpportunityLegValidation option \<Rightarrow> jsnum option \<Rightarrow> OpportunityLegValidation option" where
  "buildLegValidationOptional partial vol =
     buildLegValidation
       \<lparr>bestPrice = (case partial of None \<Rightarrow> None | Some p \<Rightarrow> bestPrice p),
        valExecutablePrice = (case partial of None \<Rightarrow> None | Some p \<Rightarrow> valExecutablePrice p),
        slippagePercent = (case partial of None \<Rightarrow> None | Some p \<Rightarrow> slippagePercent p),
        volume24hQuote = vol\<rparr>"

definition buildLegValidationRequired ::
    "jsnum \<Rightarrow> jsnum \<Rightarrow> jsnum \<Rightarrow> jsnum option \<Rightarrow> OpportunityLegValidation" where
  "buildLegValidationRequired best executable slippage vol =
     \<lparr>bestPrice = Some best, valExecutablePrice = Some executable,
      slippagePercent = Some slippage, volume24hQuote = vol\<rparr>"

text \<open>The object literal \<open>{ bestPrice, executablePrice, slippagePercent }\<close> passed to
  \<open>attachValidation\<close>.\<close>

definition legPartial :: "jsnum \<Rightarrow> jsnum \<Rightarrow> jsnum \<Rightarrow> OpportunityLegValidation" where
  "legPartial best executable slippage =
     \<lparr>bestPrice = Some best, valExecutablePrice = Some executable,
      slippagePercent = Some slippage, volume24hQuote = None\<rparr>"

definition attachValidation ::
    "Env \<Rightarrow> ArbitrageOpportunity \<Rightarrow> validation_status \<Rightarrow> reject_reason list
     \<Rightarrow> jsnum option \<Rightarrow> jsnum option
     \<Rightarrow> OpportunityLegValidation option \<Rightarrow> OpportunityLegValidation option
     \<Rightarrow> TransferValidation option \<Rightarrow> ArbitrageOpportunity" where
  "attachValidation env opp st rs buyVol sellVol buyP sellP tr =
     opp\<lparr>tradeAmountUsd := Some (DEFAULT_TRADE_AMOUNT env),
         validation := Some \<lparr>status = st, reasons = Some rs,
                              valBuy = buildLegValidationOptional buyP buyVol,
                              valSell = buildLegValidationOptional sellP sellVol,
                              transfer = tr\<rparr>\<rparr>"

definition safeOrderBook :: "ExchangeConfig \<Rightarrow> string \<Rightarrow> OrderBook option" where
  "safeOrderBook ex smb =
     (case getOrderBook ex of
        None \<Rightarrow> None
      | Some f \<Rightarrow> (case f smb of Inl e \<Rightarrow> None | Inr book \<Rightarrow> book))"

definition addSymbol :: "(string \<times> string list) list \<Rightarrow> string \<Rightarrow> string \<Rightarrow> (string \<times> string list) list" where
  "addSymbol m exchangeName smb =
     (case map_of m exchangeName of
        Some st \<Rightarrow> AList.update exchangeName (if smb \<in> set st then st else st @ [smb]) m
      | None \<Rightarrow> AList.update exchangeName [smb] m)"

definition symbolsByExchange :: "ExchangeConfig list \<Rightarrow> ArbitrageOpportunity list \<Rightarrow> (string \<times> string list) list" where
  "symbolsByExchange exs opps =
     foldl (\<lambda>m opp.
        let m1 = (case exchangeLookup exs (exchange (buy opp)) of
                    None \<Rightarrow> m
                  | Some b \<Rightarrow> if getTickers24h b \<noteq> None then addSymbol m (name b) (symbol opp) else m)
        in (case exchangeLookup exs (exchange (sell opp)) of
              None \<Rightarrow> m1
            | Some sl \<Rightarrow> if getTickers24h sl \<noteq> None then addSymbol m1 (name sl) (symbol opp) else m1))
       [] opps"

text \<open>The two scan-scoped caches, as the maps they are once the pre-fetch has settled.\<close>

definition tickersCache :: "ExchangeConfig list \<Rightarrow> ArbitrageOpportunity list
    \<Rightarrow> string \<rightharpoonup> (string \<rightharpoonup> Ticker24h)" where
  "tickersCache exs opps =
     map_of (List.map_filter
       (\<lambda>(exchangeName, symbols).
          case exchangeLookup exs exchangeName of
            None \<Rightarrow> None
          | Some ex \<Rightarrow>
              (case getTickers24h ex of
                 None \<Rightarrow> None
               | Some f \<Rightarrow> Some (exchangeName,
                     (case f symbols of Inl e \<Rightarrow> Map.empty | Inr tickers \<Rightarrow> tickers))))
       (symbolsByExchange exs opps))"

definition exchangesNeedingCurrencies :: "ArbitrageOpportunity list \<Rightarrow> string list" where
  "exchangesNeedingCurrencies opps =
     foldl (\<lambda>st nm. if nm \<in> set st then st else st @ [nm]) []
       (concat (map (\<lambda>opp. [exchange (buy opp), exchange (sell opp)]) opps))"

definition currenciesCache :: "ExchangeConfig list \<Rightarrow> ArbitrageOpportunity list
    \<Rightarrow> string \<rightharpoonup> Currencies option" where
  "currenciesCache exs opps =
     map_of (List.map_filter
       (\<lambda>nm. case exchangeLookup exs nm of
            None \<Rightarrow> None
          | Some ex \<Rightarrow>
              (case getCurrencies ex of
                 None \<Rightarrow> None
               | Some r \<Rightarrow> Some (nm, (case r of Inl e \<Rightarrow> None | Inr data \<Rightarrow> data))))
       (exchangesNeedingCurrencies opps))"

text \<open>\<open>tickersCache.get(ex.name)?.[opp.symbol]?.quoteVolume24h\<close>\<close>

definition quoteVolumeOf :: "(string \<rightharpoonup> (string \<rightharpoonup> Ticker24h)) \<Rightarrow> string \<Rightarrow> string \<Rightarrow> jsnum option" where
  "quoteVolumeOf cache nm smb =
     (case cache nm of
        None \<Rightarrow> None
      | Some tickers \<Rightarrow> (case tickers smb of None \<Rightarrow> None | Some t \<Rightarrow> quoteVolume24h t))"

text \<open>\<open>currenciesCache.get(ex.name)\<close>, with \<open>undefined\<close> and \<open>null\<close> both \<open>None\<close>.\<close>

definition cachedCurrencies :: "(string \<rightharpoonup> Currencies option) \<Rightarrow> string \<Rightarrow> Currencies option" where
  "cachedCurrencies cache nm = (case cache nm of None \<Rightarrow> None | Some v \<Rightarrow> v)"

text \<open>\<open>book.asks[0]?.[0]\<close>\<close>

definition firstPrice :: "OrderBookLevel list \<Rightarrow> jsnum option" where
  "firstPrice levels = (case levels of [] \<Rightarrow> None | l # rest \<Rightarrow> Some (fst l))"

text \<open>
  The callback of \<open>opportunities.map\<close> in \<open>validateOpportunities\<close>.  The first component
  of the result lists the calls of \<open>safeOrderBook\<close> that were made, as
  \<open>(venue, symbol)\<close>; the second is the returned candidate, \<open>None\<close> for \<open>null\<close>.
\<close>

definition validateOpportunity ::
    "ExchangeConfig list \<Rightarrow> Env \<Rightarrow> (string \<rightharpoonup> (string \<rightharpoonup> Ticker24h))
     \<Rightarrow> (string \<rightharpoonup> Currencies option) \<Rightarrow> ArbitrageOpportunity
     \<Rightarrow> (string \<times> string) list \<times> ArbitrageOpportunity option" where
  "validateOpportunity exs env tickers currencies opp =
     (case exchangeLookup exs (exchange (buy opp)) of None \<Rightarrow> ([], None) | Some buyEx \<Rightarrow>
      case exchangeLookup exs (exchange (sell opp)) of None \<Rightarrow> ([], None) | Some sellEx \<Rightarrow>
      let buyVol = quoteVolumeOf tickers (name buyEx) (symbol opp);
          sellVol = quoteVolumeOf tickers (name sellEx) (symbol opp);
          reasons1 =
            (if buyVol = None then [BuyVolumeUnknown (name buyEx)] else []) @
            (if sellVol = None then [SellVolumeUnknown (name sellEx)] else []) @
            (case buyVol of None \<Rightarrow> []
             | Some v \<Rightarrow> if js_lt v (MIN_24H_VOLUME env) then [BuyVolumeLow v] else []) @
            (case sellVol of None \<Rightarrow> []
             | Some v \<Rightarrow> if js_lt v (MIN_24H_VOLUME env) then [SellVolumeLow v] else []) @
            (if getOrderBook buyEx = None then [OrderBookUnsupported (name buyEx)] else []) @
            (if getOrderBook sellEx = None then [OrderBookUnsupported (name sellEx)] else [])
      in if reasons1 \<noteq> []
         then ([], Some (attachValidation env opp Rejected reasons1 buyVol sellVol None None None))
         else
      case safeOrderBook buyEx (symbol opp) of
        None \<Rightarrow> ([(name buyEx, symbol opp)],
                 Some (attachValidation env opp Rejected [BuyBookUnavailable (name buyEx)]
                         buyVol sellVol None None None))
      | Some buyBook \<Rightarrow>
      let fetches = [(name buyEx, symbol opp), (name sellEx, symbol opp)] in
      case safeOrderBook sellEx (symbol opp) of
        None \<Rightarrow> (fetches,
                 Some (attachValidation env opp Rejected [SellBookUnavailable (name sellEx)]
                         buyVol sellVol None None None))
      | Some sellBook \<Rightarrow>
      let bestAsk = firstPrice (asks buyBook);
          bestBid = firstPrice (bids sellBook)
      in
      case (case bestAsk of None \<Rightarrow> None | Some p \<Rightarrow> if isFinite p then Some p else None) of
        None \<Rightarrow> (fetches,
                 Some (attachValidation env opp Rejected [BestAskMissing (name buyEx)]
                         buyVol sellVol None None None))
      | Some bestAskPrice \<Rightarrow>
      case (case bestBid of None \<Rightarrow> None | Some p \<Rightarrow> if isFinite p then Some p else None) of
        None \<Rightarrow> (fetches,
                 Some (attachValidation env opp Rejected [BestBidMissing (name sellEx)]
                         buyVol sellVol None None None))
      | Some bestBidPrice \<Rightarrow>
      case vwapBuyForQuoteAmount buyBook (DEFAULT_TRADE_AMOUNT env) of
        None \<Rightarrow> (fetches,
                 Some (attachValidation env opp Rejected
                         [InsufficientBuyDepth (DEFAULT_TRADE_AMOUNT env) (name buyEx)]
                         buyVol sellVol None None None))
      | Some buyFill \<Rightarrow>
      case vwapSellForBaseAmount sellBook (baseAmount buyFill) of
        None \<Rightarrow> (fetches,
                 Some (attachValidation env opp Rejected [InsufficientSellDepth (name sellEx)]
                         buyVol sellVol None None None))
      | Some sellFill \<Rightarrow>
      let buySlippage = buySlippagePercent (executablePrice buyFill) bestAskPrice;
          sellSlippage = sellSlippagePercent bestBidPrice (executablePrice sellFill);
          reasons2 = reasons1 @
            (if js_gt buySlippage (MAX_SLIPPAGE_PERCENT env) then [BuySlippageHigh buySlippage] else []) @
            (if js_gt sellSlippage (MAX_SLIPPAGE_PERCENT env) then [SellSlippageHigh sellSlippage] else []);
          buyP = Some (legPartial bestAskPrice (executablePrice buyFill) buySlippage);
          sellP = Some (legPartial bestBidPrice (executablePrice sellFill) sellSlippage)
      in if reasons2 \<noteq> []
         then (fetches, Some (attachValidation env opp Rejected reasons2 buyVol sellVol buyP sellP None))
         else
      let bse = baseFromSymbolUsdt (symbol opp);
          tr = validateTransferabilityFromCache
                 (cachedCurrencies currencies (name buyEx)) (cachedCurrencies currencies (name sellEx))
                 buyEx sellEx bse
      in if tStatus tr = Unknown \<or> tStatus tr = Blocked
         then (fetches,
               Some (attachValidation env opp Rejected (reasons2 @ [TransferCheck (tStatus tr) (tReason tr)])
                       buyVol sellVol buyP sellP (Some tr)))
         else
      let buyFeePct = feePercentApplied (buy opp);
          sellFeePct = feePercentApplied (sell opp);
          costWithFees = js_mul (DEFAULT_TRADE_AMOUNT env) (js_add (Fin 1) (js_div buyFeePct (Fin 100)));
          proceedsBeforeFees = js_mul (baseAmount sellFill) (executablePrice sellFill);
          proceedsWithFees = js_mul proceedsBeforeFees (js_sub (Fin 1) (js_div sellFeePct (Fin 100)));
          realProfit = js_sub proceedsWithFees costWithFees
      in if js_lt realProfit (MIN_REAL_PROFIT_USD env)
         then (fetches,
               Some (attachValidation env
                       (opp\<lparr>tradeAmountUsd := Some (DEFAULT_TRADE_AMOUNT env),
                            realProfitUsd := Some realProfit\<rparr>)
                       Rejected (reasons2 @ [RealProfitLow realProfit])
                       buyVol sellVol buyP sellP (Some tr)))
         else
      let nd = js_mul (js_div realProfit costWithFees) (Fin 100)
      in (fetches,
          Some (opp\<lparr>netDiff := toFixedNumber 2 nd,
                    tradeAmountUsd := Some (DEFAULT_TRADE_AMOUNT env),
                    realProfitUsd := Some (toFixedNumber 2 realProfit),
                    validation := Some \<lparr>status = Validated, reasons = None,
                      valBuy = Some (buildLegValidationRequired bestAskPrice
                                       (executablePrice buyFill) buySlippage buyVol),
                      valSell = Some (buildLegValidationRequired bestBidPrice
                                        (executablePrice sellFill) sellSlippage sellVol),
                      transfer = Some tr\<rparr>\<rparr>)))"

definition isValidated :: "ArbitrageOpportunity \<Rightarrow> bool" where
  "isValidated x = (case validation x of None \<Rightarrow> False | Some v \<Rightarrow> status v = Validated)"

text \<open>All candidates after the validation pass, rejected ones included.\<close>

definition validatedAll :: "ExchangeConfig list \<Rightarrow> Env \<Rightarrow> ArbitrageOpportunity list
    \<Rightarrow> ArbitrageOpportunity option list" where
  "validatedAll exs env opps =
     map (\<lambda>opp. snd (validateOpportunity exs env (tickersCache exs opps) (currenciesCache exs opps) opp))
       opps"

definition validateOpportunities :: "ExchangeConfig list \<Rightarrow> Env \<Rightarrow> ArbitrageOpportunity list
    \<Rightarrow> ArbitrageOpportunity list" where
  "validateOpportunities exs env opps =
     filter isValidated (List.map_filter id (validatedAll exs env opps))"

section \<open>The scan\<close>

definition getArbitrageOpportunities :: "ExchangeConfig list \<Rightarrow> Env \<Rightarrow> jsnum option
    \<Rightarrow> error + ArbitrageOpportunity list" where
  "getArbitrageOpportunities exs env minDiffPercent =
     (let threshold = (case minDiffPercent of
                         None \<Rightarrow> DEFAULT_MIN_DIFF_PERCENT env
                       | Some m \<Rightarrow> if \<not> isNaN m then m else DEFAULT_MIN_DIFF_PERCENT env)
      in case collectPairs exs of
           Inl e \<Rightarrow> Inl e
         | Inr pairMap \<Rightarrow>
             (case collectPrices exs pairMap of
                Inl e \<Rightarrow> Inl e
              | Inr prices \<Rightarrow> Inr (validateOpportunities exs env (findArbitrage exs prices threshold))))"

section \<open>Venue adapters of \<open>exchangeConfigs.ts\<close>\<close>

text \<open>
  The response of an HTTP request is \<open>Inl\<close> when \<open>client.get\<close> rejects and otherwise
  the payload, \<open>None\<close> when it is not an array.  A numeric field of a payload holds the
  value of \<open>Number(...)\<close> of the string that was received.
\<close>

definition USDT :: string where
  "USDT = ''USDT''"

definition normalizeSymbol :: "string \<Rightarrow> string \<Rightarrow> string" where
  "normalizeSymbol b q = toUpperCase (b @ q)"

definition resolveFees :: "(string \<rightharpoonup> ExchangeFees) option \<Rightarrow> string \<Rightarrow> ExchangeFees \<Rightarrow> ExchangeFees" where
  "resolveFees feeOverrides nm defaults =
     (let override = (case feeOverrides of None \<Rightarrow> None | Some m \<Rightarrow> m nm)
      in \<lparr>takerFeePercent =
             (case override of None \<Rightarrow> takerFeePercent defaults | Some ov \<Rightarrow> takerFeePercent ov),
           transferFeePercent =
             Some (case (case override of None \<Rightarrow> None | Some ov \<Rightarrow> transferFeePercent ov) of
                     Some t \<Rightarrow> t
                   | None \<Rightarrow> (case transferFeePercent defaults of Some t \<Rightarrow> t | None \<Rightarrow> Fin 0))\<rparr>)"

record BinanceSymbol =
  bsStatus :: string
  quoteAsset :: string
  baseAsset :: string

record BinancePrice =
  bpSymbol :: string
  bpPrice :: jsnum

record Binance24hTicker =
  btSymbol :: string
  btLastPrice :: jsnum
  btQuoteVolume :: jsnum

record BinanceDepthResponse =
  depthBids :: "(jsnum \<times> jsnum) list option"
  depthAsks :: "(jsnum \<times> jsnum) list option"

record BinanceApi =
  exchangeInfo :: "error + BinanceSymbol list option"
  tickerPrice :: "error + BinancePrice list option"
  ticker24hr :: "error + Binance24hTicker list option"
  depth :: "string \<Rightarrow> error + BinanceDepthResponse"

definition arrayOrEmpty :: "'a list option \<Rightarrow> 'a list" where
  "arrayOrEmpty d = (case d of None \<Rightarrow> [] | Some l \<Rightarrow> l)"

definition binancePairs :: "BinanceSymbol list option \<Rightarrow> Pair list" where
  "binancePairs d =
     map (\<lambda>s. \<lparr>base = baseAsset s, quote = quoteAsset s,
               pairSymbol = normalizeSymbol (baseAsset s) (quoteAsset s)\<rparr>)
       (filter (\<lambda>s. bsStatus s = ''TRADING'' \<and> quoteAsset s = USDT) (arrayOrEmpty d))"

definition binancePrices :: "BinancePrice list option \<Rightarrow> string list \<Rightarrow> (string \<times> jsnum) list" where
  "binancePrices d pairs =
     fromEntries (map (\<lambda>p. (bpSymbol p, bpPrice p))
       (filter (\<lambda>p. bpSymbol p \<in> set pairs) (arrayOrEmpty d)))"

text \<open>\<open>binance.getPairs\<close> and \<open>binance.getPrices\<close> have no \<open>try\<close>: a rejected request
  rejects the call.\<close>

definition binance_getPairs :: "error + BinanceSymbol list option \<Rightarrow> error + Pair list" where
  "binance_getPairs resp = (case resp of Inl e \<Rightarrow> Inl e | Inr d \<Rightarrow> Inr (binancePairs d))"

definition binance_getPrices :: "error + BinancePrice list option \<Rightarrow> string list
    \<Rightarrow> error + (string \<times> jsnum) list" where
  "binance_getPrices resp pairs =
     (case resp of Inl e \<Rightarrow> Inl e | Inr d \<Rightarrow> Inr (binancePrices d pairs))"

definition binance_getTickers24h :: "error + Binance24hTicker list option \<Rightarrow> string list
    \<Rightarrow> error + (string \<rightharpoonup> Ticker24h)" where
  "binance_getTickers24h resp pairs =
     (case resp of
        Inl e \<Rightarrow> Inl e
      | Inr d \<Rightarrow>
          Inr (map_of (fromEntries
                 (map (\<lambda>t. (btSymbol t,
                         \<lparr>lastPrice = Some (btLastPrice t), quoteVolume24h = Some (btQuoteVolume t)\<rparr>))
                    (filter (\<lambda>t. btSymbol t \<in> set pairs) (arrayOrEmpty d))))))"

text \<open>The levels that \<open>getOrderBook\<close> keeps are finite, so the comparators
  \<open>a[0] - b[0]\<close> and \<open>b[0] - a[0]\<close> order them by the real value of the price; the sort
  is stable.\<close>

definition finiteValue :: "jsnum \<Rightarrow> real" where
  "finiteValue v = (case v of Fin x \<Rightarrow> x | _ \<Rightarrow> 0)"

definition keptLevel :: "jsnum \<times> jsnum \<Rightarrow> bool" where
  "keptLevel l \<longleftrightarrow> isFinite (fst l) \<and> isFinite (snd l) \<and> js_gt (fst l) (Fin 0) \<and> js_gt (snd l) (Fin 0)"

definition binance_getOrderBook :: "error + BinanceDepthResponse \<Rightarrow> error + OrderBook option" where
  "binance_getOrderBook resp =
     (case resp of
        Inl e \<Rightarrow> Inl e
      | Inr d \<Rightarrow>
          Inr (Some \<lparr>bids = sort_key (\<lambda>l. - finiteValue (fst l)) (filter keptLevel (arrayOrEmpty (depthBids d))),
                     asks = sort_key (\<lambda>l. finiteValue (fst l)) (filter keptLevel (arrayOrEmpty (depthAsks d)))\<rparr>))"

definition binance :: "(string \<rightharpoonup> ExchangeFees) option \<Rightarrow> BinanceApi \<Rightarrow> ExchangeConfig" where
  "binance feeOverrides api =
     \<lparr>name = ''binance'',
      fees = resolveFees feeOverrides ''binance'' \<lparr>takerFeePercent = Fin (1 / 10), transferFeePercent = None\<rparr>,
      getPairs = binance_getPairs (exchangeInfo api),
      getPrices = binance_getPrices (tickerPrice api),
      getTickers24h = Some (binance_getTickers24h (ticker24hr api)),
      getOrderBook = Some (\<lambda>smb. binance_getOrderBook (depth api smb)),
      getCurrencies = None\<rparr>"

text \<open>\<open>binanceUs\<close> wraps both calls in \<open>try\<close>/\<open>catch\<close> and has no optional capability.\<close>

definition binanceUs_getPairs :: "error + BinanceSymbol list option \<Rightarrow> error + Pair list" where
  "binanceUs_getPairs resp = (case resp of Inl e \<Rightarrow> Inr [] | Inr d \<Rightarrow> Inr (binancePairs d))"

definition binanceUs_getPrices :: "error + BinancePrice list option \<Rightarrow> string list
    \<Rightarrow> error + (string \<times> jsnum) list" where
  "binanceUs_getPrices resp pairs =
     (case resp of Inl e \<Rightarrow> Inr [] | Inr d \<Rightarrow> Inr (binancePrices d pairs))"

definition binanceUs :: "(string \<rightharpoonup> ExchangeFees) option \<Rightarrow> error + BinanceSymbol list option
    \<Rightarrow> error + BinancePrice list option \<Rightarrow> ExchangeConfig" where
  "binanceUs feeOverrides infoResp priceResp =
     \<lparr>name = ''binanceus'',
      fees = resolveFees feeOverrides ''binanceus'' \<lparr>takerFeePercent = Fin (1 / 10), transferFeePercent = None\<rparr>,
      getPairs = binanceUs_getPairs infoResp,
      getPrices = binanceUs_getPrices priceResp,
      getTickers24h = None,
      getOrderBook = None,
      getCurrencies = None\<rparr>"

text \<open>\<open>mexc.getPrices\<close> keeps an entry only when its price is finite (the payload type
  \<open>MexcTicker\<close> has the fields of \<open>BinancePrice\<close>).\<close>

definition mexc_getPrices :: "error + BinancePrice list option \<Rightarrow> string list
    \<Rightarrow> error + (string \<times> jsnum) list" where
  "mexc_getPrices resp pairs =
     (case resp of
        Inl e \<Rightarrow> Inl e
      | Inr d \<Rightarrow>
          Inr (fromEntries (filter (\<lambda>(smb, p). smb \<in> set pairs \<and> isFinite p)
                 (map (\<lambda>t. (bpSymbol t, bpPrice t)) (arrayOrEmpty d)))))"

section \<open>Auxiliary definitions\<close>

text \<open>
  The levels of a book side that the loops do not skip, as pairs of reals, and the two
  loops on real states.  They are used in the proofs only: on a finite starting state the
  loops of the source compute what \<open>buyR\<close> and \<open>sellR\<close> compute
  (\<open>buyLoop_real\<close>, \<open>sellLoop_real\<close>).
\<close>

fun realLevels :: "OrderBookLevel list \<Rightarrow> (real \<times> real) list" where
  "realLevels [] = []"
| "realLevels ((Fin p, Fin a) # rest) = (if 0 < p \<and> 0 < a then (p, a) # realLevels rest else realLevels rest)"
| "realLevels (_ # rest) = realLevels rest"

fun buyR :: "(real \<times> real) list \<Rightarrow> real \<times> real \<times> real \<Rightarrow> real \<times> real \<times> real" where
  "buyR [] st = st"
| "buyR ((p, a) # rest) (r, b, s) =
     (let t = min r (p * a) in
      if r - t \<le> 1 / 10 ^ 9 then (r - t, b + t / p, s + t)
      else buyR rest (r - t, b + t / p, s + t))"

fun sellR :: "(real \<times> real) list \<Rightarrow> real \<times> real \<times> real \<Rightarrow> real \<times> real \<times> real" where
  "sellR [] st = st"
| "sellR ((p, a) # rest) (r, b, s) =
     (let t = min r a in
      if r - t \<le> 1 / 10 ^ 12 then (r - t, b + t, s + t * p)
      else sellR rest (r - t, b + t, s + t * p))"

definition finTriple :: "real \<times> real \<times> real \<Rightarrow> jsnum \<times> jsnum \<times> jsnum" where
  "finTriple st = (case st of (r, b, s) \<Rightarrow> (Fin r, Fin b, Fin s))"

definition posLevels :: "(real \<times> real) list \<Rightarrow> bool" where
  "posLevels ls \<longleftrightarrow> (\<forall>(p, a) \<in> set ls. 0 < p \<and> 0 < a)"

definition ascPrices :: "(real \<times> real) list \<Rightarrow> bool" where
  "ascPrices ls = sorted_wrt (\<lambda>x y. fst x \<le> fst y) ls"


text \<open>
  The depth of a book side over the levels that are not skipped, and the greedy fill that
  the specification describes: spending \<open>x\<close> quote units (selling \<open>x\<close> base units)
  level after level, with no tolerance.
\<close>

fun depthQuote :: "(real \<times> real) list \<Rightarrow> real" where
  "depthQuote [] = 0"
| "depthQuote ((p, a) # rest) = p * a + depthQuote rest"

fun depthBase :: "(real \<times> real) list \<Rightarrow> real" where
  "depthBase [] = 0"
| "depthBase ((p, a) # rest) = a + depthBase rest"

fun greedyBase :: "(real \<times> real) list \<Rightarrow> real \<Rightarrow> real" where
  "greedyBase [] x = 0"
| "greedyBase ((p, a) # rest) x = (if x \<le> p * a then x / p else a + greedyBase rest (x - p * a))"

fun greedyQuote :: "(real \<times> real) list \<Rightarrow> real \<Rightarrow> real" where
  "greedyQuote [] x = 0"
| "greedyQuote ((p, a) # rest) x = (if x \<le> a then x * p else a * p + greedyQuote rest (x - a))"

definition askDepthQuote :: "OrderBook \<Rightarrow> real" where
  "askDepthQuote book = depthQuote (realLevels (asks book))"

definition bidDepthBase :: "OrderBook \<Rightarrow> real" where
  "bidDepthBase book = depthBase (realLevels (bids book))"

definition realProfitOf :: "Env \<Rightarrow> ArbitrageOpportunity \<Rightarrow> Fill \<Rightarrow> jsnum" where
  "realProfitOf env opp sellFill =
     js_sub (js_mul (js_mul (baseAmount sellFill) (executablePrice sellFill))
               (js_sub (Fin 1) (js_div (feePercentApplied (sell opp)) (Fin 100))))
            (js_mul (DEFAULT_TRADE_AMOUNT env)
               (js_add (Fin 1) (js_div (feePercentApplied (buy opp)) (Fin 100))))"

definition exampleVenue :: "string \<Rightarrow> real \<Rightarrow> OrderBook \<Rightarrow> jsnum option
    \<Rightarrow> (error + Currencies option) option \<Rightarrow> ExchangeConfig" where
  "exampleVenue nm p book vol cur =
     \<lparr>name = nm,
      fees = \<lparr>takerFeePercent = Fin (1 / 10), transferFeePercent = Some (Fin 0)\<rparr>,
      getPairs = Inr [\<lparr>base = ''BTC'', quote = ''USDT'', pairSymbol = ''BTCUSDT''\<rparr>],
      getPrices = (\<lambda>symbols. Inr [(''BTCUSDT'', Fin p)]),
      getTickers24h = Some (\<lambda>symbols. Inr [''BTCUSDT'' \<mapsto> \<lparr>lastPrice = Some (Fin p), quoteVolume24h = vol\<rparr>]),
      getOrderBook = Some (\<lambda>smb. Inr (Some book)),
      getCurrencies = cur\<rparr>"

definition alphaBook :: OrderBook where
  "alphaBook = \<lparr>bids = [(Fin 99, Fin 1000)], asks = [(Fin 100, Fin 1000)]\<rparr>"

definition betaBook :: OrderBook where
  "betaBook = \<lparr>bids = [(Fin 120, Fin 1000)], asks = [(Fin 121, Fin 1000)]\<rparr>"

definition exampleExchanges :: "(error + Currencies option) option \<Rightarrow> (error + Currencies option) option
   \<Rightarrow> jsnum option \<Rightarrow> ExchangeConfig list" where
  "exampleExchanges curA curB volA =
     [exampleVenue ''alpha'' 100 alphaBook volA curA,
      exampleVenue ''beta'' 120 betaBook (Some (Fin 1000000)) curB]"

definition exampleCandidate :: ArbitrageOpportunity where
  "exampleCandidate =
     \<lparr>symbol = ''BTCUSDT'', minPrice = Fin 100, maxPrice = Fin 120,
      diff = Fin 20, netDiff = Fin (494 / 25),
      buy = \<lparr>exchange = ''alpha'', price = Fin 100, effectivePrice = Fin (1001 / 10),
              feePercentApplied = Fin (1 / 10)\<rparr>,
      sell = \<lparr>exchange = ''beta'', price = Fin 120, effectivePrice = Fin (2997 / 25),
               feePercentApplied = Fin (1 / 10)\<rparr>,
      exchanges = [(''alpha'', Fin 100), (''beta'', Fin 120)],
      tradeAmountUsd = None, realProfitUsd = None, validation = None\<rparr>"

definition exampleValidated :: ArbitrageOpportunity where
  "exampleValidated =
     exampleCandidate\<lparr>netDiff := Fin (494 / 25), tradeAmountUsd := Some (Fin 100),
       realProfitUsd := Some (Fin (989 / 50)),
       validation := Some \<lparr>status = Validated, reasons = None,
         valBuy = Some \<lparr>bestPrice = Some (Fin 100), valExecutablePrice = Some (Fin 100),
                        slippagePercent = Some (Fin 0), volume24hQuote = Some (Fin 1000000)\<rparr>,
         valSell = Some \<lparr>bestPrice = Some (Fin 120), valExecutablePrice = Some (Fin 120),
                         slippagePercent = Some (Fin 0), volume24hQuote = Some (Fin 1000000)\<rparr>,
         transfer = Some \<lparr>tStatus = Unavailable, tNetwork = None,
                           tReason = Some (FetchCurrenciesNotAvailable ''alpha'')\<rparr>\<rparr>\<rparr>"

definition validateTail ::
    "Env \<Rightarrow> (string \<rightharpoonup> Currencies option) \<Rightarrow> ArbitrageOpportunity
     \<Rightarrow> ExchangeConfig \<Rightarrow> ExchangeConfig \<Rightarrow> jsnum option \<Rightarrow> jsnum option
     \<Rightarrow> reject_reason list \<Rightarrow> jsnum \<Rightarrow> jsnum \<Rightarrow> Fill \<Rightarrow> Fill \<Rightarrow> ArbitrageOpportunity" where
  "validateTail env currencies opp buyEx sellEx buyVol sellVol reasons1 bestAskPrice bestBidPrice
      buyFill sellFill =
     (let buySlippage = buySlippagePercent (executablePrice buyFill) bestAskPrice;
          sellSlippage = sellSlippagePercent bestBidPrice (executablePrice sellFill);
          reasons2 = reasons1 @
            (if js_gt buySlippage (MAX_SLIPPAGE_PERCENT env) then [BuySlippageHigh buySlippage] else []) @
            (if js_gt sellSlippage (MAX_SLIPPAGE_PERCENT env) then [SellSlippageHigh sellSlippage] else []);
          buyP = Some (legPartial bestAskPrice (executablePrice buyFill) buySlippage);
          sellP = Some (legPartial bestBidPrice (executablePrice sellFill) sellSlippage)
      in if reasons2 \<noteq> []
         then attachValidation env opp Rejected reasons2 buyVol sellVol buyP sellP None
         else
      let bse = baseFromSymbolUsdt (symbol opp);
          tr = validateTransferabilityFromCache
                 (cachedCurrencies currencies (name buyEx)) (cachedCurrencies currencies (name sellEx))
                 buyEx sellEx bse
      in if tStatus tr = Unknown \<or> tStatus tr = Blocked
         then attachValidation env opp Rejected (reasons2 @ [TransferCheck (tStatus tr) (tReason tr)])
                       buyVol sellVol buyP sellP (Some tr)
         else
      let buyFeePct = feePercentApplied (buy opp);
          sellFeePct = feePercentApplied (sell opp);
          costWithFees = js_mul (DEFAULT_TRADE_AMOUNT env) (js_add (Fin 1) (js_div buyFeePct (Fin 100)));
          proceedsBeforeFees = js_mul (baseAmount sellFill) (executablePrice sellFill);
          proceedsWithFees = js_mul proceedsBeforeFees (js_sub (Fin 1) (js_div sellFeePct (Fin 100)));
          realProfit = js_sub proceedsWithFees costWithFees
      in if js_lt realProfit (MIN_REAL_PROFIT_USD env)
         then attachValidation env
                       (opp\<lparr>tradeAmountUsd := Some (DEFAULT_TRADE_AMOUNT env),
                            realProfitUsd := Some realProfit\<rparr>)
                       Rejected (reasons2 @ [RealProfitLow realProfit])
                       buyVol sellVol buyP sellP (Some tr)
         else
      let nd = js_mul (js_div realProfit costWithFees) (Fin 100)
      in opp\<lparr>netDiff := toFixedNumber 2 nd,
                    tradeAmountUsd := Some (DEFAULT_TRADE_AMOUNT env),
                    realProfitUsd := Some (toFixedNumber 2 realProfit),
                    validation := Some \<lparr>status = Validated, reasons = None,
                      valBuy = Some (buildLegValidationRequired bestAskPrice
                                       (executablePrice buyFill) buySlippage buyVol),
                      valSell = Some (buildLegValidationRequired bestBidPrice
                                        (executablePrice sellFill) sellSlippage sellVol),
                      transfer = Some tr\<rparr>\<rparr>)"

definition liquidityReasons :: "Env \<Rightarrow> ExchangeConfig \<Rightarrow> ExchangeConfig \<Rightarrow> jsnum option \<Rightarrow> jsnum option
    \<Rightarrow> reject_reason list" where
  "liquidityReasons env buyEx sellEx buyVol sellVol =
            (if buyVol = None then [BuyVolumeUnknown (name buyEx)] else []) @
            (if sellVol = None then [SellVolumeUnknown (name sellEx)] else []) @
            (case buyVol of None \<Rightarrow> []
             | Some v \<Rightarrow> if js_lt v (MIN_24H_VOLUME env) then [BuyVolumeLow v] else []) @
            (case sellVol of None \<Rightarrow> []
             | Some v \<Rightarrow> if js_lt v (MIN_24H_VOLUME env) then [SellVolumeLow v] else [])"

definition unsupportedReasons :: "ExchangeConfig \<Rightarrow> ExchangeConfig \<Rightarrow> reject_reason list" where
  "unsupportedReasons buyEx sellEx =
            (if getOrderBook buyEx = None then [OrderBookUnsupported (name buyEx)] else []) @
            (if getOrderBook sellEx = None then [OrderBookUnsupported (name sellEx)] else [])"

definition finitePrice :: "jsnum option \<Rightarrow> jsnum option" where
  "finitePrice v = (case v of None \<Rightarrow> None | Some p \<Rightarrow> if isFinite p then Some p else None)"

definition currenciesUnavailable :: "ExchangeConfig \<Rightarrow> bool" where
  "currenciesUnavailable ex \<longleftrightarrow>
     (case getCurrencies ex of
        None \<Rightarrow> True
      | Some r \<Rightarrow> (case r of Inl e \<Rightarrow> True | Inr d \<Rightarrow> d = None))"

definition reasonsOf :: "ArbitrageOpportunity \<Rightarrow> reject_reason list" where
  "reasonsOf x =
     (case validation x of
        None \<Rightarrow> []
      | Some v \<Rightarrow> (case reasons v of None \<Rightarrow> [] | Some rs \<Rightarrow> rs))"

definition transferStatusOf :: "ArbitrageOpportunity \<Rightarrow> transfer_status option" where
  "transferStatusOf x =
     (case validation x of
        None \<Rightarrow> None
      | Some v \<Rightarrow> (case transfer v of None \<Rightarrow> None | Some t \<Rightarrow> Some (tStatus t)))"

fun reasonCheck :: "reject_reason \<Rightarrow> nat" where
  "reasonCheck (BuyVolumeUnknown n) = 1"
| "reasonCheck (SellVolumeUnknown n) = 1"
| "reasonCheck (BuyVolumeLow v) = 1"
| "reasonCheck (SellVolumeLow v) = 1"
| "reasonCheck (OrderBookUnsupported n) = 2"
| "reasonCheck (BuyBookUnavailable n) = 2"
| "reasonCheck (SellBookUnavailable n) = 2"
| "reasonCheck (BestAskMissing n) = 2"
| "reasonCheck (BestBidMissing n) = 2"
| "reasonCheck (InsufficientBuyDepth q n) = 2"
| "reasonCheck (InsufficientSellDepth n) = 2"
| "reasonCheck (BuySlippageHigh v) = 2"
| "reasonCheck (SellSlippageHigh v) = 2"
| "reasonCheck (TransferCheck st r) = 3"
| "reasonCheck (RealProfitLow v) = 4"

definition liquidityFails :: "Env \<Rightarrow> jsnum option \<Rightarrow> jsnum option \<Rightarrow> bool" where
  "liquidityFails env buyVol sellVol \<longleftrightarrow>
     (case buyVol of None \<Rightarrow> True | Some v \<Rightarrow> js_lt v (MIN_24H_VOLUME env)) \<or>
     (case sellVol of None \<Rightarrow> True | Some v \<Rightarrow> js_lt v (MIN_24H_VOLUME env))"

definition noBookExchanges :: "ExchangeConfig list" where
  "noBookExchanges =
     [(exampleVenue ''alpha'' 100 alphaBook None None)\<lparr>getOrderBook := None\<rparr>,
      exampleVenue ''beta'' 120 betaBook (Some (Fin 1000000)) None]"

definition withdrawNetworks :: "CurrencyInfo option \<Rightarrow> string set" where
  "withdrawNetworks info =
     {toUpperCase (network n) | n. n \<in> set (networksOf info) \<and> withdrawEnabled n = Some True}"

definition depositNetworks :: "CurrencyInfo option \<Rightarrow> string set" where
  "depositNetworks info =
     {toUpperCase (network n) | n. n \<in> set (networksOf info) \<and> depositEnabled n = Some True}"

definition totalFeePercentOf :: "ExchangeFees option \<Rightarrow> jsnum" where
  "totalFeePercentOf fs =
     js_add (case fs of None \<Rightarrow> Fin 0 | Some f \<Rightarrow> takerFeePercent f)
            (case fs of None \<Rightarrow> Fin 0
             | Some f \<Rightarrow> (case transferFeePercent f of None \<Rightarrow> Fin 0 | Some t \<Rightarrow> t))"

definition buyLegsOf :: "ExchangeConfig list \<Rightarrow> PriceByExchange \<Rightarrow> OpportunityLeg list" where
  "buyLegsOf exs entries = map (\<lambda>(ex, p). buildLeg (feesOf exs ex) ex p BuySide) entries"

definition sellLegsOf :: "ExchangeConfig list \<Rightarrow> PriceByExchange \<Rightarrow> OpportunityLeg list" where
  "sellLegsOf exs entries = map (\<lambda>(ex, p). buildLeg (feesOf exs ex) ex p SellSide) entries"

text \<open>The element at index \<open>i\<close> is the first one that no element beats.\<close>

definition firstBest :: "('a \<Rightarrow> 'a \<Rightarrow> bool) \<Rightarrow> 'a list \<Rightarrow> nat \<Rightarrow> bool" where
  "firstBest lt xs i \<longleftrightarrow>
     i < length xs \<and> (\<forall>j < length xs. \<not> lt (xs ! j) (xs ! i)) \<and> (\<forall>j < i. lt (xs ! i) (xs ! j))"

definition exampleCurrencies :: "string \<Rightarrow> bool \<Rightarrow> bool \<Rightarrow> Currencies" where
  "exampleCurrencies net dep wd =
     [''BTC'' \<mapsto> \<lparr>code = ''BTC'',
        networks = Some [\<lparr>network = ''bep20'', depositEnabled = Some False, withdrawEnabled = Some False\<rparr>,
                         \<lparr>network = net, depositEnabled = Some dep, withdrawEnabled = Some wd\<rparr>]\<rparr>]"

definition btcListing :: "BinanceSymbol list option" where
  "btcListing = Some [\<lparr>bsStatus = ''TRADING'', quoteAsset = ''USDT'', baseAsset = ''BTC''\<rparr>]"

text \<open>Binance answers neither request.\<close>

definition binanceDown :: BinanceApi where
  "binanceDown =
     \<lparr>exchangeInfo = Inl RequestFailed, tickerPrice = Inl RequestFailed,
      ticker24hr = Inl RequestFailed, depth = (\<lambda>smb. Inl RequestFailed)\<rparr>"

text \<open>Binance lists BTCUSDT, and the price request fails.\<close>

definition binancePricesDown :: BinanceApi where
  "binancePricesDown =
     \<lparr>exchangeInfo = Inr btcListing, tickerPrice = Inl RequestFailed,
      ticker24hr = Inl RequestFailed, depth = (\<lambda>smb. Inl RequestFailed)\<rparr>"

text \<open>Binance lists BTCUSDT and sends a price that \<open>Number\<close> turns into NaN.\<close>

definition binanceNaNPrice :: BinanceApi where
  "binanceNaNPrice =
     \<lparr>exchangeInfo = Inr btcListing,
      tickerPrice = Inr (Some [\<lparr>bpSymbol = ''BTCUSDT'', bpPrice = NaN\<rparr>]),
      ticker24hr = Inl RequestFailed, depth = (\<lambda>smb. Inl RequestFailed)\<rparr>"

text \<open>
  The data model of the prices and fees: a price is a positive finite number, a fee
  percentage a finite non-negative one.
\<close>

definition positivePrice :: "jsnum \<Rightarrow> bool" where
  "positivePrice p = (case p of Fin x \<Rightarrow> 0 < x | _ \<Rightarrow> False)"

definition nonNegative :: "jsnum \<Rightarrow> bool" where
  "nonNegative p = (case p of Fin x \<Rightarrow> 0 \<le> x | _ \<Rightarrow> False)"

definition validFees :: "ExchangeFees \<Rightarrow> bool" where
  "validFees f \<longleftrightarrow>
     nonNegative (takerFeePercent f) \<and>
     (case transferFeePercent f of None \<Rightarrow> True | Some t \<Rightarrow> nonNegative t)"

definition allPositive :: "PricesBySymbol \<Rightarrow> bool" where
  "allPositive prices \<longleftrightarrow> (\<forall>(smb, byExchange) \<in> set prices. \<forall>(ex, p) \<in> set byExchange. positivePrice p)"

text \<open>
  The threshold in effect in \<open>getArbitrageOpportunities\<close>: the request's \<open>minDiffPercent\<close>
  unless it is absent or \<open>NaN\<close>, and \<open>DEFAULT_MIN_DIFF_PERCENT\<close> otherwise.
\<close>

definition thresholdOf :: "Env \<Rightarrow> jsnum option \<Rightarrow> jsnum" where
  "thresholdOf env minDiffPercent =
     (case minDiffPercent of
        None \<Rightarrow> DEFAULT_MIN_DIFF_PERCENT env
      | Some m \<Rightarrow> if \<not> isNaN m then m else DEFAULT_MIN_DIFF_PERCENT env)"

text \<open>
  A configuration whose profit threshold has three decimals, and the opportunity that the
  two example venues yield under it.
\<close>

definition roundingEnv :: Env where
  "roundingEnv = defaultEnv\<lparr>env_MIN_REAL_PROFIT_USD := Some (Fin (19781 / 1000)),
                            env_DEFAULT_TRADE_AMOUNT := Some (Fin (10001 / 100))\<rparr>"

definition roundingValidated :: ArbitrageOpportunity where
  "roundingValidated =
     exampleCandidate\<lparr>netDiff := Fin (494 / 25), tradeAmountUsd := Some (Fin (10001 / 100)),
       realProfitUsd := Some (Fin (989 / 50)),
       validation := Some \<lparr>status = Validated, reasons = None,
         valBuy = Some \<lparr>bestPrice = Some (Fin 100), valExecutablePrice = Some (Fin 100),
                        slippagePercent = Some (Fin 0), volume24hQuote = Some (Fin 1000000)\<rparr>,
         valSell = Some \<lparr>bestPrice = Some (Fin 120), valExecutablePrice = Some (Fin 120),
                         slippagePercent = Some (Fin 0), volume24hQuote = Some (Fin 1000000)\<rparr>,
         transfer = Some \<lparr>tStatus = Unavailable, tNetwork = None,
                           tReason = Some (FetchCurrenciesNotAvailable ''alpha'')\<rparr>\<rparr>\<rparr>"

section \<open>Properties of the fill simulation\<close>

lemma skipLevel_Fin [simp]: "skipLevel (Fin p) (Fin a) \<longleftrightarrow> \<not> (0 < p \<and> 0 < a)"
  by (auto simp: skipLevel_def)

lemma skipLevel_nonfin [simp]:
  "skipLevel PInf a" "skipLevel NInf a" "skipLevel NaN a"
  "skipLevel p PInf" "skipLevel p NInf" "skipLevel p NaN"
  by (simp_all add: skipLevel_def)

lemma js_min_Fin [simp]: "js_min (Fin a) (Fin b) = Fin (min a b)"
  by (auto simp: js_min_def)

lemma js_sub_Fin [simp]: "js_sub (Fin a) (Fin b) = Fin (a - b)"
  by (simp add: js_sub_def)

lemma buyLoop_step:
  assumes "0 < p" "0 < a" "t = min r (p * a)"
  shows "buyLoop ((Fin p, Fin a) # rest) (Fin r, Fin b, Fin s) =
         (if r - t \<le> 1 / 10 ^ 9 then (Fin (r - t), Fin (b + t / p), Fin (s + t))
          else buyLoop rest (Fin (r - t), Fin (b + t / p), Fin (s + t)))"
proof -
  have m: "js_min (Fin r) (js_mul (Fin p) (Fin a)) = Fin t"
    using assms by simp
  have p0: "p \<noteq> 0" using assms by simp
  show ?thesis
    unfolding buyLoop.simps Let_def m using assms(1,2) p0
    by (simp del: js_min_Fin)
qed

lemma buyR_step:
  assumes "t = min r (p * a)"
  shows "buyR ((p, a) # rest) (r, b, s) =
         (if r - t \<le> 1 / 10 ^ 9 then (r - t, b + t / p, s + t)
          else buyR rest (r - t, b + t / p, s + t))"
  unfolding buyR.simps Let_def assms by (rule refl)

lemma buyLoop_real:
  "buyLoop ls (Fin r, Fin b, Fin s) = finTriple (buyR (realLevels ls) (r, b, s))"
proof (induction ls arbitrary: r b s)
  case Nil
  show ?case by (simp add: finTriple_def)
next
  case (Cons l ls)
  obtain p a where l: "l = (p, a)" by (cases l)
  show ?case
  proof (cases "skipLevel p a")
    case True
    then have "realLevels (l # ls) = realLevels ls"
      unfolding l by (cases p; cases a) auto
    with True show ?thesis by (simp add: l Cons.IH)
  next
    case False
    then obtain pr ar where pa: "p = Fin pr" "a = Fin ar" "0 < pr" "0 < ar"
      by (cases p; cases a) auto
    define t where "t = min r (pr * ar)"
    have rl: "realLevels (l # ls) = (pr, ar) # realLevels ls"
      using pa by (simp add: l)
    have "buyLoop (l # ls) (Fin r, Fin b, Fin s) =
          buyLoop ((Fin pr, Fin ar) # ls) (Fin r, Fin b, Fin s)"
      by (simp only: l pa(1,2))
    also note buyLoop_step [OF pa(3,4) t_def]
    also have "(if r - t \<le> 1 / 10 ^ 9 then (Fin (r - t), Fin (b + t / pr), Fin (s + t))
          else buyLoop ls (Fin (r - t), Fin (b + t / pr), Fin (s + t))) =
        finTriple (if r - t \<le> 1 / 10 ^ 9 then (r - t, b + t / pr, s + t)
          else buyR (realLevels ls) (r - t, b + t / pr, s + t))"
      by (simp add: Cons.IH finTriple_def)
    also have "\<dots> = finTriple (buyR ((pr, ar) # realLevels ls) (r, b, s))"
      by (simp only: buyR_step [OF t_def])
    finally show ?thesis by (simp only: rl)
  qed
qed

lemma sellLoop_step:
  assumes "0 < p" "0 < a" "t = min r a"
  shows "sellLoop ((Fin p, Fin a) # rest) (Fin r, Fin b, Fin s) =
         (if r - t \<le> 1 / 10 ^ 12 then (Fin (r - t), Fin (b + t), Fin (s + t * p))
          else sellLoop rest (Fin (r - t), Fin (b + t), Fin (s + t * p)))"
proof -
  have m: "js_min (Fin r) (Fin a) = Fin t"
    using assms by simp
  show ?thesis
    unfolding sellLoop.simps Let_def m using assms(1,2)
    by (simp del: js_min_Fin)
qed

lemma sellR_step:
  assumes "t = min r a"
  shows "sellR ((p, a) # rest) (r, b, s) =
         (if r - t \<le> 1 / 10 ^ 12 then (r - t, b + t, s + t * p)
          else sellR rest (r - t, b + t, s + t * p))"
  unfolding sellR.simps Let_def assms by (rule refl)

lemma sellLoop_real:
  "sellLoop ls (Fin r, Fin b, Fin s) = finTriple (sellR (realLevels ls) (r, b, s))"
proof (induction ls arbitrary: r b s)
  case Nil
  show ?case by (simp add: finTriple_def)
next
  case (Cons l ls)
  obtain p a where l: "l = (p, a)" by (cases l)
  show ?case
  proof (cases "skipLevel p a")
    case True
    then have "realLevels (l # ls) = realLevels ls"
      unfolding l by (cases p; cases a) auto
    with True show ?thesis by (simp add: l Cons.IH)
  next
    case False
    then obtain pr ar where pa: "p = Fin pr" "a = Fin ar" "0 < pr" "0 < ar"
      by (cases p; cases a) auto
    define t where "t = min r ar"
    have rl: "realLevels (l # ls) = (pr, ar) # realLevels ls"
      using pa by (simp add: l)
    have "sellLoop (l # ls) (Fin r, Fin b, Fin s) =
          sellLoop ((Fin pr, Fin ar) # ls) (Fin r, Fin b, Fin s)"
      by (simp only: l pa(1,2))
    also note sellLoop_step [OF pa(3,4) t_def]
    also have "(if r - t \<le> 1 / 10 ^ 12 then (Fin (r - t), Fin (b + t), Fin (s + t * pr))
          else sellLoop ls (Fin (r - t), Fin (b + t), Fin (s + t * pr))) =
        finTriple (if r - t \<le> 1 / 10 ^ 12 then (r - t, b + t, s + t * pr)
          else sellR (realLevels ls) (r - t, b + t, s + t * pr))"
      by (simp add: Cons.IH finTriple_def)
    also have "\<dots> = finTriple (sellR ((pr, ar) # realLevels ls) (r, b, s))"
      by (simp only: sellR_step [OF t_def])
    finally show ?thesis by (simp only: rl)
  qed
qed

lemma posLevels_realLevels: "posLevels (realLevels ls)"
  by (induction ls rule: realLevels.induct) (auto simp: posLevels_def)


lemma buyR_mono:
  assumes "posLevels ls" "0 \<le> r" "buyR ls (r, b, s) = (r', b', s')"
  shows "0 \<le> r' \<and> r' \<le> r \<and> b \<le> b' \<and> s \<le> s' \<and> s' - s = r - r'"
  using assms
proof (induction ls arbitrary: r b s)
  case Nil
  then show ?case by simp
next
  case (Cons l ls)
  obtain p a where l: "l = (p, a)" by (cases l)
  have pos: "0 < p" "0 < a" and rest: "posLevels ls"
    using Cons.prems(1) by (auto simp: posLevels_def l)
  define t where "t = min r (p * a)"
  have t: "0 \<le> t" "t \<le> r" using pos Cons.prems(2) by (auto simp: t_def)
  have tp: "0 \<le> t / p" using t pos by simp
  show ?case
  proof (cases "r - t \<le> 1 / 10 ^ 9")
    case True
    with Cons.prems(3) have "(r', b', s') = (r - t, b + t / p, s + t)"
      unfolding l buyR_step [OF t_def] by simp
    then show ?thesis using t tp by auto
  next
    case False
    with Cons.prems(3) have "buyR ls (r - t, b + t / p, s + t) = (r', b', s')"
      unfolding l buyR_step [OF t_def] by simp
    from Cons.IH [OF rest _ this] t tp show ?thesis by auto
  qed
qed

lemma buyR_pos:
  assumes "posLevels ls" "ls \<noteq> []" "0 < r" "buyR ls (r, b, s) = (r', b', s')"
  shows "b < b' \<and> s < s'"
proof -
  obtain p a rest where ls: "ls = (p, a) # rest" using assms(2) by (cases ls) auto
  have pos: "0 < p" "0 < a" and rest: "posLevels rest"
    using assms(1) by (auto simp: posLevels_def ls)
  define t where "t = min r (p * a)"
  have t: "0 < t" "t \<le> r" using pos assms(3) by (auto simp: t_def)
  have tp: "0 < t / p" using t pos by simp
  show ?thesis
  proof (cases "r - t \<le> 1 / 10 ^ 9")
    case True
    with assms(4) have "(r', b', s') = (r - t, b + t / p, s + t)"
      unfolding ls buyR_step [OF t_def] by simp
    then show ?thesis using t tp by auto
  next
    case False
    with assms(4) have "buyR rest (r - t, b + t / p, s + t) = (r', b', s')"
      unfolding ls buyR_step [OF t_def] by simp
    from buyR_mono [OF rest _ this] t tp show ?thesis by auto
  qed
qed

lemma buyR_nonpos:
  assumes "posLevels ls" "r \<le> 0" "buyR ls (r, b, s) = (r', b', s')"
  shows "b' \<le> b"
proof (cases ls)
  case Nil
  with assms(3) show ?thesis by simp
next
  case (Cons l rest)
  obtain p a where l: "l = (p, a)" by (cases l)
  have pos: "0 < p" "0 < a"
    using assms(1) by (auto simp: posLevels_def Cons l)
  have pa: "0 < p * a" using pos by simp
  have t: "r = min r (p * a)" using pa assms(2) by simp
  have "(r', b', s') = (r - r, b + r / p, s + r)"
    using assms(3) unfolding Cons l buyR_step [OF t] by simp
  moreover have "r / p \<le> 0" using assms(2) pos by (simp add: divide_nonpos_pos)
  ultimately show ?thesis by simp
qed

lemma sellR_mono:
  assumes "posLevels ls" "0 \<le> r" "sellR ls (r, b, s) = (r', b', s')"
  shows "0 \<le> r' \<and> r' \<le> r \<and> b \<le> b' \<and> s \<le> s' \<and> b' - b = r - r'"
  using assms
proof (induction ls arbitrary: r b s)
  case Nil
  then show ?case by simp
next
  case (Cons l ls)
  obtain p a where l: "l = (p, a)" by (cases l)
  have pos: "0 < p" "0 < a" and rest: "posLevels ls"
    using Cons.prems(1) by (auto simp: posLevels_def l)
  define t where "t = min r a"
  have t: "0 \<le> t" "t \<le> r" using pos Cons.prems(2) by (auto simp: t_def)
  have tp: "0 \<le> t * p" using t pos by simp
  show ?case
  proof (cases "r - t \<le> 1 / 10 ^ 12")
    case True
    with Cons.prems(3) have "(r', b', s') = (r - t, b + t, s + t * p)"
      unfolding l sellR_step [OF t_def] by simp
    then show ?thesis using t tp by auto
  next
    case False
    with Cons.prems(3) have "sellR ls (r - t, b + t, s + t * p) = (r', b', s')"
      unfolding l sellR_step [OF t_def] by simp
    from Cons.IH [OF rest _ this] t tp show ?thesis by auto
  qed
qed

lemma sellR_pos:
  assumes "posLevels ls" "ls \<noteq> []" "0 < r" "sellR ls (r, b, s) = (r', b', s')"
  shows "b < b' \<and> s < s'"
proof -
  obtain p a rest where ls: "ls = (p, a) # rest" using assms(2) by (cases ls) auto
  have pos: "0 < p" "0 < a" and rest: "posLevels rest"
    using assms(1) by (auto simp: posLevels_def ls)
  define t where "t = min r a"
  have t: "0 < t" "t \<le> r" using pos assms(3) by (auto simp: t_def)
  have tp: "0 < t * p" using t pos by simp
  show ?thesis
  proof (cases "r - t \<le> 1 / 10 ^ 12")
    case True
    with assms(4) have "(r', b', s') = (r - t, b + t, s + t * p)"
      unfolding ls sellR_step [OF t_def] by simp
    then show ?thesis using t tp by auto
  next
    case False
    with assms(4) have "sellR rest (r - t, b + t, s + t * p) = (r', b', s')"
      unfolding ls sellR_step [OF t_def] by simp
    from sellR_mono [OF rest _ this] t tp show ?thesis by auto
  qed
qed

lemma sellR_nonpos:
  assumes "posLevels ls" "r \<le> 0" "sellR ls (r, b, s) = (r', b', s')"
  shows "b' \<le> b"
proof (cases ls)
  case Nil
  with assms(3) show ?thesis by simp
next
  case (Cons l rest)
  obtain p a where l: "l = (p, a)" by (cases l)
  have pos: "0 < p" "0 < a"
    using assms(1) by (auto simp: posLevels_def Cons l)
  have t: "r = min r a" using pos assms(2) by simp
  have "(r', b', s') = (r - r, b + r, s + r * p)"
    using assms(3) unfolding Cons l sellR_step [OF t] by simp
  then show ?thesis using assms(2) by simp
qed

lemma vwapBuy_finite_cases:
  "vwapBuyForQuoteAmount book (Fin q) = None \<or>
   (\<exists>e b. 0 < e \<and> 0 < b \<and>
      vwapBuyForQuoteAmount book (Fin q) = Some \<lparr>executablePrice = Fin e, baseAmount = Fin b\<rparr>)"
proof -
  obtain r' b' s' where R: "buyR (realLevels (asks book)) (q, 0, 0) = (r', b', s')"
    by (cases "buyR (realLevels (asks book)) (q, 0, 0)") auto
  have L: "buyLoop (asks book) (Fin q, Fin 0, Fin 0) = (Fin r', Fin b', Fin s')"
    by (simp add: buyLoop_real R finTriple_def)
  show ?thesis
  proof (cases "0 < b'")
    case False
    then show ?thesis by (simp add: vwapBuyForQuoteAmount_def L)
  next
    case True
    have q: "0 < q"
    proof (rule ccontr)
      assume "\<not> 0 < q"
      then have "b' \<le> 0"
        using buyR_nonpos [OF posLevels_realLevels _ R] by simp
      with True show False by simp
    qed
    have ne: "realLevels (asks book) \<noteq> []"
      using R True by auto
    have "0 < s'" using buyR_pos [OF posLevels_realLevels ne q R] by simp
    then have "0 < s' / b'" using True by simp
    then show ?thesis using True
      by (auto simp: vwapBuyForQuoteAmount_def L js_gt_def)
  qed
qed

lemma vwapSell_finite_cases:
  "vwapSellForBaseAmount book (Fin q) = None \<or>
   (\<exists>e b. 0 < e \<and> 0 < b \<and>
      vwapSellForBaseAmount book (Fin q) = Some \<lparr>executablePrice = Fin e, baseAmount = Fin b\<rparr>)"
proof -
  obtain r' b' s' where R: "sellR (realLevels (bids book)) (q, 0, 0) = (r', b', s')"
    by (cases "sellR (realLevels (bids book)) (q, 0, 0)") auto
  have L: "sellLoop (bids book) (Fin q, Fin 0, Fin 0) = (Fin r', Fin b', Fin s')"
    by (simp add: sellLoop_real R finTriple_def)
  show ?thesis
  proof (cases "0 < b'")
    case False
    then show ?thesis by (simp add: vwapSellForBaseAmount_def L)
  next
    case True
    have q: "0 < q"
    proof (rule ccontr)
      assume "\<not> 0 < q"
      then have "b' \<le> 0"
        using sellR_nonpos [OF posLevels_realLevels _ R] by simp
      with True show False by simp
    qed
    have ne: "realLevels (bids book) \<noteq> []"
      using R True by auto
    have "0 < s'" using sellR_pos [OF posLevels_realLevels ne q R] by simp
    then have "0 < s' / b'" using True by simp
    then show ?thesis using True
      by (auto simp: vwapSellForBaseAmount_def L js_gt_def)
  qed
qed

lemma buyR_lower:
  assumes "posLevels ls" "\<forall>(p, a) \<in> set ls. p0 \<le> p" "0 < p0" "0 \<le> r"
    "buyR ls (r, b, s) = (r', b', s')"
  shows "p0 * (b' - b) \<le> s' - s"
  using assms
proof (induction ls arbitrary: r b s)
  case Nil
  then show ?case by simp
next
  case (Cons l ls)
  obtain p a where l: "l = (p, a)" by (cases l)
  have pos: "0 < p" "0 < a" "p0 \<le> p" and rest: "posLevels ls" "\<forall>(p, a) \<in> set ls. p0 \<le> p"
    using Cons.prems(1,2) by (auto simp: posLevels_def l)
  define t where "t = min r (p * a)"
  have t: "0 \<le> t" "t \<le> r" using pos Cons.prems(4) by (auto simp: t_def)
  have tp: "0 \<le> t / p" using t pos by simp
  have "p0 * (t / p) \<le> p * (t / p)"
    using pos(3) tp by (rule mult_right_mono)
  then have step: "p0 * (t / p) \<le> t" using pos(1) by simp
  show ?case
  proof (cases "r - t \<le> 1 / 10 ^ 9")
    case True
    with Cons.prems(5) have "(r', b', s') = (r - t, b + t / p, s + t)"
      unfolding l buyR_step [OF t_def] by simp
    then show ?thesis using step by simp
  next
    case False
    with Cons.prems(5) have "buyR ls (r - t, b + t / p, s + t) = (r', b', s')"
      unfolding l buyR_step [OF t_def] by simp
    from Cons.IH [OF rest Cons.prems(3) _ this] t
    have "p0 * (b' - (b + t / p)) \<le> s' - (s + t)" by simp
    then show ?thesis using step by (simp add: algebra_simps)
  qed
qed

lemma avg_extend:
  fixes p :: real
  assumes "S1 \<le> p * B1" "0 \<le> B1" "B1 \<le> b2" "p * (b2 - B1) \<le> s2 - S1"
  shows "S1 * b2 \<le> s2 * B1"
proof -
  have "S1 * (b2 - B1) \<le> (p * B1) * (b2 - B1)"
    using assms(1,3) by (intro mult_right_mono) auto
  also have "\<dots> = (p * (b2 - B1)) * B1" by (simp add: algebra_simps)
  also have "\<dots> \<le> (s2 - S1) * B1"
    using assms(4,2) by (rule mult_right_mono)
  finally have "S1 * (b2 - B1) \<le> (s2 - S1) * B1" .
  then show ?thesis by (simp add: algebra_simps)
qed

lemma buyR_mono_avg:
  assumes "posLevels ls" "ascPrices ls" "\<forall>(p, a) \<in> set ls. s \<le> p * b" "0 \<le> b"
    "0 \<le> r1" "r1 \<le> r2"
    "buyR ls (r1, b, s) = (r1', b1, s1)" "buyR ls (r2, b, s) = (r2', b2, s2)"
  shows "b1 \<le> b2 \<and> s1 * b2 \<le> s2 * b1"
  using assms
proof (induction ls arbitrary: r1 r2 b s)
  case Nil
  then show ?case by simp
next
  case (Cons l ls)
  obtain p a where l: "l = (p, a)" by (cases l)
  have pos: "0 < p" "0 < a" and rest: "posLevels ls"
    using Cons.prems(1) by (auto simp: posLevels_def l)
  have asc: "ascPrices ls" and ge: "\<forall>(p', a') \<in> set (l # ls). p \<le> p'"
    using Cons.prems(2) by (auto simp: ascPrices_def l)
  have sb: "s \<le> p * b" using Cons.prems(3) by (simp add: l)
  define t1 where "t1 = min r1 (p * a)"
  define t2 where "t2 = min r2 (p * a)"
  have r2: "0 \<le> r2" using Cons.prems(5,6) by simp
  have t: "0 \<le> t1" "t1 \<le> t2" "t2 \<le> r2" "0 \<le> t2"
    using pos Cons.prems(5,6) by (auto simp: t1_def t2_def)
  show ?case
  proof (cases "r1 - t1 \<le> 1 / 10 ^ 9")
    case True
    with Cons.prems(7) have e1: "b1 = b + t1 / p" "s1 = s + t1"
      unfolding l buyR_step [OF t1_def] by simp_all
    have B1: "0 \<le> b1" using e1 t(1) pos Cons.prems(4) by simp
    have S1: "s1 \<le> p * b1" using e1 sb pos by (simp add: algebra_simps)
    have low: "p * (b2 - b) \<le> s2 - s"
      using buyR_lower [OF Cons.prems(1) ge pos(1) r2 Cons.prems(8)] .
    have b12: "b1 \<le> b2"
    proof (cases "r2 - t2 \<le> 1 / 10 ^ 9")
      case True
      with Cons.prems(8) have "b2 = b + t2 / p"
        unfolding l buyR_step [OF t2_def] by simp
      then show ?thesis using e1 t(2) pos by (simp add: divide_right_mono)
    next
      case False
      with Cons.prems(8) have "buyR ls (r2 - t2, b + t2 / p, s + t2) = (r2', b2, s2)"
        unfolding l buyR_step [OF t2_def] by simp
      from buyR_mono [OF rest _ this] t have "b + t2 / p \<le> b2" by simp
      moreover have "t1 / p \<le> t2 / p" using t(2) pos by (simp add: divide_right_mono)
      ultimately show ?thesis using e1 by simp
    qed
    have "p * (b2 - b1) \<le> s2 - s1"
      using low e1 pos by (simp add: algebra_simps)
    from avg_extend [OF S1 B1 b12 this] b12 show ?thesis by simp
  next
    case False
    have t1: "t1 = p * a"
    proof (rule ccontr)
      assume "t1 \<noteq> p * a"
      then have "t1 = r1" by (auto simp: t1_def min_def split: if_splits)
      with False show False by simp
    qed
    then have "p * a \<le> r1" by (auto simp: t1_def min_def split: if_splits)
    then have t2: "t2 = p * a" using Cons.prems(6) by (auto simp: t2_def)
    have F2: "\<not> r2 - t2 \<le> 1 / 10 ^ 9" using False t1 t2 Cons.prems(6) by simp
    have R1: "buyR ls (r1 - p * a, b + a, s + p * a) = (r1', b1, s1)"
      using Cons.prems(7) False pos unfolding l buyR_step [OF t1_def] t1 by simp
    have R2: "buyR ls (r2 - p * a, b + a, s + p * a) = (r2', b2, s2)"
      using Cons.prems(8) F2 pos unfolding l buyR_step [OF t2_def] t2 by simp
    have inv: "\<forall>(p', a') \<in> set ls. s + p * a \<le> p' * (b + a)"
    proof (clarify)
      fix p' a' assume "(p', a') \<in> set ls"
      then have pp: "p \<le> p'" using ge by auto
      have "p * b \<le> p' * b" using pp Cons.prems(4) by (rule mult_right_mono)
      moreover have "p * a \<le> p' * a" using pp pos by (intro mult_right_mono) auto
      ultimately show "s + p * a \<le> p' * (b + a)" using sb by (simp add: algebra_simps)
    qed
    have "0 \<le> r1 - p * a" using False t1 by simp
    moreover have "r1 - p * a \<le> r2 - p * a" using Cons.prems(6) by simp
    moreover have "0 \<le> b + a" using Cons.prems(4) pos by simp
    ultimately show ?thesis
      using Cons.IH [OF rest asc inv _ _ _ R1 R2] by blast
  qed
qed

lemma vwapBuy_Some_real:
  assumes "vwapBuyForQuoteAmount book (Fin q) = Some f"
  shows "\<exists>r' b' s'. buyR (realLevels (asks book)) (q, 0, 0) = (r', b', s') \<and> 0 < q \<and> 0 < b'
           \<and> 0 < s' \<and> r' \<le> 1 / 10 ^ 6
           \<and> f = \<lparr>executablePrice = Fin (s' / b'), baseAmount = Fin b'\<rparr>"
proof -
  obtain r' b' s' where R: "buyR (realLevels (asks book)) (q, 0, 0) = (r', b', s')"
    by (cases "buyR (realLevels (asks book)) (q, 0, 0)") auto
  have L: "buyLoop (asks book) (Fin q, Fin 0, Fin 0) = (Fin r', Fin b', Fin s')"
    by (simp add: buyLoop_real R finTriple_def)
  have b: "0 < b'" and r: "r' \<le> 1 / 10 ^ 6" and f: "f = \<lparr>executablePrice = Fin (s' / b'), baseAmount = Fin b'\<rparr>"
    using assms by (auto simp: vwapBuyForQuoteAmount_def L js_gt_def split: if_splits)
  have q: "0 < q"
  proof (rule ccontr)
    assume "\<not> 0 < q"
    then have "b' \<le> 0"
      using buyR_nonpos [OF posLevels_realLevels _ R] by simp
    with b show False by simp
  qed
  have ne: "realLevels (asks book) \<noteq> []"
    using R b by auto
  have "0 < s'" using buyR_pos [OF posLevels_realLevels ne q R] by simp
  with R q b r f show ?thesis by blast
qed

lemma realLevels_subset:
  "(p, a) \<in> set (realLevels ls) \<Longrightarrow> (Fin p, Fin a) \<in> set ls"
  by (induction ls rule: realLevels.induct) (auto split: if_splits)

lemma realLevels_Cons:
  "realLevels (l # ls) = realLevels ls \<or>
   (\<exists>p a. l = (Fin p, Fin a) \<and> realLevels (l # ls) = (p, a) # realLevels ls)"
proof -
  obtain x y where l: "l = (x, y)" by (cases l)
  show ?thesis unfolding l by (cases x; cases y) auto
qed

lemma ascPrices_realLevels:
  "sorted_wrt (\<lambda>x y. js_le (fst x) (fst y)) ls \<Longrightarrow> ascPrices (realLevels ls)"
proof (induction ls)
  case Nil
  show ?case by (simp add: ascPrices_def)
next
  case (Cons l ls)
  then have IH: "ascPrices (realLevels ls)" by simp
  from realLevels_Cons [of l ls] show ?case
  proof
    assume "realLevels (l # ls) = realLevels ls"
    with IH show ?thesis by simp
  next
    assume "\<exists>p a. l = (Fin p, Fin a) \<and> realLevels (l # ls) = (p, a) # realLevels ls"
    then obtain p a where l: "l = (Fin p, Fin a)"
      and rl: "realLevels (l # ls) = (p, a) # realLevels ls" by blast
    have "\<forall>(p', a') \<in> set (realLevels ls). p \<le> p'"
    proof (clarify)
      fix p' a' assume "(p', a') \<in> set (realLevels ls)"
      then have "(Fin p', Fin a') \<in> set ls" by (rule realLevels_subset)
      with Cons.prems l show "p \<le> p'" by auto
    qed
    with IH show ?thesis unfolding rl by (auto simp: ascPrices_def)
  qed
qed

lemma buy_executable_monotone:
  assumes "sorted_wrt (\<lambda>x y. js_le (fst x) (fst y)) (asks book)"
    and "q1 \<le> q2"
    and "vwapBuyForQuoteAmount book (Fin q1) = Some f1"
    and "vwapBuyForQuoteAmount book (Fin q2) = Some f2"
  shows "\<exists>e1 e2. executablePrice f1 = Fin e1 \<and> executablePrice f2 = Fin e2 \<and> e1 \<le> e2"
proof -
  let ?ls = "realLevels (asks book)"
  obtain r1 b1 s1 where 1: "buyR ?ls (q1, 0, 0) = (r1, b1, s1)" "0 < q1" "0 < b1"
      "f1 = \<lparr>executablePrice = Fin (s1 / b1), baseAmount = Fin b1\<rparr>"
    using vwapBuy_Some_real [OF assms(3)] by blast
  obtain r2 b2 s2 where 2: "buyR ?ls (q2, 0, 0) = (r2, b2, s2)" "0 < b2"
      "f2 = \<lparr>executablePrice = Fin (s2 / b2), baseAmount = Fin b2\<rparr>"
    using vwapBuy_Some_real [OF assms(4)] by blast
  have inv: "\<forall>(p, a) \<in> set ?ls. (0::real) \<le> p * 0" by simp
  have "s1 * b2 \<le> s2 * b1"
    using buyR_mono_avg [OF posLevels_realLevels ascPrices_realLevels [OF assms(1)] inv _ _ assms(2) 1(1) 2(1)]
      1(2) by simp
  then have "s1 / b1 \<le> s2 / b2"
    using 1(3) 2(2) by (simp add: field_simps)
  then show ?thesis using 1(4) 2(3) by simp
qed

lemma buySlippage_mono:
  assumes "0 < a" "e1 \<le> e2"
  shows "js_le (buySlippagePercent (Fin e1) (Fin a)) (buySlippagePercent (Fin e2) (Fin a))"
proof -
  have "(e1 - a) / a \<le> (e2 - a) / a"
    using assms by (simp add: divide_right_mono)
  then have "(e1 - a) / a * 100 \<le> (e2 - a) / a * 100"
    by (rule mult_right_mono) simp
  moreover have "js_div (Fin (e1 - a)) (Fin a) = Fin ((e1 - a) / a)"
    "js_div (Fin (e2 - a)) (Fin a) = Fin ((e2 - a) / a)"
    using assms(1) by simp_all
  ultimately show ?thesis
    by (simp only: buySlippagePercent_def js_sub_Fin js_mul.simps js_le.simps)
qed



lemma vwapBuy_skips:
  "buyLoop (filter (\<lambda>(p, a). \<not> skipLevel p a) ls) st = buyLoop ls st"
proof (induction ls arbitrary: st)
  case Nil
  show ?case by simp
next
  case (Cons l ls)
  obtain p a where l: "l = (p, a)" by (cases l)
  obtain r b s where st: "st = (r, b, s)" by (cases st)
  show ?case
    by (cases "skipLevel p a") (simp_all add: l st Cons.IH Let_def)
qed

lemma vwapSell_skips:
  "sellLoop (filter (\<lambda>(p, a). \<not> skipLevel p a) ls) st = sellLoop ls st"
proof (induction ls arbitrary: st)
  case Nil
  show ?case by simp
next
  case (Cons l ls)
  obtain p a where l: "l = (p, a)" by (cases l)
  obtain r b s where st: "st = (r, b, s)" by (cases st)
  show ?case
    by (cases "skipLevel p a") (simp_all add: l st Cons.IH Let_def)
qed

lemma not_skipLevel_pos:
  "\<not> skipLevel p a \<Longrightarrow> \<exists>x y. p = Fin x \<and> a = Fin y \<and> 0 < x \<and> 0 < y"
  by (cases p; cases a) auto




lemma greedyBase_zero: "posLevels ls \<Longrightarrow> greedyBase ls 0 = 0"
  by (cases ls) (auto simp: posLevels_def)

lemma greedyQuote_zero: "posLevels ls \<Longrightarrow> greedyQuote ls 0 = 0"
  by (cases ls) (auto simp: posLevels_def)

lemma depthQuote_nonneg: "posLevels ls \<Longrightarrow> 0 \<le> depthQuote ls"
  by (induction ls) (auto simp: posLevels_def)

lemma depthBase_nonneg: "posLevels ls \<Longrightarrow> 0 \<le> depthBase ls"
  by (induction ls) (auto simp: posLevels_def)

lemma buyR_greedy:
  assumes "posLevels ls" "0 \<le> r" "buyR ls (r, b, s) = (r', b', s')"
  shows "b' = b + greedyBase ls (r - r') \<and> s' = s + (r - r')
         \<and> (r' \<le> 1 / 10 ^ 9 \<or> r' = r - depthQuote ls) \<and> r - depthQuote ls \<le> r'"
  using assms
proof (induction ls arbitrary: r b s)
  case Nil
  then show ?case by simp
next
  case (Cons l ls)
  obtain p a where l: "l = (p, a)" by (cases l)
  have pos: "0 < p" "0 < a" and rest: "posLevels ls"
    using Cons.prems(1) by (auto simp: posLevels_def l)
  have pa: "0 < p * a" using pos by simp
  define t where "t = min r (p * a)"
  have t: "0 \<le> t" "t \<le> r" "t \<le> p * a" using pa Cons.prems(2) by (auto simp: t_def)
  have dq: "0 \<le> depthQuote ls" using rest by (rule depthQuote_nonneg)
  show ?case
  proof (cases "r - t \<le> 1 / 10 ^ 9")
    case True
    with Cons.prems(3) have e: "r' = r - t" "b' = b + t / p" "s' = s + t"
      unfolding l buyR_step [OF t_def] by simp_all
    have "greedyBase (l # ls) (r - r') = t / p" using e t by (simp add: l)
    moreover have "r - depthQuote (l # ls) \<le> r'"
    proof (cases "r \<le> p * a")
      case True
      then have "t = r" by (simp add: t_def)
      then show ?thesis using e dq True by (simp add: l)
    next
      case False
      then have "t = p * a" by (simp add: t_def)
      then show ?thesis using e dq by (simp add: l)
    qed
    ultimately show ?thesis using e True by simp
  next
    case False
    have tpa: "t = p * a"
    proof (rule ccontr)
      assume "t \<noteq> p * a"
      then have "t = r" by (auto simp: t_def min_def split: if_splits)
      with False show False by simp
    qed
    from False Cons.prems(3) have R: "buyR ls (r - t, b + t / p, s + t) = (r', b', s')"
      unfolding l buyR_step [OF t_def] by simp
    have r0: "0 \<le> r - t" using t by simp
    note IH = Cons.IH [OF rest r0 R]
    have r'le: "r' \<le> r - t" using buyR_mono [OF rest r0 R] by simp
    have g: "greedyBase (l # ls) (r - r') = a + greedyBase ls (r - t - r')"
    proof (cases "r - r' \<le> p * a")
      case True
      with r'le tpa have eq: "r - t - r' = 0" "r - r' = p * a" by simp_all
      show ?thesis unfolding l greedyBase.simps eq using pos greedyBase_zero [OF rest] by simp
    next
      case False
      then show ?thesis unfolding l greedyBase.simps tpa by (simp add: algebra_simps)
    qed
    have tp: "t / p = a" using tpa pos by simp
    show ?thesis using IH g tp tpa by (auto simp: l algebra_simps)
  qed
qed

lemma sellR_greedy:
  assumes "posLevels ls" "0 \<le> r" "sellR ls (r, b, s) = (r', b', s')"
  shows "s' = s + greedyQuote ls (r - r') \<and> b' = b + (r - r')
         \<and> (r' \<le> 1 / 10 ^ 12 \<or> r' = r - depthBase ls) \<and> r - depthBase ls \<le> r'"
  using assms
proof (induction ls arbitrary: r b s)
  case Nil
  then show ?case by simp
next
  case (Cons l ls)
  obtain p a where l: "l = (p, a)" by (cases l)
  have pos: "0 < p" "0 < a" and rest: "posLevels ls"
    using Cons.prems(1) by (auto simp: posLevels_def l)
  define t where "t = min r a"
  have t: "0 \<le> t" "t \<le> r" "t \<le> a" using pos Cons.prems(2) by (auto simp: t_def)
  have dq: "0 \<le> depthBase ls" using rest by (rule depthBase_nonneg)
  show ?case
  proof (cases "r - t \<le> 1 / 10 ^ 12")
    case True
    with Cons.prems(3) have e: "r' = r - t" "b' = b + t" "s' = s + t * p"
      unfolding l sellR_step [OF t_def] by simp_all
    have "greedyQuote (l # ls) (r - r') = t * p" using e t by (simp add: l)
    moreover have "r - depthBase (l # ls) \<le> r'"
    proof (cases "r \<le> a")
      case True
      then have "t = r" by (simp add: t_def)
      then show ?thesis using e dq True by (simp add: l)
    next
      case False
      then have "t = a" by (simp add: t_def)
      then show ?thesis using e dq by (simp add: l)
    qed
    ultimately show ?thesis using e True by simp
  next
    case False
    have tpa: "t = a"
    proof (rule ccontr)
      assume "t \<noteq> a"
      then have "t = r" by (auto simp: t_def min_def split: if_splits)
      with False show False by simp
    qed
    from False Cons.prems(3) have R: "sellR ls (r - t, b + t, s + t * p) = (r', b', s')"
      unfolding l sellR_step [OF t_def] by simp
    have r0: "0 \<le> r - t" using t by simp
    note IH = Cons.IH [OF rest r0 R]
    have r'le: "r' \<le> r - t" using sellR_mono [OF rest r0 R] by simp
    have g: "greedyQuote (l # ls) (r - r') = a * p + greedyQuote ls (r - t - r')"
    proof (cases "r - r' \<le> a")
      case True
      with r'le tpa have eq: "r - t - r' = 0" "r - r' = a" by simp_all
      show ?thesis unfolding l greedyQuote.simps eq using pos greedyQuote_zero [OF rest] by simp
    next
      case False
      then show ?thesis unfolding l greedyQuote.simps tpa by (simp add: algebra_simps)
    qed
    show ?thesis using IH g tpa by (auto simp: l algebra_simps)
  qed
qed

lemma vwapBuy_characterised:
  assumes q: "0 < q"
  shows "(vwapBuyForQuoteAmount book (Fin q) = None \<longleftrightarrow>
            realLevels (asks book) = [] \<or> askDepthQuote book < q - 1 / 10 ^ 6)"
    and "vwapBuyForQuoteAmount book (Fin q) = Some f \<Longrightarrow>
           \<exists>spent bought. q - 1 / 10 ^ 6 \<le> spent \<and> spent \<le> q
             \<and> (q - spent \<le> 1 / 10 ^ 9 \<or> spent = askDepthQuote book)
             \<and> bought = greedyBase (realLevels (asks book)) spent \<and> 0 < bought
             \<and> f = \<lparr>executablePrice = Fin (spent / bought), baseAmount = Fin bought\<rparr>"
proof -
  let ?ls = "realLevels (asks book)"
  obtain r' b' s' where R: "buyR ?ls (q, 0, 0) = (r', b', s')"
    by (cases "buyR ?ls (q, 0, 0)") auto
  have L: "buyLoop (asks book) (Fin q, Fin 0, Fin 0) = (Fin r', Fin b', Fin s')"
    by (simp add: buyLoop_real R finTriple_def)
  have V: "vwapBuyForQuoteAmount book (Fin q) =
      (if b' \<le> 0 \<or> 1 / 10 ^ 6 < r' then None
       else Some \<lparr>executablePrice = js_div (Fin s') (Fin b'), baseAmount = Fin b'\<rparr>)"
    by (simp add: vwapBuyForQuoteAmount_def L js_gt_def)
  have q0: "0 \<le> q" using q by simp
  note G = buyR_greedy [OF posLevels_realLevels q0 R]
  note M = buyR_mono [OF posLevels_realLevels q0 R]
  have bpos: "?ls \<noteq> [] \<Longrightarrow> 0 < b'"
    using buyR_pos [OF posLevels_realLevels _ q R] by simp
  have bzero: "?ls = [] \<Longrightarrow> b' = 0"
    using R by simp
  show "(vwapBuyForQuoteAmount book (Fin q) = None \<longleftrightarrow>
            ?ls = [] \<or> askDepthQuote book < q - 1 / 10 ^ 6)"
  proof (cases "?ls = []")
    case True
    then show ?thesis using bzero V by simp
  next
    case False
    then have b: "0 < b'" by (rule bpos)
    have "1 / 10 ^ 6 < r' \<longleftrightarrow> askDepthQuote book < q - 1 / 10 ^ 6"
    proof
      assume "1 / 10 ^ 6 < r'"
      then have "\<not> r' \<le> 1 / 10 ^ 9" by simp
      with G have "r' = q - depthQuote ?ls" by blast
      with \<open>1 / 10 ^ 6 < r'\<close> show "askDepthQuote book < q - 1 / 10 ^ 6"
        by (simp add: askDepthQuote_def)
    next
      assume "askDepthQuote book < q - 1 / 10 ^ 6"
      moreover have "q - depthQuote ?ls \<le> r'" using G by blast
      ultimately show "1 / 10 ^ 6 < r'" by (simp add: askDepthQuote_def)
    qed
    then show ?thesis using False b V by simp
  qed
  assume S: "vwapBuyForQuoteAmount book (Fin q) = Some f"
  then have b: "0 < b'" and r: "r' \<le> 1 / 10 ^ 6"
      and f: "f = \<lparr>executablePrice = js_div (Fin s') (Fin b'), baseAmount = Fin b'\<rparr>"
    unfolding V by (auto split: if_splits)
  have s: "s' = q - r'" and bg: "b' = greedyBase ?ls (q - r')" using G by simp_all
  have "q - 1 / 10 ^ 6 \<le> q - r'" using r by simp
  moreover have "q - r' \<le> q" using M by simp
  moreover have "q - (q - r') \<le> 1 / 10 ^ 9 \<or> q - r' = askDepthQuote book"
    using G by (auto simp: askDepthQuote_def)
  moreover have "f = \<lparr>executablePrice = Fin ((q - r') / b'), baseAmount = Fin b'\<rparr>"
    using f b s by simp
  ultimately show "\<exists>spent bought. q - 1 / 10 ^ 6 \<le> spent \<and> spent \<le> q
             \<and> (q - spent \<le> 1 / 10 ^ 9 \<or> spent = askDepthQuote book)
             \<and> bought = greedyBase ?ls spent \<and> 0 < bought
             \<and> f = \<lparr>executablePrice = Fin (spent / bought), baseAmount = Fin bought\<rparr>"
    using b bg by blast
qed

lemma vwapSell_characterised:
  assumes q: "0 < x"
  shows "(vwapSellForBaseAmount book (Fin x) = None \<longleftrightarrow>
            realLevels (bids book) = [] \<or> bidDepthBase book < x - 1 / 10 ^ 9)"
    and "vwapSellForBaseAmount book (Fin x) = Some g \<Longrightarrow>
           \<exists>sold. x - 1 / 10 ^ 9 \<le> sold \<and> sold \<le> x \<and> 0 < sold
             \<and> (x - sold \<le> 1 / 10 ^ 12 \<or> sold = bidDepthBase book)
             \<and> g = \<lparr>executablePrice = Fin (greedyQuote (realLevels (bids book)) sold / sold),
                     baseAmount = Fin sold\<rparr>"
proof -
  let ?ls = "realLevels (bids book)"
  obtain r' b' s' where R: "sellR ?ls (x, 0, 0) = (r', b', s')"
    by (cases "sellR ?ls (x, 0, 0)") auto
  have L: "sellLoop (bids book) (Fin x, Fin 0, Fin 0) = (Fin r', Fin b', Fin s')"
    by (simp add: sellLoop_real R finTriple_def)
  have V: "vwapSellForBaseAmount book (Fin x) =
      (if b' \<le> 0 \<or> 1 / 10 ^ 9 < r' then None
       else Some \<lparr>executablePrice = js_div (Fin s') (Fin b'), baseAmount = Fin b'\<rparr>)"
    by (simp add: vwapSellForBaseAmount_def L js_gt_def)
  have q0: "0 \<le> x" using q by simp
  note G = sellR_greedy [OF posLevels_realLevels q0 R]
  note M = sellR_mono [OF posLevels_realLevels q0 R]
  have bpos: "?ls \<noteq> [] \<Longrightarrow> 0 < b'"
    using sellR_pos [OF posLevels_realLevels _ q R] by simp
  have bzero: "?ls = [] \<Longrightarrow> b' = 0"
    using R by simp
  show "(vwapSellForBaseAmount book (Fin x) = None \<longleftrightarrow>
            ?ls = [] \<or> bidDepthBase book < x - 1 / 10 ^ 9)"
  proof (cases "?ls = []")
    case True
    then show ?thesis using bzero V by simp
  next
    case False
    then have b: "0 < b'" by (rule bpos)
    have "1 / 10 ^ 9 < r' \<longleftrightarrow> bidDepthBase book < x - 1 / 10 ^ 9"
    proof
      assume "1 / 10 ^ 9 < r'"
      then have "\<not> r' \<le> 1 / 10 ^ 12" by simp
      with G have "r' = x - depthBase ?ls" by blast
      with \<open>1 / 10 ^ 9 < r'\<close> show "bidDepthBase book < x - 1 / 10 ^ 9"
        by (simp add: bidDepthBase_def)
    next
      assume "bidDepthBase book < x - 1 / 10 ^ 9"
      moreover have "x - depthBase ?ls \<le> r'" using G by blast
      ultimately show "1 / 10 ^ 9 < r'" by (simp add: bidDepthBase_def)
    qed
    then show ?thesis using False b V by simp
  qed
  assume S: "vwapSellForBaseAmount book (Fin x) = Some g"
  then have b: "0 < b'" and r: "r' \<le> 1 / 10 ^ 9"
      and f: "g = \<lparr>executablePrice = js_div (Fin s') (Fin b'), baseAmount = Fin b'\<rparr>"
    unfolding V by (auto split: if_splits)
  have s: "b' = x - r'" and bg: "s' = greedyQuote ?ls (x - r')" using G by simp_all
  have "x - 1 / 10 ^ 9 \<le> x - r'" using r by simp
  moreover have "x - r' \<le> x" using M by simp
  moreover have "x - (x - r') \<le> 1 / 10 ^ 12 \<or> x - r' = bidDepthBase book"
    using G by (auto simp: bidDepthBase_def)
  moreover have "g = \<lparr>executablePrice = Fin (greedyQuote ?ls (x - r') / (x - r')), baseAmount = Fin (x - r')\<rparr>"
    using f b s bg by simp
  moreover have "0 < x - r'" using b s by simp
  ultimately show "\<exists>sold. x - 1 / 10 ^ 9 \<le> sold \<and> sold \<le> x \<and> 0 < sold
             \<and> (x - sold \<le> 1 / 10 ^ 12 \<or> sold = bidDepthBase book)
             \<and> g = \<lparr>executablePrice = Fin (greedyQuote ?ls sold / sold), baseAmount = Fin sold\<rparr>"
    by blast
qed

lemma isValidated_attach [simp]:
  "\<not> isValidated (attachValidation env opp Rejected rs bv sv bp sp tr)"
  by (simp add: isValidated_def attachValidation_def)

lemma validated_facts:
  assumes "snd (validateOpportunity exs env tc cc opp) = Some out" "isValidated out"
  shows "\<exists>buyEx sellEx buyBook sellBook buyFill sellFill tr.
           exchangeLookup exs (exchange (buy opp)) = Some buyEx
         \<and> exchangeLookup exs (exchange (sell opp)) = Some sellEx
         \<and> safeOrderBook buyEx (symbol opp) = Some buyBook
         \<and> safeOrderBook sellEx (symbol opp) = Some sellBook
         \<and> vwapBuyForQuoteAmount buyBook (DEFAULT_TRADE_AMOUNT env) = Some buyFill
         \<and> vwapSellForBaseAmount sellBook (baseAmount buyFill) = Some sellFill
         \<and> tr = validateTransferabilityFromCache (cachedCurrencies cc (name buyEx))
                  (cachedCurrencies cc (name sellEx)) buyEx sellEx (baseFromSymbolUsdt (symbol opp))
         \<and> tStatus tr \<noteq> Unknown \<and> tStatus tr \<noteq> Blocked
         \<and> \<not> js_lt (realProfitOf env opp sellFill) (MIN_REAL_PROFIT_USD env)
         \<and> realProfitUsd out = Some (toFixedNumber 2 (realProfitOf env opp sellFill))
         \<and> symbol out = symbol opp \<and> buy out = buy opp \<and> sell out = sell opp
         \<and> (\<exists>v. validation out = Some v \<and> status v = Validated \<and> transfer v = Some tr)"
  using assms unfolding validateOpportunity_def realProfitOf_def
  by (auto simp: Let_def split: option.splits if_splits)

lemma DEFAULT_TRADE_AMOUNT_finite: "\<exists>q. DEFAULT_TRADE_AMOUNT env = Fin q"
  by (cases "env_DEFAULT_TRADE_AMOUNT env")
     (auto simp: DEFAULT_TRADE_AMOUNT_def readNumberEnv_def Let_def elim: isFinite.elims)

text \<open>
  Claim C4, as stated, fails where the depth falls short of the notional by no more than
  the tolerance of the final test: a single ask level worth 99.9999995 quote units does
  not fill the default notional of 100, and \<open>vwapBuyForQuoteAmount\<close> returns a fill.
\<close>

theorem fill_tolerance_counterexample:
  "askDepthQuote \<lparr>bids = [], asks = [(Fin 1, Fin (999999995 / 10 ^ 7))]\<rparr> < 100
   \<and> DEFAULT_TRADE_AMOUNT defaultEnv = Fin 100
   \<and> vwapBuyForQuoteAmount \<lparr>bids = [], asks = [(Fin 1, Fin (999999995 / 10 ^ 7))]\<rparr>
        (DEFAULT_TRADE_AMOUNT defaultEnv)
       = Some \<lparr>executablePrice = Fin 1, baseAmount = Fin (999999995 / 10 ^ 7)\<rparr>"
  by (simp add: askDepthQuote_def DEFAULT_TRADE_AMOUNT_def defaultEnv_def readNumberEnv_def
      vwapBuyForQuoteAmount_def js_gt_def Let_def)

text \<open>
  Claim C4, amended.  For a finite notional \<open>q > 0\<close>, the buy simulation consumes the
  ask levels in sequence until at most \<open>1e-9\<close> of the notional remains.  It returns
  \<open>null\<close> exactly when no level is usable or the usable ask depth is short of the notional
  by more than \<open>1e-6\<close>; otherwise it returns the base amount that a greedy fill of the
  spent amount buys, and the spent amount divided by it, where the spent amount lies
  within \<open>1e-6\<close> below the notional.  The sell simulation is run on exactly that base
  amount against the bid levels in sequence; it returns \<open>null\<close> exactly when no level is
  usable or the usable bid depth is short by more than \<open>1e-9\<close>, and otherwise the
  amount sold, within \<open>1e-9\<close> below the requested one, and the quote a greedy sale of it
  receives divided by it.  A candidate of the validator is validated only if both
  simulations, the sell one on the buy fill's base amount, returned a fill.
\<close>

theorem fill_simulation_greedy:
  assumes "0 < q"
  shows "(vwapBuyForQuoteAmount buyBook (Fin q) = None \<longleftrightarrow>
            realLevels (asks buyBook) = [] \<or> askDepthQuote buyBook < q - 1 / 10 ^ 6)
    \<and> (\<forall>f. vwapBuyForQuoteAmount buyBook (Fin q) = Some f \<longrightarrow>
          (\<exists>spent bought. q - 1 / 10 ^ 6 \<le> spent \<and> spent \<le> q
             \<and> (q - spent \<le> 1 / 10 ^ 9 \<or> spent = askDepthQuote buyBook)
             \<and> bought = greedyBase (realLevels (asks buyBook)) spent \<and> 0 < bought
             \<and> f = \<lparr>executablePrice = Fin (spent / bought), baseAmount = Fin bought\<rparr>
             \<and> (vwapSellForBaseAmount sellBook (baseAmount f) = None \<longleftrightarrow>
                  realLevels (bids sellBook) = [] \<or> bidDepthBase sellBook < bought - 1 / 10 ^ 9)
             \<and> (\<forall>g. vwapSellForBaseAmount sellBook (baseAmount f) = Some g \<longrightarrow>
                  (\<exists>sold. bought - 1 / 10 ^ 9 \<le> sold \<and> sold \<le> bought \<and> 0 < sold
                     \<and> (bought - sold \<le> 1 / 10 ^ 12 \<or> sold = bidDepthBase sellBook)
                     \<and> g = \<lparr>executablePrice = Fin (greedyQuote (realLevels (bids sellBook)) sold / sold),
                             baseAmount = Fin sold\<rparr>))))
    \<and> (\<forall>out. snd (validateOpportunity exs env tc cc opp) = Some out \<and> isValidated out \<longrightarrow>
          (\<exists>buyEx sellEx bBook sBook buyFill sellFill.
              exchangeLookup exs (exchange (buy opp)) = Some buyEx
            \<and> exchangeLookup exs (exchange (sell opp)) = Some sellEx
            \<and> safeOrderBook buyEx (symbol opp) = Some bBook
            \<and> safeOrderBook sellEx (symbol opp) = Some sBook
            \<and> vwapBuyForQuoteAmount bBook (DEFAULT_TRADE_AMOUNT env) = Some buyFill
            \<and> vwapSellForBaseAmount sBook (baseAmount buyFill) = Some sellFill))"
proof (intro conjI allI impI)
  show "(vwapBuyForQuoteAmount buyBook (Fin q) = None) =
    (realLevels (asks buyBook) = [] \<or> askDepthQuote buyBook < q - 1 / 10 ^ 6)"
    using assms by (rule vwapBuy_characterised(1))
next
  fix f assume S: "vwapBuyForQuoteAmount buyBook (Fin q) = Some f"
  from vwapBuy_characterised(2) [OF assms S]
  obtain spent bought where sb: "q - 1 / 10 ^ 6 \<le> spent" "spent \<le> q"
      "q - spent \<le> 1 / 10 ^ 9 \<or> spent = askDepthQuote buyBook"
      "bought = greedyBase (realLevels (asks buyBook)) spent" "0 < bought"
      "f = \<lparr>executablePrice = Fin (spent / bought), baseAmount = Fin bought\<rparr>"
    by blast
  have ba: "baseAmount f = Fin bought" using sb(6) by simp
  have n: "(vwapSellForBaseAmount sellBook (baseAmount f) = None) =
      (realLevels (bids sellBook) = [] \<or> bidDepthBase sellBook < bought - 1 / 10 ^ 9)"
    unfolding ba using sb(5) by (rule vwapSell_characterised(1))
  have s: "\<forall>g. vwapSellForBaseAmount sellBook (baseAmount f) = Some g \<longrightarrow>
                  (\<exists>sold. bought - 1 / 10 ^ 9 \<le> sold \<and> sold \<le> bought \<and> 0 < sold
                     \<and> (bought - sold \<le> 1 / 10 ^ 12 \<or> sold = bidDepthBase sellBook)
                     \<and> g = \<lparr>executablePrice = Fin (greedyQuote (realLevels (bids sellBook)) sold / sold),
                             baseAmount = Fin sold\<rparr>)"
    unfolding ba using vwapSell_characterised(2) [OF sb(5)] by blast
  show "\<exists>spent bought. q - 1 / 10 ^ 6 \<le> spent \<and> spent \<le> q
             \<and> (q - spent \<le> 1 / 10 ^ 9 \<or> spent = askDepthQuote buyBook)
             \<and> bought = greedyBase (realLevels (asks buyBook)) spent \<and> 0 < bought
             \<and> f = \<lparr>executablePrice = Fin (spent / bought), baseAmount = Fin bought\<rparr>
             \<and> (vwapSellForBaseAmount sellBook (baseAmount f) = None \<longleftrightarrow>
                  realLevels (bids sellBook) = [] \<or> bidDepthBase sellBook < bought - 1 / 10 ^ 9)
             \<and> (\<forall>g. vwapSellForBaseAmount sellBook (baseAmount f) = Some g \<longrightarrow>
                  (\<exists>sold. bought - 1 / 10 ^ 9 \<le> sold \<and> sold \<le> bought \<and> 0 < sold
                     \<and> (bought - sold \<le> 1 / 10 ^ 12 \<or> sold = bidDepthBase sellBook)
                     \<and> g = \<lparr>executablePrice = Fin (greedyQuote (realLevels (bids sellBook)) sold / sold),
                             baseAmount = Fin sold\<rparr>))"
    by (intro exI [of _ spent] exI [of _ bought] conjI sb n s)
next
  fix out assume "snd (validateOpportunity exs env tc cc opp) = Some out \<and> isValidated out"
  then show "\<exists>buyEx sellEx bBook sBook buyFill sellFill.
              exchangeLookup exs (exchange (buy opp)) = Some buyEx
            \<and> exchangeLookup exs (exchange (sell opp)) = Some sellEx
            \<and> safeOrderBook buyEx (symbol opp) = Some bBook
            \<and> safeOrderBook sellEx (symbol opp) = Some sBook
            \<and> vwapBuyForQuoteAmount bBook (DEFAULT_TRADE_AMOUNT env) = Some buyFill
            \<and> vwapSellForBaseAmount sBook (baseAmount buyFill) = Some sellFill"
    using validated_facts [of exs env tc cc opp out] by blast
qed

theorem fill_simulation_greedy_witness:
  "vwapBuyForQuoteAmount \<lparr>bids = [(Fin 3, Fin 200)], asks = [(Fin 1, Fin 100), (Fin 2, Fin 100)]\<rparr> (Fin 150)
     = Some \<lparr>executablePrice = Fin (6 / 5), baseAmount = Fin 125\<rparr>
   \<and> askDepthQuote \<lparr>bids = [(Fin 3, Fin 200)], asks = [(Fin 1, Fin 100), (Fin 2, Fin 100)]\<rparr> = 300
   \<and> vwapSellForBaseAmount \<lparr>bids = [(Fin 3, Fin 200)], asks = [(Fin 1, Fin 100), (Fin 2, Fin 100)]\<rparr> (Fin 125)
     \<noteq> None"
proof -
  let ?b = "\<lparr>bids = [(Fin 3, Fin 200)], asks = [(Fin 1, Fin 100), (Fin 2, Fin 100)]\<rparr>"
  have q: "(0::real) < 150" by simp
  note T = fill_simulation_greedy [OF q, of ?b ?b]
  have d: "askDepthQuote ?b = 300" "bidDepthBase ?b = 200"
    by (simp_all add: askDepthQuote_def bidDepthBase_def)
  have f: "vwapBuyForQuoteAmount ?b (Fin 150) = Some \<lparr>executablePrice = Fin (6 / 5), baseAmount = Fin 125\<rparr>"
    by (simp add: vwapBuyForQuoteAmount_def js_gt_def Let_def)
  from T [THEN conjunct2, THEN conjunct1, THEN spec, THEN mp, OF f]
  obtain spent bought where
      sb: "\<lparr>executablePrice = Fin (6 / 5), baseAmount = Fin 125\<rparr>
             = \<lparr>executablePrice = Fin (spent / bought), baseAmount = Fin bought\<rparr>"
      "vwapSellForBaseAmount ?b (Fin 125) = None \<longleftrightarrow>
          realLevels (bids ?b) = [] \<or> bidDepthBase ?b < bought - 1 / 10 ^ 9"
    by auto
  from sb(1) have b: "bought = 125" by simp
  have "vwapSellForBaseAmount ?b (Fin 125) \<noteq> None"
    using sb(2) unfolding b d by simp
  with f d show ?thesis by simp
qed

lemma example_lookup:
  "exchangeLookup (exampleExchanges cA cB vA) ''alpha'' = Some (exampleVenue ''alpha'' 100 alphaBook vA cA)"
  "exchangeLookup (exampleExchanges cA cB vA) ''beta'' = Some (exampleVenue ''beta'' 120 betaBook (Some (Fin 1000000)) cB)"
  by (simp_all add: exchangeLookup_def exampleExchanges_def exampleVenue_def)

lemma example_collectPairs:
  "collectPairs (exampleExchanges cA cB vA) = Inr [(''BTCUSDT'', [''alpha'', ''beta''])]"
  by (simp add: collectPairs_def exampleExchanges_def exampleVenue_def pushExchange_def)

lemma example_collectPrices:
  "collectPrices (exampleExchanges cA cB vA) [(''BTCUSDT'', [''alpha'', ''beta''])]
     = Inr [(''BTCUSDT'', [(''alpha'', Fin 100), (''beta'', Fin 120)])]"
  by (simp add: collectPrices_def exampleExchanges_def exampleVenue_def symbolsForExchange_def
      setPrice_def)

lemma toFixed_examples:
  "toFixedNumber 2 (Fin 20) = Fin 20"
  "toFixedNumber 2 (Fin (19780 / 1001)) = Fin (494 / 25)"
  "toFixedNumber 2 (Fin (989 / 50)) = Fin (989 / 50)"
  by simp_all

lemma example_feesOf:
  "feesOf (exampleExchanges cA cB vA) ''alpha'' = Some \<lparr>takerFeePercent = Fin (1 / 10), transferFeePercent = Some (Fin 0)\<rparr>"
  "feesOf (exampleExchanges cA cB vA) ''beta'' = Some \<lparr>takerFeePercent = Fin (1 / 10), transferFeePercent = Some (Fin 0)\<rparr>"
  by (simp_all add: feesOf_def example_lookup) (simp_all add: exampleVenue_def)

lemma example_findArbitrage:
  "findArbitrage (exampleExchanges cA cB vA) [(''BTCUSDT'', [(''alpha'', Fin 100), (''beta'', Fin 120)])] (Fin (1 / 2))
     = [exampleCandidate]"
  by (simp add: findArbitrage_def List.map_filter_def candidateFor_def example_feesOf buildLeg_def
      pickBuy_def pickSell_def netDiffOf_def Math_min_def Math_max_def js_min_def js_max_def
      js_gt_def Let_def exampleCandidate_def)

lemma example_constants:
  "MIN_24H_VOLUME defaultEnv = Fin 50000"
  "MAX_SLIPPAGE_PERCENT defaultEnv = Fin (8 / 10)"
  "MIN_REAL_PROFIT_USD defaultEnv = Fin 5"
  "DEFAULT_TRADE_AMOUNT defaultEnv = Fin 100"
  "DEFAULT_MIN_DIFF_PERCENT defaultEnv = Fin (1 / 2)"
  by (simp_all add: MIN_24H_VOLUME_def MAX_SLIPPAGE_PERCENT_def MIN_REAL_PROFIT_USD_def
      DEFAULT_TRADE_AMOUNT_def DEFAULT_MIN_DIFF_PERCENT_def defaultEnv_def readNumberEnv_def)

lemma example_fills:
  "vwapBuyForQuoteAmount alphaBook (Fin 100) = Some \<lparr>executablePrice = Fin 100, baseAmount = Fin 1\<rparr>"
  "vwapSellForBaseAmount betaBook (Fin 1) = Some \<lparr>executablePrice = Fin 120, baseAmount = Fin 1\<rparr>"
  by (simp_all add: vwapBuyForQuoteAmount_def vwapSellForBaseAmount_def alphaBook_def betaBook_def
      js_gt_def Let_def)

lemma example_capabilities:
  "name (exampleVenue nm p book vol cur) = nm"
  "getTickers24h (exampleVenue nm p book vol cur) =
     Some (\<lambda>symbols. Inr [''BTCUSDT'' \<mapsto> \<lparr>lastPrice = Some (Fin p), quoteVolume24h = vol\<rparr>])"
  "getOrderBook (exampleVenue nm p book vol cur) = Some (\<lambda>smb. Inr (Some book))"
  "getCurrencies (exampleVenue nm p book vol cur) = cur"
  by (simp_all add: exampleVenue_def)

lemma example_symbolsByExchange:
  "symbolsByExchange (exampleExchanges cA cB vA) [exampleCandidate] =
     [(''alpha'', [''BTCUSDT'']), (''beta'', [''BTCUSDT''])]"
  by (simp add: symbolsByExchange_def example_lookup example_capabilities addSymbol_def
      exampleCandidate_def Let_def)

lemma example_volumes:
  "quoteVolumeOf (tickersCache (exampleExchanges cA cB vA) [exampleCandidate]) ''alpha'' ''BTCUSDT'' = vA"
  "quoteVolumeOf (tickersCache (exampleExchanges cA cB vA) [exampleCandidate]) ''beta'' ''BTCUSDT''
     = Some (Fin 1000000)"
  by (simp_all add: quoteVolumeOf_def tickersCache_def example_symbolsByExchange List.map_filter_def
      example_lookup example_capabilities)

lemma example_currencies:
  "cachedCurrencies (currenciesCache (exampleExchanges cA cB vA) [exampleCandidate]) ''alpha''
     = (case cA of None \<Rightarrow> None | Some r \<Rightarrow> (case r of Inl e \<Rightarrow> None | Inr d \<Rightarrow> d))"
  "cachedCurrencies (currenciesCache (exampleExchanges cA cB vA) [exampleCandidate]) ''beta''
     = (case cB of None \<Rightarrow> None | Some r \<Rightarrow> (case r of Inl e \<Rightarrow> None | Inr d \<Rightarrow> d))"
  by (cases cA; cases cB;
      simp add: cachedCurrencies_def currenciesCache_def exchangesNeedingCurrencies_def
        List.map_filter_def example_lookup example_capabilities exampleCandidate_def
        split: sum.splits)+

lemma example_books:
  "safeOrderBook (exampleVenue nm p book vol cur) smb = Some book"
  by (simp add: safeOrderBook_def example_capabilities)

lemma example_validateOpportunity:
  "validateOpportunity (exampleExchanges None None (Some (Fin 1000000))) defaultEnv
     (tickersCache (exampleExchanges None None (Some (Fin 1000000))) [exampleCandidate])
     (currenciesCache (exampleExchanges None None (Some (Fin 1000000))) [exampleCandidate])
     exampleCandidate
   = ([(''alpha'', ''BTCUSDT''), (''beta'', ''BTCUSDT'')], Some exampleValidated)"
proof -
  have c: "symbol exampleCandidate = ''BTCUSDT''" "exchange (buy exampleCandidate) = ''alpha''"
    "exchange (sell exampleCandidate) = ''beta''"
    "feePercentApplied (buy exampleCandidate) = Fin (1 / 10)"
    "feePercentApplied (sell exampleCandidate) = Fin (1 / 10)"
    by (simp_all add: exampleCandidate_def)
  have b: "asks alphaBook = [(Fin 100, Fin 1000)]" "bids betaBook = [(Fin 120, Fin 1000)]"
    by (simp_all add: alphaBook_def betaBook_def)
  show ?thesis
    unfolding validateOpportunity_def c example_lookup option.case example_capabilities
      example_volumes example_books example_currencies example_constants
    by (simp add: Let_def firstPrice_def b example_fills buySlippagePercent_def
        sellSlippagePercent_def js_gt_def validateTransferabilityFromCache_def
        buildLegValidationRequired_def exampleValidated_def example_capabilities)
qed

lemma validateOpportunity_staged:
  "validateOpportunity exs env tickers currencies opp =
     (case exchangeLookup exs (exchange (buy opp)) of None \<Rightarrow> ([], None) | Some buyEx \<Rightarrow>
      case exchangeLookup exs (exchange (sell opp)) of None \<Rightarrow> ([], None) | Some sellEx \<Rightarrow>
      let buyVol = quoteVolumeOf tickers (name buyEx) (symbol opp);
          sellVol = quoteVolumeOf tickers (name sellEx) (symbol opp);
          reasons1 = liquidityReasons env buyEx sellEx buyVol sellVol @ unsupportedReasons buyEx sellEx;
          rej = (\<lambda>rs. Some (attachValidation env opp Rejected rs buyVol sellVol None None None))
      in if reasons1 \<noteq> [] then ([], rej reasons1)
         else
      case safeOrderBook buyEx (symbol opp) of
        None \<Rightarrow> ([(name buyEx, symbol opp)], rej [BuyBookUnavailable (name buyEx)])
      | Some buyBook \<Rightarrow>
      let fetches = [(name buyEx, symbol opp), (name sellEx, symbol opp)] in
      case safeOrderBook sellEx (symbol opp) of
        None \<Rightarrow> (fetches, rej [SellBookUnavailable (name sellEx)])
      | Some sellBook \<Rightarrow>
      case finitePrice (firstPrice (asks buyBook)) of
        None \<Rightarrow> (fetches, rej [BestAskMissing (name buyEx)])
      | Some bestAskPrice \<Rightarrow>
      case finitePrice (firstPrice (bids sellBook)) of
        None \<Rightarrow> (fetches, rej [BestBidMissing (name sellEx)])
      | Some bestBidPrice \<Rightarrow>
      case vwapBuyForQuoteAmount buyBook (DEFAULT_TRADE_AMOUNT env) of
        None \<Rightarrow> (fetches, rej [InsufficientBuyDepth (DEFAULT_TRADE_AMOUNT env) (name buyEx)])
      | Some buyFill \<Rightarrow>
      case vwapSellForBaseAmount sellBook (baseAmount buyFill) of
        None \<Rightarrow> (fetches, rej [InsufficientSellDepth (name sellEx)])
      | Some sellFill \<Rightarrow>
          (fetches, Some (validateTail env currencies opp buyEx sellEx buyVol sellVol reasons1
                            bestAskPrice bestBidPrice buyFill sellFill)))"
  unfolding validateOpportunity_def validateTail_def liquidityReasons_def unsupportedReasons_def
    finitePrice_def Let_def
  by (simp split: option.splits)

lemma attach_projections [simp]:
  "reasonsOf (attachValidation env opp st rs bv sv bp sp tr) = rs"
  "transferStatusOf (attachValidation env opp st rs bv sv bp sp tr) = map_option tStatus tr"
  "isValidated (attachValidation env opp st rs bv sv bp sp tr) = (st = Validated)"
  "symbol (attachValidation env opp st rs bv sv bp sp tr) = symbol opp"
  "buy (attachValidation env opp st rs bv sv bp sp tr) = buy opp"
  "sell (attachValidation env opp st rs bv sv bp sp tr) = sell opp"
  "realProfitUsd (attachValidation env opp st rs bv sv bp sp tr) = realProfitUsd opp"
  by (cases tr; simp add: reasonsOf_def transferStatusOf_def isValidated_def attachValidation_def)+

text \<open>The three outcomes of the part of the validator that follows the two fills.\<close>

lemma validateTail_cases:
  fixes env cc opp buyEx sellEx buyVol sellVol ba bb buyFill sellFill
  defines "out \<equiv> validateTail env cc opp buyEx sellEx buyVol sellVol [] ba bb buyFill sellFill"
  defines "tr \<equiv> validateTransferabilityFromCache (cachedCurrencies cc (name buyEx))
                  (cachedCurrencies cc (name sellEx)) buyEx sellEx (baseFromSymbolUsdt (symbol opp))"
  defines "bs \<equiv> buySlippagePercent (executablePrice buyFill) ba"
  defines "ss \<equiv> sellSlippagePercent bb (executablePrice sellFill)"
  defines "rp \<equiv> realProfitOf env opp sellFill"
  shows "(\<not> isValidated out \<and> reasonsOf out \<noteq> [] \<and> transferStatusOf out = None
            \<and> realProfitUsd out = realProfitUsd opp
            \<and> (js_gt bs (MAX_SLIPPAGE_PERCENT env) \<or> js_gt ss (MAX_SLIPPAGE_PERCENT env))
            \<and> (\<forall>r \<in> set (reasonsOf out). r = BuySlippageHigh bs \<or> r = SellSlippageHigh ss))
       \<or> (\<not> isValidated out \<and> reasonsOf out = [TransferCheck (tStatus tr) (tReason tr)]
            \<and> transferStatusOf out = Some (tStatus tr)
            \<and> realProfitUsd out = realProfitUsd opp
            \<and> \<not> js_gt bs (MAX_SLIPPAGE_PERCENT env) \<and> \<not> js_gt ss (MAX_SLIPPAGE_PERCENT env)
            \<and> (tStatus tr = Unknown \<or> tStatus tr = Blocked))
       \<or> (\<not> isValidated out \<and> reasonsOf out = [RealProfitLow rp]
            \<and> transferStatusOf out = Some (tStatus tr)
            \<and> realProfitUsd out = Some rp
            \<and> \<not> js_gt bs (MAX_SLIPPAGE_PERCENT env) \<and> \<not> js_gt ss (MAX_SLIPPAGE_PERCENT env)
            \<and> tStatus tr \<noteq> Unknown \<and> tStatus tr \<noteq> Blocked
            \<and> js_lt rp (MIN_REAL_PROFIT_USD env))
       \<or> (isValidated out \<and> reasonsOf out = []
            \<and> transferStatusOf out = Some (tStatus tr)
            \<and> realProfitUsd out = Some (toFixedNumber 2 rp)
            \<and> \<not> js_gt bs (MAX_SLIPPAGE_PERCENT env) \<and> \<not> js_gt ss (MAX_SLIPPAGE_PERCENT env)
            \<and> tStatus tr \<noteq> Unknown \<and> tStatus tr \<noteq> Blocked
            \<and> \<not> js_lt rp (MIN_REAL_PROFIT_USD env))"
proof -
  let ?rs = "(if js_gt bs (MAX_SLIPPAGE_PERCENT env) then [BuySlippageHigh bs] else []) @
            (if js_gt ss (MAX_SLIPPAGE_PERCENT env) then [SellSlippageHigh ss] else [])"
  show ?thesis
  proof (cases "?rs = []")
    case False
    then have "out = attachValidation env opp Rejected ?rs buyVol sellVol
        (Some (legPartial ba (executablePrice buyFill) bs)) (Some (legPartial bb (executablePrice sellFill) ss)) None"
      unfolding out_def validateTail_def bs_def ss_def by (simp add: Let_def)
    then show ?thesis using False by (auto split: if_splits)
  next
    case True
    then have slip: "\<not> js_gt bs (MAX_SLIPPAGE_PERCENT env)" "\<not> js_gt ss (MAX_SLIPPAGE_PERCENT env)"
      by (auto split: if_splits)
    show ?thesis
    proof (cases "tStatus tr = Unknown \<or> tStatus tr = Blocked")
      case True
      then have "out = attachValidation env opp Rejected [TransferCheck (tStatus tr) (tReason tr)] buyVol sellVol
        (Some (legPartial ba (executablePrice buyFill) bs)) (Some (legPartial bb (executablePrice sellFill) ss)) (Some tr)"
        using slip unfolding out_def validateTail_def bs_def ss_def tr_def by (simp add: Let_def)
      then show ?thesis using True slip by simp
    next
      case ntr: False
      show ?thesis
      proof (cases "js_lt rp (MIN_REAL_PROFIT_USD env)")
        case True
        then have "out = attachValidation env
              (opp\<lparr>tradeAmountUsd := Some (DEFAULT_TRADE_AMOUNT env), realProfitUsd := Some rp\<rparr>)
              Rejected [RealProfitLow rp] buyVol sellVol
              (Some (legPartial ba (executablePrice buyFill) bs))
              (Some (legPartial bb (executablePrice sellFill) ss)) (Some tr)"
          using slip ntr unfolding out_def validateTail_def bs_def ss_def tr_def rp_def realProfitOf_def
          by (simp add: Let_def)
        then show ?thesis using True slip ntr by simp
      next
        case False
        then have "isValidated out \<and> reasonsOf out = []
            \<and> transferStatusOf out = Some (tStatus tr)
            \<and> realProfitUsd out = Some (toFixedNumber 2 rp)"
          using slip ntr unfolding out_def validateTail_def bs_def ss_def tr_def rp_def realProfitOf_def
          by (simp add: Let_def isValidated_def reasonsOf_def transferStatusOf_def)
        then show ?thesis using False slip ntr by simp
      qed
    qed
  qed
qed

lemma validateOpportunity_cases:
  fixes exs env tc cc opp buyEx sellEx
  defines "V \<equiv> validateOpportunity exs env tc cc opp"
  defines "s \<equiv> symbol opp"
  defines "buyVol \<equiv> quoteVolumeOf tc (name buyEx) (symbol opp)"
  defines "sellVol \<equiv> quoteVolumeOf tc (name sellEx) (symbol opp)"
  defines "rs1 \<equiv> liquidityReasons env buyEx sellEx buyVol sellVol @ unsupportedReasons buyEx sellEx"
  defines "rej \<equiv> (\<lambda>rs. Some (attachValidation env opp Rejected rs buyVol sellVol None None None))"
  defines "F \<equiv> [(name buyEx, symbol opp), (name sellEx, symbol opp)]"
  assumes L: "exchangeLookup exs (exchange (buy opp)) = Some buyEx"
    "exchangeLookup exs (exchange (sell opp)) = Some sellEx"
  shows "(rs1 \<noteq> [] \<and> V = ([], rej rs1))
    \<or> (rs1 = [] \<and> safeOrderBook buyEx s = None
          \<and> V = ([(name buyEx, s)], rej [BuyBookUnavailable (name buyEx)]))
    \<or> (rs1 = [] \<and> (\<exists>buyBook. safeOrderBook buyEx s = Some buyBook \<and>
         (safeOrderBook sellEx s = None \<and> V = (F, rej [SellBookUnavailable (name sellEx)])
          \<or> (\<exists>sellBook. safeOrderBook sellEx s = Some sellBook \<and>
               (finitePrice (firstPrice (asks buyBook)) = None
                  \<and> V = (F, rej [BestAskMissing (name buyEx)])
                \<or> (\<exists>ba. finitePrice (firstPrice (asks buyBook)) = Some ba \<and>
                     (finitePrice (firstPrice (bids sellBook)) = None
                        \<and> V = (F, rej [BestBidMissing (name sellEx)])
                      \<or> (\<exists>bb. finitePrice (firstPrice (bids sellBook)) = Some bb \<and>
                           (vwapBuyForQuoteAmount buyBook (DEFAULT_TRADE_AMOUNT env) = None
                              \<and> V = (F, rej [InsufficientBuyDepth (DEFAULT_TRADE_AMOUNT env) (name buyEx)])
                            \<or> (\<exists>buyFill. vwapBuyForQuoteAmount buyBook (DEFAULT_TRADE_AMOUNT env) = Some buyFill \<and>
                                 (vwapSellForBaseAmount sellBook (baseAmount buyFill) = None
                                    \<and> V = (F, rej [InsufficientSellDepth (name sellEx)])
                                  \<or> (\<exists>sellFill. vwapSellForBaseAmount sellBook (baseAmount buyFill) = Some sellFill
                                       \<and> V = (F, Some (validateTail env cc opp buyEx sellEx buyVol sellVol []
                                                   ba bb buyFill sellFill))))))))))))))"
  unfolding V_def validateOpportunity_staged L option.case Let_def s_def rs1_def buyVol_def sellVol_def
    rej_def F_def
  by (auto split: option.splits)

lemma validate_outcome:
  fixes exs env tc cc opp buyEx sellEx
  defines "rs1 \<equiv> liquidityReasons env buyEx sellEx (quoteVolumeOf tc (name buyEx) (symbol opp))
                    (quoteVolumeOf tc (name sellEx) (symbol opp)) @ unsupportedReasons buyEx sellEx"
  defines "tr \<equiv> validateTransferabilityFromCache (cachedCurrencies cc (name buyEx))
                  (cachedCurrencies cc (name sellEx)) buyEx sellEx (baseFromSymbolUsdt (symbol opp))"
  defines "F \<equiv> [(name buyEx, symbol opp), (name sellEx, symbol opp)]"
  assumes L: "exchangeLookup exs (exchange (buy opp)) = Some buyEx"
    "exchangeLookup exs (exchange (sell opp)) = Some sellEx"
    and V: "validateOpportunity exs env tc cc opp = (fs, Some out)"
  shows "(rs1 \<noteq> [] \<and> fs = [] \<and> reasonsOf out = rs1 \<and> \<not> isValidated out
            \<and> transferStatusOf out = None \<and> realProfitUsd out = realProfitUsd opp)
    \<or> (rs1 = [] \<and> fs \<noteq> [] \<and> \<not> isValidated out \<and> transferStatusOf out = None
          \<and> realProfitUsd out = realProfitUsd opp
          \<and> reasonsOf out \<noteq> [] \<and> (\<forall>r \<in> set (reasonsOf out). reasonCheck r = 2))
    \<or> (rs1 = [] \<and> fs = F \<and> \<not> isValidated out
          \<and> reasonsOf out = [TransferCheck (tStatus tr) (tReason tr)]
          \<and> transferStatusOf out = Some (tStatus tr) \<and> realProfitUsd out = realProfitUsd opp
          \<and> (tStatus tr = Unknown \<or> tStatus tr = Blocked))
    \<or> (rs1 = [] \<and> fs = F \<and> tStatus tr \<noteq> Unknown \<and> tStatus tr \<noteq> Blocked
          \<and> transferStatusOf out = Some (tStatus tr)
          \<and> (\<exists>buyBook sellBook buyFill sellFill.
                safeOrderBook buyEx (symbol opp) = Some buyBook
              \<and> safeOrderBook sellEx (symbol opp) = Some sellBook
              \<and> vwapBuyForQuoteAmount buyBook (DEFAULT_TRADE_AMOUNT env) = Some buyFill
              \<and> vwapSellForBaseAmount sellBook (baseAmount buyFill) = Some sellFill
              \<and> (\<not> isValidated out \<and> reasonsOf out = [RealProfitLow (realProfitOf env opp sellFill)]
                    \<and> realProfitUsd out = Some (realProfitOf env opp sellFill)
                    \<and> js_lt (realProfitOf env opp sellFill) (MIN_REAL_PROFIT_USD env)
                  \<or> isValidated out \<and> reasonsOf out = []
                    \<and> realProfitUsd out = Some (toFixedNumber 2 (realProfitOf env opp sellFill))
                    \<and> \<not> js_lt (realProfitOf env opp sellFill) (MIN_REAL_PROFIT_USD env))))"
proof -
  note C = validateOpportunity_cases [OF L, of env tc cc, unfolded V, folded rs1_def F_def]
  from C show ?thesis
  proof (elim disjE exE conjE, goal_cases)
    case 1
    then show ?case by simp
  next
    case 2
    then show ?case by simp
  next
    case (3 buyBook)
    then show ?case by (simp add: F_def)
  next
    case (4 buyBook sellBook)
    then show ?case by (simp add: F_def)
  next
    case (5 buyBook sellBook ba)
    then show ?case by (simp add: F_def)
  next
    case (6 buyBook sellBook ba bb)
    then show ?case by (simp add: F_def)
  next
    case (7 buyBook sellBook ba bb buyFill)
    then show ?case by (simp add: F_def)
  next
    case (8 buyBook sellBook ba bb buyFill sellFill)
    then have out: "out = validateTail env cc opp buyEx sellEx (quoteVolumeOf tc (name buyEx) (symbol opp))
        (quoteVolumeOf tc (name sellEx) (symbol opp)) [] ba bb buyFill sellFill" and fs: "fs = F"
      by simp_all
    note T = validateTail_cases [of env cc opp buyEx sellEx "quoteVolumeOf tc (name buyEx) (symbol opp)"
        "quoteVolumeOf tc (name sellEx) (symbol opp)" ba bb buyFill sellFill, folded out tr_def]
    let ?bs = "buySlippagePercent (executablePrice buyFill) ba"
    let ?ss = "sellSlippagePercent bb (executablePrice sellFill)"
    let ?rp = "realProfitOf env opp sellFill"
    from T consider
        (slip) "\<not> isValidated out" "reasonsOf out \<noteq> []" "transferStatusOf out = None"
          "realProfitUsd out = realProfitUsd opp"
          "\<forall>r \<in> set (reasonsOf out). r = BuySlippageHigh ?bs \<or> r = SellSlippageHigh ?ss"
      | (transfer) "\<not> isValidated out" "reasonsOf out = [TransferCheck (tStatus tr) (tReason tr)]"
          "transferStatusOf out = Some (tStatus tr)" "realProfitUsd out = realProfitUsd opp"
          "tStatus tr = Unknown \<or> tStatus tr = Blocked"
      | (low) "\<not> isValidated out" "reasonsOf out = [RealProfitLow ?rp]"
          "transferStatusOf out = Some (tStatus tr)" "realProfitUsd out = Some ?rp"
          "tStatus tr \<noteq> Unknown" "tStatus tr \<noteq> Blocked" "js_lt ?rp (MIN_REAL_PROFIT_USD env)"
      | (ok) "isValidated out" "reasonsOf out = []"
          "transferStatusOf out = Some (tStatus tr)" "realProfitUsd out = Some (toFixedNumber 2 ?rp)"
          "tStatus tr \<noteq> Unknown" "tStatus tr \<noteq> Blocked" "\<not> js_lt ?rp (MIN_REAL_PROFIT_USD env)"
      by (elim disjE conjE) simp_all
    then show ?case
    proof cases
      case slip
      have "\<forall>r \<in> set (reasonsOf out). reasonCheck r = 2"
        using slip(5) by auto
      with slip 8(1) fs have "rs1 = [] \<and> fs \<noteq> [] \<and> \<not> isValidated out \<and> transferStatusOf out = None
          \<and> realProfitUsd out = realProfitUsd opp
          \<and> reasonsOf out \<noteq> [] \<and> (\<forall>r \<in> set (reasonsOf out). reasonCheck r = 2)"
        by (simp add: F_def)
      then show ?thesis by (rule disjI2 [OF disjI1])
    next
      case transfer
      with 8(1) fs have "rs1 = [] \<and> fs = F \<and> \<not> isValidated out
          \<and> reasonsOf out = [TransferCheck (tStatus tr) (tReason tr)]
          \<and> transferStatusOf out = Some (tStatus tr) \<and> realProfitUsd out = realProfitUsd opp
          \<and> (tStatus tr = Unknown \<or> tStatus tr = Blocked)"
        by simp
      then show ?thesis by (rule disjI2 [OF disjI2 [OF disjI1]])
    next
      case low
      with 8(1,2,3,6,7) fs have "rs1 = [] \<and> fs = F \<and> tStatus tr \<noteq> Unknown \<and> tStatus tr \<noteq> Blocked
          \<and> transferStatusOf out = Some (tStatus tr)
          \<and> (\<exists>buyBook sellBook buyFill sellFill.
                safeOrderBook buyEx (symbol opp) = Some buyBook
              \<and> safeOrderBook sellEx (symbol opp) = Some sellBook
              \<and> vwapBuyForQuoteAmount buyBook (DEFAULT_TRADE_AMOUNT env) = Some buyFill
              \<and> vwapSellForBaseAmount sellBook (baseAmount buyFill) = Some sellFill
              \<and> (\<not> isValidated out \<and> reasonsOf out = [RealProfitLow (realProfitOf env opp sellFill)]
                    \<and> realProfitUsd out = Some (realProfitOf env opp sellFill)
                    \<and> js_lt (realProfitOf env opp sellFill) (MIN_REAL_PROFIT_USD env)
                  \<or> isValidated out \<and> reasonsOf out = []
                    \<and> realProfitUsd out = Some (toFixedNumber 2 (realProfitOf env opp sellFill))
                    \<and> \<not> js_lt (realProfitOf env opp sellFill) (MIN_REAL_PROFIT_USD env)))"
        by (intro conjI exI [of _ buyBook] exI [of _ sellBook] exI [of _ buyFill] exI [of _ sellFill])
           simp_all
      then show ?thesis by (rule disjI2 [OF disjI2 [OF disjI2]])
    next
      case ok
      with 8(1,2,3,6,7) fs have "rs1 = [] \<and> fs = F \<and> tStatus tr \<noteq> Unknown \<and> tStatus tr \<noteq> Blocked
          \<and> transferStatusOf out = Some (tStatus tr)
          \<and> (\<exists>buyBook sellBook buyFill sellFill.
                safeOrderBook buyEx (symbol opp) = Some buyBook
              \<and> safeOrderBook sellEx (symbol opp) = Some sellBook
              \<and> vwapBuyForQuoteAmount buyBook (DEFAULT_TRADE_AMOUNT env) = Some buyFill
              \<and> vwapSellForBaseAmount sellBook (baseAmount buyFill) = Some sellFill
              \<and> (\<not> isValidated out \<and> reasonsOf out = [RealProfitLow (realProfitOf env opp sellFill)]
                    \<and> realProfitUsd out = Some (realProfitOf env opp sellFill)
                    \<and> js_lt (realProfitOf env opp sellFill) (MIN_REAL_PROFIT_USD env)
                  \<or> isValidated out \<and> reasonsOf out = []
                    \<and> realProfitUsd out = Some (toFixedNumber 2 (realProfitOf env opp sellFill))
                    \<and> \<not> js_lt (realProfitOf env opp sellFill) (MIN_REAL_PROFIT_USD env)))"
        by (intro conjI exI [of _ buyBook] exI [of _ sellBook] exI [of _ buyFill] exI [of _ sellFill])
           simp_all
      then show ?thesis by (rule disjI2 [OF disjI2 [OF disjI2]])
    qed
  qed
qed

lemma exchangeLookup_name: "exchangeLookup exs nm = Some ex \<Longrightarrow> name ex = nm"
  unfolding exchangeLookup_def by (auto dest!: map_of_SomeD)

lemma exchangeLookup_mem: "exchangeLookup exs nm = Some ex \<Longrightarrow> ex \<in> set exs"
  unfolding exchangeLookup_def by (auto dest!: map_of_SomeD)

lemma cache_unavailable:
  assumes "exchangeLookup exs nm = Some ex" "currenciesUnavailable ex"
  shows "cachedCurrencies (currenciesCache exs opps) nm = None"
proof (cases "currenciesCache exs opps nm")
  case None
  then show ?thesis by (simp add: cachedCurrencies_def)
next
  case (Some v)
  then have "(nm, v) \<in> set (List.map_filter
       (\<lambda>nm. case exchangeLookup exs nm of
            None \<Rightarrow> None
          | Some ex \<Rightarrow>
              (case getCurrencies ex of
                 None \<Rightarrow> None
               | Some r \<Rightarrow> Some (nm, (case r of Inl e \<Rightarrow> None | Inr data \<Rightarrow> data))))
       (exchangesNeedingCurrencies opps))"
    unfolding currenciesCache_def by (rule map_of_SomeD)
  then have "v = None"
    using assms by (auto simp: List.map_filter_def currenciesUnavailable_def
        split: option.splits sum.splits)
  with Some show ?thesis by (simp add: cachedCurrencies_def)
qed

lemma transfer_unavailable:
  "bc = None \<or> sc = None \<Longrightarrow>
   tStatus (validateTransferabilityFromCache bc sc buyEx sellEx cur) = Unavailable"
  by (auto simp: validateTransferabilityFromCache_def split: option.splits)

lemma liquidityReasons_check:
  "r \<in> set (liquidityReasons env buyEx sellEx buyVol sellVol) \<Longrightarrow> reasonCheck r = 1"
  by (auto simp: liquidityReasons_def split: option.splits if_splits)

lemma liquidityReasons_fails:
  "liquidityReasons env buyEx sellEx buyVol sellVol \<noteq> [] \<longleftrightarrow> liquidityFails env buyVol sellVol"
  by (auto simp: liquidityReasons_def liquidityFails_def split: option.splits)

lemma unsupportedReasons_form:
  "r \<in> set (unsupportedReasons buyEx sellEx) \<Longrightarrow> \<exists>n. r = OrderBookUnsupported n"
  by (auto simp: unsupportedReasons_def split: if_splits)

lemma validateOpportunities_mem:
  "out \<in> set (validateOpportunities exs env opps) \<longleftrightarrow>
     isValidated out \<and>
     (\<exists>opp \<in> set opps. snd (validateOpportunity exs env (tickersCache exs opps)
                               (currenciesCache exs opps) opp) = Some out)"
  by (auto simp: validateOpportunities_def validatedAll_def List.map_filter_def image_iff)

lemma validateOpportunity_Some:
  assumes "exchangeLookup exs (exchange (buy opp)) = Some buyEx"
    "exchangeLookup exs (exchange (sell opp)) = Some sellEx"
  shows "\<exists>out. snd (validateOpportunity exs env tc cc opp) = Some out"
  using validateOpportunity_cases [OF assms, of env tc cc] by auto


lemma example_validated_projections:
  "isValidated exampleValidated"
  "transferStatusOf exampleValidated = Some Unavailable"
  "reasonsOf exampleValidated = []"
  "realProfitUsd exampleValidated = Some (Fin (989 / 50))"
  by (simp_all add: exampleValidated_def isValidated_def transferStatusOf_def reasonsOf_def)

lemma example_validateOpportunities:
  "validateOpportunities (exampleExchanges None None (Some (Fin 1000000))) defaultEnv [exampleCandidate]
     = [exampleValidated]"
  by (simp add: validateOpportunities_def validatedAll_def example_validateOpportunity
      List.map_filter_def example_validated_projections)

lemma example_scan:
  "getArbitrageOpportunities (exampleExchanges None None (Some (Fin 1000000))) defaultEnv None
     = Inr [exampleValidated]"
  by (simp add: getArbitrageOpportunities_def example_collectPairs example_collectPrices
      example_constants example_findArbitrage example_validateOpportunities)



lemma noBook_lookup:
  "exchangeLookup noBookExchanges ''alpha''
     = Some ((exampleVenue ''alpha'' 100 alphaBook None None)\<lparr>getOrderBook := None\<rparr>)"
  "exchangeLookup noBookExchanges ''beta''
     = Some (exampleVenue ''beta'' 120 betaBook (Some (Fin 1000000)) None)"
  by (simp_all add: exchangeLookup_def noBookExchanges_def exampleVenue_def)

lemma noBook_capabilities:
  "name ((exampleVenue nm p book vol cur)\<lparr>getOrderBook := None\<rparr>) = nm"
  "getTickers24h ((exampleVenue nm p book vol cur)\<lparr>getOrderBook := None\<rparr>) =
     Some (\<lambda>symbols. Inr [''BTCUSDT'' \<mapsto> \<lparr>lastPrice = Some (Fin p), quoteVolume24h = vol\<rparr>])"
  "getOrderBook ((exampleVenue nm p book vol cur)\<lparr>getOrderBook := None\<rparr>) = None"
  by (simp_all add: exampleVenue_def)

lemma noBook_symbolsByExchange:
  "symbolsByExchange noBookExchanges [exampleCandidate] =
     [(''alpha'', [''BTCUSDT'']), (''beta'', [''BTCUSDT''])]"
  by (simp add: symbolsByExchange_def noBook_lookup noBook_capabilities example_capabilities
      addSymbol_def exampleCandidate_def Let_def)

lemma noBook_volumes:
  "quoteVolumeOf (tickersCache noBookExchanges [exampleCandidate]) ''alpha'' ''BTCUSDT'' = None"
  "quoteVolumeOf (tickersCache noBookExchanges [exampleCandidate]) ''beta'' ''BTCUSDT''
     = Some (Fin 1000000)"
  by (simp_all add: quoteVolumeOf_def tickersCache_def noBook_symbolsByExchange List.map_filter_def
      noBook_lookup noBook_capabilities example_capabilities)

lemma noBook_validateOpportunity:
  "validateOpportunity noBookExchanges defaultEnv (tickersCache noBookExchanges [exampleCandidate])
     (currenciesCache noBookExchanges [exampleCandidate]) exampleCandidate
   = ([], Some (attachValidation defaultEnv exampleCandidate Rejected
                  [BuyVolumeUnknown ''alpha'', OrderBookUnsupported ''alpha'']
                  None (Some (Fin 1000000)) None None None))"
proof -
  have c: "symbol exampleCandidate = ''BTCUSDT''" "exchange (buy exampleCandidate) = ''alpha''"
    "exchange (sell exampleCandidate) = ''beta''"
    by (simp_all add: exampleCandidate_def)
  show ?thesis
    unfolding validateOpportunity_staged c noBook_lookup option.case noBook_capabilities
      example_capabilities noBook_volumes
    by (simp add: Let_def liquidityReasons_def unsupportedReasons_def example_constants
        noBook_capabilities example_capabilities)
qed

text \<open>
  Claim C7, as stated, fails: the reasons of the liquidity check and the
  order-book-unsupported reasons of the depth check are pushed before the first return.
  A candidate whose buy venue reports no 24h volume and has no \<open>getOrderBook\<close> is rejected
  with a reason of check 1 and a reason of check 2.
\<close>

theorem mixed_reasons_counterexample:
  "map_option reasonsOf
     (snd (validateOpportunity noBookExchanges defaultEnv (tickersCache noBookExchanges [exampleCandidate])
             (currenciesCache noBookExchanges [exampleCandidate]) exampleCandidate))
     = Some [BuyVolumeUnknown ''alpha'', OrderBookUnsupported ''alpha'']
   \<and> map reasonCheck [BuyVolumeUnknown ''alpha'', OrderBookUnsupported ''alpha''] = [1, 2]"
  by (simp add: noBook_validateOpportunity)

text \<open>
  Claim C7, amended.  The validator runs the checks in order and returns at the first
  one that fails, where the test that both venues expose an order book is made together
  with the liquidity check, before the first return.  A candidate that fails the liquidity
  check (24h volume missing or below \<open>MIN_24H_VOLUME\<close> on either leg) is rejected with at
  least one volume reason, every other reason of it being an order-book-unsupported one,
  and no order book is fetched for it.  Any other rejection carries reasons of one check
  only: of the depth/slippage check (no transfer result, no profit), of the
  transferability check (one reason, status \<open>unknown\<close> or \<open>blocked\<close>, after both books
  were fetched, no profit computed), or of the real-profit check (one reason, after a
  transferability result \<open>ok\<close> or \<open>unavailable\<close>).  A validated candidate has no reason
  and passed the liquidity check.
\<close>

theorem checks_in_order:
  fixes exs env tc cc opp buyEx sellEx fs out
  defines "F \<equiv> [(name buyEx, symbol opp), (name sellEx, symbol opp)]"
  assumes L: "exchangeLookup exs (exchange (buy opp)) = Some buyEx"
    "exchangeLookup exs (exchange (sell opp)) = Some sellEx"
    and V: "validateOpportunity exs env tc cc opp = (fs, Some out)"
  shows "(liquidityFails env (quoteVolumeOf tc (name buyEx) (symbol opp))
                              (quoteVolumeOf tc (name sellEx) (symbol opp)) \<longrightarrow>
            \<not> isValidated out \<and> fs = []
          \<and> (\<exists>r \<in> set (reasonsOf out). reasonCheck r = 1)
          \<and> (\<forall>r \<in> set (reasonsOf out). reasonCheck r = 1 \<or> (\<exists>n. r = OrderBookUnsupported n)))
    \<and> (\<not> liquidityFails env (quoteVolumeOf tc (name buyEx) (symbol opp))
                              (quoteVolumeOf tc (name sellEx) (symbol opp)) \<and> \<not> isValidated out \<longrightarrow>
            reasonsOf out \<noteq> []
          \<and> (\<exists>c. 2 \<le> c \<and> c \<le> 4 \<and> (\<forall>r \<in> set (reasonsOf out). reasonCheck r = c)))
    \<and> (isValidated out \<longrightarrow>
            reasonsOf out = [] \<and> fs = F
          \<and> \<not> liquidityFails env (quoteVolumeOf tc (name buyEx) (symbol opp))
                              (quoteVolumeOf tc (name sellEx) (symbol opp)))
    \<and> ((\<exists>r \<in> set (reasonsOf out). reasonCheck r = 2) \<and> fs \<noteq> [] \<longrightarrow>
            transferStatusOf out = None \<and> realProfitUsd out = realProfitUsd opp)
    \<and> ((\<exists>r \<in> set (reasonsOf out). reasonCheck r = 3) \<longrightarrow>
            fs = F \<and> length (reasonsOf out) = 1 \<and> realProfitUsd out = realProfitUsd opp
          \<and> (transferStatusOf out = Some Unknown \<or> transferStatusOf out = Some Blocked))
    \<and> ((\<exists>r \<in> set (reasonsOf out). reasonCheck r = 4) \<longrightarrow>
            fs = F \<and> length (reasonsOf out) = 1
          \<and> (transferStatusOf out = Some Ok \<or> transferStatusOf out = Some Unavailable))"
proof -
  let ?lr = "liquidityReasons env buyEx sellEx (quoteVolumeOf tc (name buyEx) (symbol opp))
                    (quoteVolumeOf tc (name sellEx) (symbol opp))"
  let ?ur = "unsupportedReasons buyEx sellEx"
  let ?tr = "validateTransferabilityFromCache (cachedCurrencies cc (name buyEx))
                  (cachedCurrencies cc (name sellEx)) buyEx sellEx (baseFromSymbolUsdt (symbol opp))"
  let ?lf = "liquidityFails env (quoteVolumeOf tc (name buyEx) (symbol opp))
                              (quoteVolumeOf tc (name sellEx) (symbol opp))"
  have lf: "?lf \<longleftrightarrow> ?lr \<noteq> []" by (simp add: liquidityReasons_fails)
  have c1: "\<forall>r \<in> set ?lr. reasonCheck r = 1" using liquidityReasons_check by blast
  have c2: "\<forall>r \<in> set ?ur. reasonCheck r = 2 \<and> (\<exists>n. r = OrderBookUnsupported n)"
    using unsupportedReasons_form by fastforce
  have st: "tStatus ?tr = Ok \<or> tStatus ?tr = Unknown \<or> tStatus ?tr = Blocked \<or> tStatus ?tr = Unavailable"
    by (cases "tStatus ?tr") simp_all
  from validate_outcome [OF L V, folded F_def]
  consider
      (early) "?lr @ ?ur \<noteq> []" "fs = []" "reasonsOf out = ?lr @ ?ur" "\<not> isValidated out"
        "transferStatusOf out = None" "realProfitUsd out = realProfitUsd opp"
    | (depth) "?lr @ ?ur = []" "fs \<noteq> []" "\<not> isValidated out" "transferStatusOf out = None"
        "realProfitUsd out = realProfitUsd opp" "reasonsOf out \<noteq> []"
        "\<forall>r \<in> set (reasonsOf out). reasonCheck r = 2"
    | (transfer) "?lr @ ?ur = []" "fs = F" "\<not> isValidated out"
        "reasonsOf out = [TransferCheck (tStatus ?tr) (tReason ?tr)]"
        "transferStatusOf out = Some (tStatus ?tr)" "realProfitUsd out = realProfitUsd opp"
        "tStatus ?tr = Unknown \<or> tStatus ?tr = Blocked"
    | (low) sellFill where "?lr @ ?ur = []" "fs = F" "tStatus ?tr \<noteq> Unknown" "tStatus ?tr \<noteq> Blocked"
        "transferStatusOf out = Some (tStatus ?tr)" "\<not> isValidated out"
        "reasonsOf out = [RealProfitLow (realProfitOf env opp sellFill)]"
    | (ok) "?lr @ ?ur = []" "fs = F" "tStatus ?tr \<noteq> Unknown" "tStatus ?tr \<noteq> Blocked"
        "transferStatusOf out = Some (tStatus ?tr)" "isValidated out" "reasonsOf out = []"
    by (elim disjE conjE exE) simp_all
  then show ?thesis
  proof cases
    case early
    have "\<forall>r \<in> set (reasonsOf out). reasonCheck r = 1 \<or> (\<exists>n. r = OrderBookUnsupported n)"
      using c1 c2 early(3) by auto
    moreover have "?lr \<noteq> [] \<longrightarrow> (\<exists>r \<in> set (reasonsOf out). reasonCheck r = 1)"
    proof
      assume "?lr \<noteq> []"
      then obtain r where "r \<in> set ?lr" by (cases ?lr) auto
      with c1 early(3) show "\<exists>r \<in> set (reasonsOf out). reasonCheck r = 1" by auto
    qed
    moreover have "?lr = [] \<longrightarrow> reasonsOf out \<noteq> [] \<and> (\<forall>r \<in> set (reasonsOf out). reasonCheck r = 2)"
      using early(1,3) c2 by auto
    moreover have "\<forall>r \<in> set (reasonsOf out). reasonCheck r \<noteq> 3 \<and> reasonCheck r \<noteq> 4"
      using c1 c2 early(3) by auto
    moreover have "?lr = [] \<longrightarrow> (\<exists>c. 2 \<le> c \<and> c \<le> 4 \<and> (\<forall>r \<in> set (reasonsOf out). reasonCheck r = c))"
      using early(1,3) c2 by (intro impI exI [of _ 2]) auto
    ultimately show ?thesis using early(1,2,4,5,6) lf
      by (intro conjI impI; (blast | force))
  next
    case depth
    have "\<exists>c. 2 \<le> c \<and> c \<le> 4 \<and> (\<forall>r \<in> set (reasonsOf out). reasonCheck r = c)"
      using depth(7) by (intro exI [of _ 2]) auto
    then show ?thesis using depth lf
      by (intro conjI impI; (blast | force))
  next
    case transfer
    then show ?thesis using lf by auto
  next
    case low
    then show ?thesis using lf st by auto
  next
    case ok
    then show ?thesis using lf by simp
  qed
qed

theorem checks_in_order_witness:
  "liquidityFails defaultEnv
     (quoteVolumeOf (tickersCache noBookExchanges [exampleCandidate]) ''alpha'' ''BTCUSDT'')
     (quoteVolumeOf (tickersCache noBookExchanges [exampleCandidate]) ''beta'' ''BTCUSDT'')
   \<and> fst (validateOpportunity noBookExchanges defaultEnv (tickersCache noBookExchanges [exampleCandidate])
             (currenciesCache noBookExchanges [exampleCandidate]) exampleCandidate) = []
   \<and> \<not> isValidated (attachValidation defaultEnv exampleCandidate Rejected
                  [BuyVolumeUnknown ''alpha'', OrderBookUnsupported ''alpha'']
                  None (Some (Fin 1000000)) None None None)"
proof -
  let ?out = "attachValidation defaultEnv exampleCandidate Rejected
                  [BuyVolumeUnknown ''alpha'', OrderBookUnsupported ''alpha'']
                  None (Some (Fin 1000000)) None None None"
  have L: "exchangeLookup noBookExchanges (exchange (buy exampleCandidate))
             = Some ((exampleVenue ''alpha'' 100 alphaBook None None)\<lparr>getOrderBook := None\<rparr>)"
    "exchangeLookup noBookExchanges (exchange (sell exampleCandidate))
             = Some (exampleVenue ''beta'' 120 betaBook (Some (Fin 1000000)) None)"
    by (simp_all add: exampleCandidate_def noBook_lookup)
  have lf: "liquidityFails defaultEnv
     (quoteVolumeOf (tickersCache noBookExchanges [exampleCandidate]) ''alpha'' ''BTCUSDT'')
     (quoteVolumeOf (tickersCache noBookExchanges [exampleCandidate]) ''beta'' ''BTCUSDT'')"
    by (simp add: noBook_volumes liquidityFails_def)
  have s: "symbol exampleCandidate = ''BTCUSDT''" by (simp add: exampleCandidate_def)
  from checks_in_order [OF L noBook_validateOpportunity, THEN conjunct1]
  have "\<not> isValidated ?out \<and> ([] :: (string \<times> string) list) = []"
    using lf by (simp add: noBook_capabilities example_capabilities s)
  with lf show ?thesis by (simp add: noBook_validateOpportunity)
qed

lemma fromEntries_keys_aux:
  "fst ` set (foldl (\<lambda>m (k, v). AList.update k v m) acc es) = fst ` set acc \<union> fst ` set es"
proof (induction es arbitrary: acc)
  case Nil
  show ?case by simp
next
  case (Cons e es)
  obtain k v where e: "e = (k, v)" by (cases e)
  show ?case by (simp add: e Cons.IH AList.dom_update)
qed

lemma fromEntries_keys: "fst ` set (fromEntries es) = fst ` set es"
  by (simp add: fromEntries_def fromEntries_keys_aux)


lemma js_lt_trans: "js_lt x y \<Longrightarrow> js_lt y z \<Longrightarrow> js_lt x z"
  by (cases x; cases y; cases z) auto

lemma js_lt_irrefl: "\<not> js_lt x x"
  by (cases x) auto

lemma js_lt_total:
  "\<not> isNaN x \<Longrightarrow> \<not> isNaN y \<Longrightarrow> \<not> isNaN z \<Longrightarrow> js_lt x y \<Longrightarrow> \<not> js_lt z y \<Longrightarrow> js_lt x z"
  by (cases x; cases y; cases z) auto

lemma js_gt_total:
  "\<not> isNaN x \<Longrightarrow> \<not> isNaN y \<Longrightarrow> \<not> isNaN z \<Longrightarrow> js_lt y x \<Longrightarrow> \<not> js_lt y z \<Longrightarrow> js_lt z x"
  by (cases x; cases y; cases z) auto

lemma foldl_pick_firstBest:
  fixes lt :: "'a \<Rightarrow> 'a \<Rightarrow> bool"
  assumes trans: "\<And>x y z. lt x y \<Longrightarrow> lt y z \<Longrightarrow> lt x z"
    and irr: "\<And>x. \<not> lt x x"
    and tot: "\<And>x y z. x \<in> S \<Longrightarrow> y \<in> S \<Longrightarrow> z \<in> S \<Longrightarrow> lt x y \<Longrightarrow> \<not> lt z y \<Longrightarrow> lt x z"
    and sub: "set (b # ls) \<subseteq> S"
  shows "\<exists>i. firstBest lt (b # ls) i
            \<and> foldl (\<lambda>best nxt. if lt nxt best then nxt else best) b ls = (b # ls) ! i"
  using sub
proof (induction ls rule: rev_induct)
  case Nil
  show ?case by (rule exI [of _ 0]) (simp add: firstBest_def irr)
next
  case (snoc x ls)
  let ?f = "\<lambda>best nxt. if lt nxt best then nxt else best"
  let ?xs = "b # ls"
  have "set ?xs \<subseteq> S" using snoc.prems by auto
  with snoc.IH obtain i where i: "firstBest lt ?xs i" "foldl ?f b ls = ?xs ! i"
    by blast
  have il: "i < length ?xs" using i(1) by (simp add: firstBest_def)
  have sub': "set ?xs \<subseteq> S" "x \<in> S" using snoc.prems by auto
  have memj: "?xs ! j \<in> S" if "j < length ?xs" for j
    using sub'(1) nth_mem [OF that] by blast
  have mem: "?xs ! i \<in> S" "x \<in> S" "\<And>j. j < length ?xs \<Longrightarrow> ?xs ! j \<in> S"
    using memj il sub'(2) by blast+
  have nth_old: "\<And>j. j < length ?xs \<Longrightarrow> (b # ls @ [x]) ! j = ?xs ! j"
    by (metis append_Cons nth_append)
  have nth_new: "(b # ls @ [x]) ! length ?xs = x"
    by (metis append_Cons nth_append_length)
  show ?case
  proof (cases "lt x (?xs ! i)")
    case True
    have "firstBest lt (b # ls @ [x]) (length ?xs)"
      unfolding firstBest_def
    proof (intro conjI allI impI)
      show "length ?xs < length (b # ls @ [x])" by simp
    next
      fix j assume "j < length (b # ls @ [x])"
      then consider "j < length ?xs" | "j = length ?xs" by fastforce
      then show "\<not> lt ((b # ls @ [x]) ! j) ((b # ls @ [x]) ! length ?xs)"
      proof cases
        case 1
        have "\<not> lt (?xs ! j) (?xs ! i)" using i(1) 1 by (simp add: firstBest_def)
        then have "\<not> lt (?xs ! j) x" using True trans by blast
        then show ?thesis unfolding nth_new nth_old [OF 1] .
      next
        case 2
        then show ?thesis unfolding nth_new by (simp add: irr)
      qed
    next
      fix j assume j: "j < length ?xs"
      have "\<not> lt (?xs ! j) (?xs ! i)" using i(1) j by (simp add: firstBest_def)
      then have "lt x (?xs ! j)" using tot [OF mem(2) mem(1) mem(3) [OF j] True] by blast
      then show "lt ((b # ls @ [x]) ! length ?xs) ((b # ls @ [x]) ! j)"
        unfolding nth_new nth_old [OF j] .
    qed
    moreover have "foldl ?f b (ls @ [x]) = (b # ls @ [x]) ! length ?xs"
      unfolding nth_new using True i(2) by simp
    ultimately show ?thesis by blast
  next
    case False
    have "firstBest lt (b # ls @ [x]) i"
      unfolding firstBest_def
    proof (intro conjI allI impI)
      show "i < length (b # ls @ [x])" using il by simp
    next
      fix j assume "j < length (b # ls @ [x])"
      then consider "j < length ?xs" | "j = length ?xs" by fastforce
      then show "\<not> lt ((b # ls @ [x]) ! j) ((b # ls @ [x]) ! i)"
      proof cases
        case 1
        have "\<not> lt (?xs ! j) (?xs ! i)" using i(1) 1 by (simp add: firstBest_def)
        then show ?thesis unfolding nth_old [OF 1] nth_old [OF il] .
      next
        case 2
        show ?thesis unfolding 2 nth_new nth_old [OF il] using False .
      qed
    next
      fix j assume j: "j < i"
      then have jl: "j < length ?xs" using il by simp
      have "lt (?xs ! i) (?xs ! j)" using i(1) j by (simp add: firstBest_def)
      then show "lt ((b # ls @ [x]) ! i) ((b # ls @ [x]) ! j)"
        unfolding nth_old [OF jl] nth_old [OF il] .
    qed
    moreover have "foldl ?f b (ls @ [x]) = (b # ls @ [x]) ! i"
      unfolding nth_old [OF il] using False i(2) by simp
    ultimately show ?thesis by blast
  qed
qed

lemma pickBuy_fold:
  "pickBuy = (\<lambda>best nxt. if (\<lambda>l l'. js_lt (effectivePrice l) (effectivePrice l')) nxt best then nxt else best)"
  by (simp add: pickBuy_def fun_eq_iff)

lemma pickSell_fold:
  "pickSell = (\<lambda>best nxt. if (\<lambda>l l'. js_gt (effectivePrice l) (effectivePrice l')) nxt best then nxt else best)"
  by (simp add: pickSell_def fun_eq_iff)

lemma candidateFor_Some:
  assumes "candidateFor exs minDiffPercent (smb, entries) = Some c"
  shows "\<exists>e1 e2 es. entries = e1 # e2 # es
     \<and> buy c = foldl pickBuy (hd (buyLegsOf exs entries)) (tl (buyLegsOf exs entries))
     \<and> sell c = foldl pickSell (hd (sellLegsOf exs entries)) (tl (sellLegsOf exs entries))
     \<and> netDiff c = toFixedNumber 2 (netDiffOf (buy c) (sell c))
     \<and> \<not> js_lt (netDiffOf (buy c) (sell c)) minDiffPercent
     \<and> symbol c = smb \<and> exchanges c = entries
     \<and> realProfitUsd c = None \<and> validation c = None"
proof -
  from assms obtain e1 e2 es where e: "entries = e1 # e2 # es"
    by (cases entries; simp add: candidateFor_def split: list.splits)
  obtain x1 p1 where e1: "e1 = (x1, p1)" by (cases e1)
  show ?thesis
    using assms unfolding e candidateFor_def buyLegsOf_def sellLegsOf_def e1
    by (auto simp: Let_def split: if_splits)
qed

lemma buildLeg_fields:
  "effectivePrice (buildLeg fs ex p BuySide)
     = js_mul p (js_add (Fin 1) (js_div (totalFeePercentOf fs) (Fin 100)))"
  "effectivePrice (buildLeg fs ex p SellSide)
     = js_mul p (js_sub (Fin 1) (js_div (totalFeePercentOf fs) (Fin 100)))"
  "feePercentApplied (buildLeg fs ex p sd) = totalFeePercentOf fs"
  "exchange (buildLeg fs ex p sd) = ex"
  "price (buildLeg fs ex p sd) = p"
  by (simp_all add: buildLeg_def totalFeePercentOf_def Let_def)

lemma feesOf_venue:
  "exchangeLookup exs ex = Some e \<Longrightarrow>
   totalFeePercentOf (feesOf exs ex)
     = js_add (takerFeePercent (fees e))
              (case transferFeePercent (fees e) of None \<Rightarrow> Fin 0 | Some t \<Rightarrow> t)"
  by (simp add: feesOf_def totalFeePercentOf_def)



lemma toUpperCase_examples:
  "toUpperCase ''BTC'' = ''BTC''" "toUpperCase ''erc20'' = ''ERC20''" "toUpperCase ''Erc20'' = ''ERC20''"
  "toUpperCase ''bep20'' = ''BEP20''"
  by code_simp+


lemma binance_fields:
  "name (binance fo api) = ''binance''"
  "getPairs (binance fo api) = binance_getPairs (exchangeInfo api)"
  "getPrices (binance fo api) = binance_getPrices (tickerPrice api)"
  by (simp_all add: binance_def)

lemma binanceUs_fields:
  "name (binanceUs fo i p) = ''binanceus''"
  "getPairs (binanceUs fo i p) = binanceUs_getPairs i"
  "getPrices (binanceUs fo i p) = binanceUs_getPrices p"
  by (simp_all add: binanceUs_def)

lemma btc_pairs:
  "binancePairs btcListing = [\<lparr>base = ''BTC'', quote = ''USDT'', pairSymbol = ''BTCUSDT''\<rparr>]"
proof -
  have "toUpperCase ''BTCUSDT'' = ''BTCUSDT''" by code_simp
  then show ?thesis
    by (simp add: binancePairs_def btcListing_def arrayOrEmpty_def USDT_def normalizeSymbol_def)
qed

text \<open>
  Claim C5 on the code: \<open>binance.getPairs\<close> and \<open>binance.getPrices\<close> have no
  \<open>try\<close>/\<open>catch\<close>, and \<open>collectPairs\<close> and \<open>collectPrices\<close> await \<open>Promise.all\<close>
  without one.  When the request of Binance fails, the rejection leaves \<open>collectPairs\<close>
  (or \<open>collectPrices\<close>) and the scan, also when the other venue answered.  The sibling
  \<open>binanceUs\<close> catches the same failure and contributes no entries.
\<close>

theorem venue_failure_aborts_scan:
  "collectPairs [binanceUs None (Inr btcListing) (Inr None), binance None binanceDown]
     = Inl RequestFailed
   \<and> getArbitrageOpportunities [binanceUs None (Inr btcListing) (Inr None), binance None binanceDown]
        defaultEnv None = Inl RequestFailed
   \<and> collectPairs [binance None binancePricesDown] = Inr [(''BTCUSDT'', [''binance''])]
   \<and> collectPrices [binance None binancePricesDown] [(''BTCUSDT'', [''binance''])]
        = Inl RequestFailed
   \<and> getArbitrageOpportunities [binance None binancePricesDown] defaultEnv None = Inl RequestFailed
   \<and> collectPairs [binanceUs None (Inl RequestFailed) (Inl RequestFailed)] = Inr []
   \<and> getArbitrageOpportunities [binanceUs None (Inl RequestFailed) (Inl RequestFailed)]
        defaultEnv None = Inr []"
proof -
  have 1: "collectPairs [binanceUs None (Inr btcListing) (Inr None), binance None binanceDown]
     = Inl RequestFailed"
    by (simp add: collectPairs_def binance_fields binanceUs_fields binance_getPairs_def
        binanceUs_getPairs_def binanceDown_def)
  have 2: "collectPairs [binance None binancePricesDown] = Inr [(''BTCUSDT'', [''binance''])]"
    by (simp add: collectPairs_def binance_fields binance_getPairs_def binancePricesDown_def
        btc_pairs pushExchange_def)
  have 3: "collectPrices [binance None binancePricesDown] [(''BTCUSDT'', [''binance''])]
        = Inl RequestFailed"
    by (simp add: collectPrices_def binance_fields binance_getPrices_def binancePricesDown_def
        symbolsForExchange_def)
  have 4: "collectPairs [binanceUs None (Inl RequestFailed) (Inl RequestFailed)] = Inr []"
    by (simp add: collectPairs_def binanceUs_fields binanceUs_getPairs_def)
  have 5: "collectPrices [binanceUs None (Inl RequestFailed) (Inl RequestFailed)] [] = Inr []"
    by (simp add: collectPrices_def symbolsForExchange_def)
  have 6: "validateOpportunities exs defaultEnv [] = []" for exs
    by (simp add: validateOpportunities_def validatedAll_def List.map_filter_def)
  show ?thesis
    by (simp add: getArbitrageOpportunities_def 1 2 3 4 5 6 findArbitrage_def List.map_filter_def)
qed

text \<open>
  Claim C6 on the code: \<open>binance.getPrices\<close> maps every listed symbol to
  \<open>Number(price.price)\<close> and keeps it, finite or not, and \<open>collectPrices\<close> copies what
  it is given: the NaN price is in the resulting mapping.  The sibling \<open>mexc.getPrices\<close>
  drops the same entry.
\<close>

theorem non_finite_price_kept:
  "collectPairs [binance None binanceNaNPrice] = Inr [(''BTCUSDT'', [''binance''])]
   \<and> collectPrices [binance None binanceNaNPrice] [(''BTCUSDT'', [''binance''])]
        = Inr [(''BTCUSDT'', [(''binance'', NaN)])]
   \<and> mexc_getPrices (tickerPrice binanceNaNPrice) [''BTCUSDT''] = Inr []"
proof -
  have 1: "collectPairs [binance None binanceNaNPrice] = Inr [(''BTCUSDT'', [''binance''])]"
    by (simp add: collectPairs_def binance_fields binance_getPairs_def binanceNaNPrice_def
        btc_pairs pushExchange_def)
  have 2: "collectPrices [binance None binanceNaNPrice] [(''BTCUSDT'', [''binance''])]
        = Inr [(''BTCUSDT'', [(''binance'', NaN)])]"
    by (simp add: collectPrices_def binance_fields binance_getPrices_def binanceNaNPrice_def
        symbolsForExchange_def binancePrices_def arrayOrEmpty_def fromEntries_def setPrice_def)
  have 3: "mexc_getPrices (tickerPrice binanceNaNPrice) [''BTCUSDT''] = Inr []"
    by (simp add: mexc_getPrices_def binanceNaNPrice_def arrayOrEmpty_def fromEntries_def)
  from 1 2 3 show ?thesis by simp
qed

lemma set_update_subset: "set (AList.update k v al) \<subseteq> insert (k, v) (set al)"
  by (induction al) auto

lemma allPositive_setPrice:
  assumes "allPositive prices" "positivePrice p"
  shows "allPositive (setPrice prices smb ex p)"
proof -
  have "\<forall>(ex', p') \<in> set byEx. positivePrice p'"
    if "(smb', byEx) \<in> set (setPrice prices smb ex p)" for smb' byEx
  proof (cases "map_of prices smb")
    case None
    with that have "(smb', byEx) \<in> insert (smb, [(ex, p)]) (set prices)"
      using set_update_subset [of smb "[(ex, p)]" prices] by (auto simp: setPrice_def)
    then show ?thesis using assms by (auto simp: allPositive_def)
  next
    case (Some old)
    then have old: "(smb, old) \<in> set prices" by (rule map_of_SomeD)
    from Some that have "(smb', byEx) \<in> insert (smb, AList.update ex p old) (set prices)"
      using set_update_subset [of smb "AList.update ex p old" prices] by (auto simp: setPrice_def)
    moreover have "\<forall>(ex', p') \<in> set (AList.update ex p old). positivePrice p'"
      using set_update_subset [of ex p old] old assms by (fastforce simp: allPositive_def)
    ultimately show ?thesis using assms(1) by (auto simp: allPositive_def)
  qed
  then show ?thesis unfolding allPositive_def by blast
qed

lemma allPositive_fold:
  assumes "allPositive prices" "\<forall>(smb, p) \<in> set ps. positivePrice p"
  shows "allPositive (foldl (\<lambda>acc (smb, p). setPrice acc smb nm p) prices ps)"
  using assms
proof (induction ps arbitrary: prices)
  case Nil
  then show ?case by simp
next
  case (Cons a ps)
  obtain smb p where a: "a = (smb, p)" by (cases a)
  have "allPositive (setPrice prices smb nm p)"
    using Cons.prems by (intro allPositive_setPrice) (auto simp: a)
  then show ?case using Cons.prems(2) by (simp add: a Cons.IH)
qed

lemma allPositive_collectPricesLoop:
  assumes "\<forall>e \<in> set exs. \<forall>symbols ps. getPrices e symbols = Inr ps \<longrightarrow>
             (\<forall>(smb, p) \<in> set ps. positivePrice p)"
    and "allPositive acc" "collectPricesLoop exs pairMap acc = Inr prices"
  shows "allPositive prices"
  using assms
proof (induction exs arbitrary: acc)
  case Nil
  then show ?case by simp
next
  case (Cons ex exs)
  have rest: "\<forall>e \<in> set exs. \<forall>symbols ps. getPrices e symbols = Inr ps \<longrightarrow>
             (\<forall>(smb, p) \<in> set ps. positivePrice p)"
    using Cons.prems(1) by simp
  show ?case
  proof (cases "symbolsForExchange pairMap ex = []")
    case True
    with Cons.prems(3) have "collectPricesLoop exs pairMap acc = Inr prices" by simp
    from Cons.IH [OF rest Cons.prems(2) this] show ?thesis .
  next
    case False
    with Cons.prems(3) obtain ps where ps: "getPrices ex (symbolsForExchange pairMap ex) = Inr ps"
      and L: "collectPricesLoop exs pairMap
                (foldl (\<lambda>acc (smb, p). setPrice acc smb (name ex) p) acc ps) = Inr prices"
      by (auto simp: Let_def split: sum.splits)
    have "\<forall>(smb, p) \<in> set ps. positivePrice p" using Cons.prems(1) ps by simp
    then have "allPositive (foldl (\<lambda>acc (smb, p). setPrice acc smb (name ex) p) acc ps)"
      using Cons.prems(2) by (intro allPositive_fold)
    from Cons.IH [OF rest this L] show ?thesis .
  qed
qed

lemma allPositive_collectPrices:
  assumes "\<forall>e \<in> set exs. \<forall>symbols ps. getPrices e symbols = Inr ps \<longrightarrow>
             (\<forall>(smb, p) \<in> set ps. positivePrice p)"
    and "collectPrices exs pairMap = Inr prices"
  shows "allPositive prices"
  using allPositive_collectPricesLoop [OF assms(1) _ assms(2) [unfolded collectPrices_def]]
  by (simp add: allPositive_def)

lemma positivePrice_Fin: "positivePrice p \<Longrightarrow> \<exists>x. p = Fin x \<and> 0 < x"
  by (cases p) (auto simp: positivePrice_def)

lemma nonNegative_Fin: "nonNegative p \<Longrightarrow> \<exists>x. p = Fin x \<and> 0 \<le> x"
  by (cases p) (auto simp: nonNegative_def)

lemma totalFee_valid:
  assumes "case fs of None \<Rightarrow> True | Some f \<Rightarrow> validFees f"
  shows "\<exists>t. totalFeePercentOf fs = Fin t \<and> 0 \<le> t"
proof (cases fs)
  case None
  then show ?thesis by (simp add: totalFeePercentOf_def)
next
  case (Some f)
  with assms have v: "validFees f" by simp
  then obtain a where a: "takerFeePercent f = Fin a" "0 \<le> a"
    using nonNegative_Fin by (auto simp: validFees_def)
  show ?thesis
  proof (cases "transferFeePercent f")
    case None
    with a Some show ?thesis by (simp add: totalFeePercentOf_def)
  next
    case (Some t)
    with v obtain b where "t = Fin b" "0 \<le> b"
      using nonNegative_Fin by (auto simp: validFees_def)
    with a Some \<open>fs = Some f\<close> show ?thesis by (simp add: totalFeePercentOf_def)
  qed
qed

lemma feesOf_valid:
  assumes "\<forall>e \<in> set exs. validFees (fees e)"
  shows "case feesOf exs ex of None \<Rightarrow> True | Some f \<Rightarrow> validFees f"
  using assms by (auto simp: feesOf_def split: option.splits dest: exchangeLookup_mem)

lemma buyLeg_positive:
  assumes "\<forall>e \<in> set exs. validFees (fees e)" "positivePrice p"
  shows "\<exists>x t. effectivePrice (buildLeg (feesOf exs ex) ex p BuySide) = Fin x \<and> 0 < x
            \<and> feePercentApplied (buildLeg (feesOf exs ex) ex p BuySide) = Fin t"
proof -
  obtain t where t: "totalFeePercentOf (feesOf exs ex) = Fin t" "0 \<le> t"
    using totalFee_valid [OF feesOf_valid [OF assms(1)]] by blast
  obtain x where x: "p = Fin x" "0 < x" using positivePrice_Fin [OF assms(2)] by blast
  have "0 < x * (1 + t / 100)" using x(2) t(2) by (intro mult_pos_pos) auto
  then show ?thesis by (simp add: buildLeg_fields t x)
qed

lemma sellLeg_finite:
  assumes "\<forall>e \<in> set exs. validFees (fees e)" "positivePrice p"
  shows "\<exists>x t. effectivePrice (buildLeg (feesOf exs ex) ex p SellSide) = Fin x
            \<and> feePercentApplied (buildLeg (feesOf exs ex) ex p SellSide) = Fin t"
proof -
  obtain t where t: "totalFeePercentOf (feesOf exs ex) = Fin t" "0 \<le> t"
    using totalFee_valid [OF feesOf_valid [OF assms(1)]] by blast
  obtain x where x: "p = Fin x" "0 < x" using positivePrice_Fin [OF assms(2)] by blast
  show ?thesis by (simp add: buildLeg_fields t x)
qed

lemma foldl_pick_mem:
  assumes "\<And>a b. f a b = a \<or> f a b = b"
  shows "foldl f b ls \<in> set (b # ls)"
proof (induction ls rule: rev_induct)
  case Nil
  show ?case by simp
next
  case (snoc x ls)
  from assms [of "foldl f b ls" x] snoc show ?case by auto
qed

lemma candidate_legs:
  assumes C: "candidateFor exs threshold (smb, entries) = Some cand"
    and F: "\<forall>e \<in> set exs. validFees (fees e)"
    and P: "\<forall>(ex, p) \<in> set entries. positivePrice p"
  shows "\<exists>b s tb ts. effectivePrice (buy cand) = Fin b \<and> 0 < b \<and> effectivePrice (sell cand) = Fin s
           \<and> feePercentApplied (buy cand) = Fin tb \<and> feePercentApplied (sell cand) = Fin ts"
proof -
  from candidateFor_Some [OF C] obtain e1 e2 es where e: "entries = e1 # e2 # es"
    and b: "buy cand = foldl pickBuy (hd (buyLegsOf exs entries)) (tl (buyLegsOf exs entries))"
    and s: "sell cand = foldl pickSell (hd (sellLegsOf exs entries)) (tl (sellLegsOf exs entries))"
    by blast
  have bl: "buyLegsOf exs entries = hd (buyLegsOf exs entries) # tl (buyLegsOf exs entries)"
    and sl: "sellLegsOf exs entries = hd (sellLegsOf exs entries) # tl (sellLegsOf exs entries)"
    using e by (simp_all add: buyLegsOf_def sellLegsOf_def)
  have "buy cand \<in> set (hd (buyLegsOf exs entries) # tl (buyLegsOf exs entries))"
    unfolding b by (rule foldl_pick_mem) (simp add: pickBuy_def)
  then have "buy cand \<in> set (buyLegsOf exs entries)" using bl by simp
  then obtain ex p where 1: "(ex, p) \<in> set entries" "buy cand = buildLeg (feesOf exs ex) ex p BuySide"
    by (auto simp: buyLegsOf_def)
  have "sell cand \<in> set (hd (sellLegsOf exs entries) # tl (sellLegsOf exs entries))"
    unfolding s by (rule foldl_pick_mem) (simp add: pickSell_def)
  then have "sell cand \<in> set (sellLegsOf exs entries)" using sl by simp
  then obtain ex' p' where 2: "(ex', p') \<in> set entries" "sell cand = buildLeg (feesOf exs ex') ex' p' SellSide"
    by (auto simp: sellLegsOf_def)
  have pp: "positivePrice p" "positivePrice p'" using P 1(1) 2(1) by auto
  from buyLeg_positive [OF F pp(1), of ex] sellLeg_finite [OF F pp(2), of ex'] 1(2) 2(2)
  show ?thesis by auto
qed

lemma threshold_not_NaN: "\<not> isNaN (thresholdOf env minDiffPercent)"
  by (auto simp: thresholdOf_def DEFAULT_MIN_DIFF_PERCENT_def Let_def split: option.splits)

lemma not_lt_ge: "\<not> isNaN a \<Longrightarrow> \<not> isNaN b \<Longrightarrow> \<not> js_lt a b \<Longrightarrow> js_ge a b"
  by (cases a; cases b) (auto simp: js_ge_def)

lemma netDiff_finite:
  assumes "effectivePrice b = Fin x" "0 < x" "effectivePrice s = Fin y"
  shows "\<not> isNaN (netDiffOf b s)"
  using assms by (simp add: netDiffOf_def)

lemma constants_finite:
  "\<exists>q. DEFAULT_TRADE_AMOUNT env = Fin q"
  "\<exists>q. MIN_REAL_PROFIT_USD env = Fin q"
  "\<exists>q. MIN_24H_VOLUME env = Fin q"
  "\<exists>q. MAX_SLIPPAGE_PERCENT env = Fin q"
proof -
  have "\<exists>q. readNumberEnv raw fb = Fin q" for raw fb
    by (cases raw; cases "the raw") (auto simp: readNumberEnv_def Let_def)
  then show "\<exists>q. DEFAULT_TRADE_AMOUNT env = Fin q" "\<exists>q. MIN_REAL_PROFIT_USD env = Fin q"
    "\<exists>q. MIN_24H_VOLUME env = Fin q" "\<exists>q. MAX_SLIPPAGE_PERCENT env = Fin q"
    by (simp_all add: DEFAULT_TRADE_AMOUNT_def MIN_REAL_PROFIT_USD_def MIN_24H_VOLUME_def
        MAX_SLIPPAGE_PERCENT_def)
qed

lemma realProfit_finite:
  assumes "vwapBuyForQuoteAmount buyBook (DEFAULT_TRADE_AMOUNT env) = Some buyFill"
    and "vwapSellForBaseAmount sellBook (baseAmount buyFill) = Some sellFill"
    and "feePercentApplied (buy opp) = Fin tb" "feePercentApplied (sell opp) = Fin ts"
  shows "\<exists>rp. realProfitOf env opp sellFill = Fin rp"
proof -
  obtain q where q: "DEFAULT_TRADE_AMOUNT env = Fin q" using constants_finite(1) by blast
  from vwapBuy_finite_cases [of buyBook q] assms(1) obtain e b where
    "buyFill = \<lparr>executablePrice = Fin e, baseAmount = Fin b\<rparr>"
    unfolding q by auto
  then have ba: "baseAmount buyFill = Fin b" by simp
  from vwapSell_finite_cases [of sellBook b] assms(2) obtain e' b' where
    "sellFill = \<lparr>executablePrice = Fin e', baseAmount = Fin b'\<rparr>"
    unfolding ba by auto
  then show ?thesis by (simp add: realProfitOf_def q assms(3,4))
qed

lemma toFixed_keeps_threshold:
  assumes "of_int m / 100 \<le> rp"
  shows "\<exists>v. toFixedNumber 2 (Fin rp) = Fin v \<and> of_int m / 100 \<le> v"
proof (cases "10 ^ 21 \<le> \<bar>rp\<bar>")
  case True
  then show ?thesis using assms by simp
next
  case False
  define k where "k = \<lfloor>\<bar>rp\<bar> * 10 ^ 2 + 1 / 2\<rfloor>"
  have v: "toFixedNumber 2 (Fin rp) = Fin (sgn rp * of_int k / 10 ^ 2)"
    using False by (simp add: k_def)
  have m: "of_int m \<le> rp * 100" using assms by simp
  consider "0 < rp" | "rp = 0" | "rp < 0" by linarith
  then have "of_int m / 100 \<le> sgn rp * of_int k / 10 ^ 2"
  proof cases
    case 1
    have "of_int m \<le> \<bar>rp\<bar> * 10 ^ 2 + 1 / 2" using m 1 by simp
    then have "m \<le> k" unfolding k_def by (simp only: le_floor_iff)
    then have "(of_int m :: real) \<le> of_int k" by simp
    then show ?thesis using 1 by simp
  next
    case 2
    then show ?thesis using m by simp
  next
    case 3
    have "\<bar>rp\<bar> * 10 ^ 2 + 1 / 2 < of_int (- m) + 1" using m 3 by simp
    then have "k \<le> - m" unfolding k_def by (simp only: floor_le_iff)
    then have "(of_int k :: real) \<le> - of_int m" by linarith
    then show ?thesis using 3 by simp
  qed
  with v show ?thesis by blast
qed

lemma rounding_constants:
  "MIN_24H_VOLUME roundingEnv = Fin 50000"
  "MAX_SLIPPAGE_PERCENT roundingEnv = Fin (8 / 10)"
  "MIN_REAL_PROFIT_USD roundingEnv = Fin (19781 / 1000)"
  "DEFAULT_TRADE_AMOUNT roundingEnv = Fin (10001 / 100)"
  "DEFAULT_MIN_DIFF_PERCENT roundingEnv = Fin (1 / 2)"
  by (simp_all add: MIN_24H_VOLUME_def MAX_SLIPPAGE_PERCENT_def MIN_REAL_PROFIT_USD_def
      DEFAULT_TRADE_AMOUNT_def DEFAULT_MIN_DIFF_PERCENT_def defaultEnv_def roundingEnv_def
      readNumberEnv_def)

lemma rounding_fills:
  "vwapBuyForQuoteAmount alphaBook (Fin (10001 / 100))
     = Some \<lparr>executablePrice = Fin 100, baseAmount = Fin (10001 / 10000)\<rparr>"
  "vwapSellForBaseAmount betaBook (Fin (10001 / 10000))
     = Some \<lparr>executablePrice = Fin 120, baseAmount = Fin (10001 / 10000)\<rparr>"
  by (simp_all add: vwapBuyForQuoteAmount_def vwapSellForBaseAmount_def alphaBook_def betaBook_def
      js_gt_def Let_def)

lemma rounding_validateOpportunity:
  "validateOpportunity (exampleExchanges None None (Some (Fin 1000000))) roundingEnv
     (tickersCache (exampleExchanges None None (Some (Fin 1000000))) [exampleCandidate])
     (currenciesCache (exampleExchanges None None (Some (Fin 1000000))) [exampleCandidate])
     exampleCandidate
   = ([(''alpha'', ''BTCUSDT''), (''beta'', ''BTCUSDT'')], Some roundingValidated)"
proof -
  have c: "symbol exampleCandidate = ''BTCUSDT''" "exchange (buy exampleCandidate) = ''alpha''"
    "exchange (sell exampleCandidate) = ''beta''"
    "feePercentApplied (buy exampleCandidate) = Fin (1 / 10)"
    "feePercentApplied (sell exampleCandidate) = Fin (1 / 10)"
    by (simp_all add: exampleCandidate_def)
  have b: "asks alphaBook = [(Fin 100, Fin 1000)]" "bids betaBook = [(Fin 120, Fin 1000)]"
    by (simp_all add: alphaBook_def betaBook_def)
  show ?thesis
    unfolding validateOpportunity_def c example_lookup option.case example_capabilities
      example_volumes example_books example_currencies rounding_constants
    by (simp add: Let_def firstPrice_def b rounding_fills buySlippagePercent_def
        sellSlippagePercent_def js_gt_def validateTransferabilityFromCache_def
        buildLegValidationRequired_def roundingValidated_def example_capabilities)
qed

lemma rounding_validated_projections:
  "isValidated roundingValidated"
  "realProfitUsd roundingValidated = Some (Fin (989 / 50))"
  by (simp_all add: roundingValidated_def isValidated_def)

lemma rounding_scan:
  "getArbitrageOpportunities (exampleExchanges None None (Some (Fin 1000000))) roundingEnv None
     = Inr [roundingValidated]"
  by (simp add: getArbitrageOpportunities_def example_collectPairs example_collectPrices
      rounding_constants example_findArbitrage validateOpportunities_def validatedAll_def
      rounding_validateOpportunity List.map_filter_def rounding_validated_projections)

lemma scan_unfolded:
  assumes "getArbitrageOpportunities exs env minDiffPercent = Inr outs"
  shows "\<exists>pairMap prices. collectPairs exs = Inr pairMap \<and> collectPrices exs pairMap = Inr prices
           \<and> outs = validateOpportunities exs env (findArbitrage exs prices (thresholdOf env minDiffPercent))"
  using assms unfolding getArbitrageOpportunities_def thresholdOf_def
  by (simp add: Let_def split: sum.splits)

lemma findArbitrage_mem:
  assumes "cand \<in> set (findArbitrage exs prices th)"
  shows "\<exists>smb entries. (smb, entries) \<in> set prices \<and> candidateFor exs th (smb, entries) = Some cand"
proof -
  from assms obtain x where x: "x \<in> set prices" "candidateFor exs th x = Some cand"
    by (auto simp: findArbitrage_def List.map_filter_def)
  obtain smb entries where "x = (smb, entries)" by (cases x)
  with x show ?thesis by blast
qed

lemma realProfitOf_legs:
  "buy a = buy b \<Longrightarrow> sell a = sell b \<Longrightarrow> realProfitOf env a f = realProfitOf env b f"
  by (simp add: realProfitOf_def)




end
